(* ===== verification/Prelude.thy ===== *)
theory Prelude
  imports Main "HOL-Library.Word" "HOL-Library.AList"
begin

text \<open>
  The shared prelude of the development.
  \<^item> the machine integers of the sources: \<open>uint8_t .. uint64_t\<close> are words of that width;
    \<open>int64_t\<close> is an \<open>int\<close> in two's complement range, and every place where the code can
    leave that range is written with \<open>wrap64\<close>;
  \<^item> \<open>bindR\<close>, sequencing of computations that may throw (\<open>Inl\<close> is the exception);
  \<^item> the few printf conversions the diagnostics use (\<open>%d\<close>, \<open>%+d\<close>, \<open>%x\<close>, \<open>%016zx\<close>, \<open>%02x\<close>);
  \<^item> \<open>upper_bound_idx\<close>, the position \<open>std::upper_bound\<close> returns on a partitioned range,
    and \<open>last_le\<close>, the look-up "last entry whose key is at most k" all tables share;
  \<^item> sorted association lists, the model of \<open>absl::btree_map\<close>, with the map contract
    they meet as a locale.
\<close>

unbundle bit_operations_syntax

type_synonym u8 = "8 word"
type_synonym u16 = "16 word"
type_synonym u32 = "32 word"
type_synonym u64 = "64 word"
type_synonym int64 = int

named_theorems wf_intros \<open>preservation of well-formedness invariants\<close>
named_theorems reader_simps \<open>unfolding of the byte readers\<close>

subsection \<open>Signed 64-bit and 32-bit values\<close>

definition wrap64 :: "int \<Rightarrow> int64" where
  "wrap64 x = sint (word_of_int x :: 64 word)"

text \<open>\<open>static_cast<int>\<close> of an \<open>int64_t\<close>: the low 32 bits, read as two's complement.\<close>

definition to_int32 :: "int64 \<Rightarrow> int" where
  "to_int32 x = sint (word_of_int x :: 32 word)"

definition in_int64 :: "int \<Rightarrow> bool" where
  "in_int64 x \<longleftrightarrow> - (2 ^ 63) \<le> x \<and> x < 2 ^ 63"

lemma wrap64_id: "in_int64 x \<Longrightarrow> wrap64 x = x"
  by (simp add: wrap64_def in_int64_def sint_word_ariths signed_take_bit_int_eq_self signed_of_int)

lemma in_int64_sint: "in_int64 (sint (w :: 64 word))"
  using sint_ge [of w] sint_lt [of w] by (simp add: in_int64_def)

lemma in_int64_wrap64 [simp, intro]: "in_int64 (wrap64 x)"
  by (simp add: wrap64_def in_int64_sint)

lemma wrap64_wrap64 [simp]: "wrap64 (wrap64 x) = wrap64 x"
  by (rule wrap64_id) simp

lemma word_of_int_wrap64 [simp]: "(word_of_int (wrap64 x) :: 64 word) = word_of_int x"
  by (simp add: wrap64_def)

lemma word_of_int_eq_iff_wrap64:
  "(word_of_int x :: 64 word) = word_of_int y \<longleftrightarrow> wrap64 x = wrap64 y"
  by (metis wrap64_def word_of_int_wrap64)

lemma word_of_int_in_int64_inj:
  "in_int64 x \<Longrightarrow> in_int64 y \<Longrightarrow> (word_of_int x :: 64 word) = word_of_int y \<longleftrightarrow> x = y"
  by (simp add: word_of_int_eq_iff_wrap64 wrap64_id)

subsection \<open>Computations that may throw\<close>

fun bindR :: "'e + 'a \<Rightarrow> ('a \<Rightarrow> 'e + 'b) \<Rightarrow> 'e + 'b" where
  "bindR (Inl e) f = Inl e"
| "bindR (Inr x) f = f x"

lemma bindR_cong [fundef_cong]:
  "m = m' \<Longrightarrow> (\<And>x. m' = Inr x \<Longrightarrow> f x = f' x) \<Longrightarrow> bindR m f = bindR m' f'"
  by (cases m') auto

lemma bindR_eq_Inr: "bindR m f = Inr y \<longleftrightarrow> (\<exists>x. m = Inr x \<and> f x = Inr y)"
  by (cases m) auto

lemma bindR_eq_Inl: "bindR m f = Inl e \<longleftrightarrow> m = Inl e \<or> (\<exists>x. m = Inr x \<and> f x = Inl e)"
  by (cases m) auto

lemma bindR_split: "P (bindR m f) \<longleftrightarrow> (\<forall>e. m = Inl e \<longrightarrow> P (Inl e)) \<and> (\<forall>x. m = Inr x \<longrightarrow> P (f x))"
  by (cases m) auto

subsection \<open>Formatting\<close>

definition digit_char :: "nat \<Rightarrow> char" where
  "digit_char n = ''0123456789abcdef'' ! n"

fun show_nat :: "nat \<Rightarrow> string" where
  "show_nat n = (if n < 10 then [digit_char n] else show_nat (n div 10) @ [digit_char (n mod 10)])"

fun show_hex :: "nat \<Rightarrow> string" where
  "show_hex n = (if n < 16 then [digit_char n] else show_hex (n div 16) @ [digit_char (n mod 16)])"

declare show_nat.simps [simp del] show_hex.simps [simp del]

definition fmt_d :: "int \<Rightarrow> string" where
  "fmt_d i = (if i < 0 then ''-'' @ show_nat (nat (- i)) else show_nat (nat i))"

definition fmt_plus_d :: "int \<Rightarrow> string" where
  "fmt_plus_d i = (if i < 0 then ''-'' @ show_nat (nat (- i)) else ''+'' @ show_nat (nat i))"

definition fmt_x :: "u64 \<Rightarrow> string" where
  "fmt_x w = show_hex (unat w)"

definition pad0 :: "nat \<Rightarrow> string \<Rightarrow> string" where
  "pad0 n s = replicate (n - length s) (CHR ''0'') @ s"

subsection \<open>Binary searches\<close>

text \<open>
  \<open>absl::c_upper_bound(xs, k, less)\<close> with \<open>less(k, x) = k < key x\<close>: the index of the first
  element whose key exceeds \<open>k\<close>. On a range sorted by key this is what the standard's
  binary search returns.
\<close>

definition upper_bound_idx :: "('a \<Rightarrow> 'k::linorder) \<Rightarrow> 'k \<Rightarrow> 'a list \<Rightarrow> nat" where
  "upper_bound_idx key k xs = length (takeWhile (\<lambda>x. \<not> k < key x) xs)"

text \<open>The idiom all tables use: \<open>it == begin ? none : *(it - 1)\<close>.\<close>

definition last_le :: "('a \<Rightarrow> 'k::linorder) \<Rightarrow> 'k \<Rightarrow> 'a list \<Rightarrow> 'a option" where
  "last_le key k xs = (let i = upper_bound_idx key k xs in if i = 0 then None else Some (xs ! (i - 1)))"

lemma last_le_Nil [simp]: "last_le key k [] = None"
  by (simp add: last_le_def upper_bound_idx_def)

lemma last_le_Cons:
  "last_le key k (x # xs) =
     (if k < key x then None else case last_le key k xs of None \<Rightarrow> Some x | Some y \<Rightarrow> Some y)"
  by (auto simp: last_le_def upper_bound_idx_def Let_def nth_Cons split: nat.splits)

lemma last_le_SomeD: "last_le key k xs = Some x \<Longrightarrow> x \<in> set xs \<and> key x \<le> k"
  by (induction xs) (auto simp: last_le_Cons split: if_splits option.splits)

lemma last_le_sorted_maximal:
  "sorted (map key xs) \<Longrightarrow> last_le key k xs = Some x \<Longrightarrow> y \<in> set xs \<Longrightarrow> key y \<le> k \<Longrightarrow> key y \<le> key x"
proof (induction xs)
  case Nil
  then show ?case by simp
next
  case (Cons z zs)
  show ?case
  proof (cases "last_le key k zs")
    case None
    have "\<forall>y \<in> set zs. \<not> key y \<le> k"
    proof (cases zs)
      case (Cons w ws)
      with None have "k < key w" by (auto simp: last_le_Cons split: if_splits option.splits)
      with Cons Cons.prems(1) show ?thesis by auto
    qed simp
    with None Cons.prems show ?thesis by (auto simp: last_le_Cons split: if_splits)
  next
    case (Some v)
    with Cons.prems have "v = x" by (auto simp: last_le_Cons split: if_splits)
    with Some Cons show ?thesis using last_le_SomeD [OF Some] by auto
  qed
qed

lemma last_le_eq_None: "sorted (map key xs) \<Longrightarrow> last_le key k xs = None \<longleftrightarrow> (\<forall>x \<in> set xs. k < key x)"
  by (cases xs) (auto simp: last_le_Cons split: option.splits)

subsection \<open>Ordered maps\<close>

text \<open>
  \<open>absl::btree_map\<close> iterates in key order, so the model is an association list kept
  strictly sorted by key. \<open>omap_put\<close> is \<open>m[k] = v\<close>, \<open>omap_erase\<close> is \<open>m.erase(k)\<close> and
  \<open>omap_erase_range\<close> erases the keys in a half-open interval; look-up is \<open>map_of\<close>.
\<close>

fun omap_put :: "'k::linorder \<Rightarrow> 'v \<Rightarrow> ('k \<times> 'v) list \<Rightarrow> ('k \<times> 'v) list" where
  "omap_put k v [] = [(k, v)]"
| "omap_put k v ((k', v') # m) =
     (if k < k' then (k, v) # (k', v') # m
      else if k = k' then (k, v) # m
      else (k', v') # omap_put k v m)"

definition omap_erase :: "'k::linorder \<Rightarrow> ('k \<times> 'v) list \<Rightarrow> ('k \<times> 'v) list" where
  "omap_erase k m = filter (\<lambda>(k', _). k' \<noteq> k) m"

definition omap_erase_range :: "'k::linorder \<Rightarrow> 'k \<Rightarrow> ('k \<times> 'v) list \<Rightarrow> ('k \<times> 'v) list" where
  "omap_erase_range lo hi m = filter (\<lambda>(k', _). \<not> (lo \<le> k' \<and> k' < hi)) m"

definition omap_erase_below :: "'k::linorder \<Rightarrow> ('k \<times> 'v) list \<Rightarrow> ('k \<times> 'v) list" where
  "omap_erase_below hi m = filter (\<lambda>(k', _). \<not> k' < hi) m"

abbreviation omap_ok :: "('k::linorder \<times> 'v) list \<Rightarrow> bool" where
  "omap_ok m \<equiv> sorted_wrt (<) (map fst m)"

lemma fst_set_omap_put: "fst ` set (omap_put k v m) = insert k (fst ` set m)"
  by (induction m rule: omap_put.induct) (simp_all, fastforce+)

lemma omap_ok_put [wf_intros]: "omap_ok m \<Longrightarrow> omap_ok (omap_put k v m)"
proof (induction m)
  case (Cons p m)
  obtain k' v' where p: "p = (k', v')" by (cases p)
  have "\<forall>x \<in> fst ` set (omap_put k v m). x = k \<or> x \<in> fst ` set m"
    by (simp only: fst_set_omap_put) simp
  then have "\<forall>x \<in> set (omap_put k v m). fst x = k \<or> (\<exists>y \<in> set m. fst x = fst y)"
    by auto
  with Cons p show ?case by fastforce
qed simp

lemma map_of_omap_put: "omap_ok m \<Longrightarrow> map_of (omap_put k v m) = (map_of m)(k \<mapsto> v)"
proof (induction m)
  case (Cons p m)
  then show ?case by (cases p) (auto simp: fun_eq_iff)
qed simp

lemma omap_ok_filter: "omap_ok m \<Longrightarrow> omap_ok (filter P m)"
  by (induction m) auto

lemma map_of_filter_key: "map_of (filter (\<lambda>(k, _). P k) m) k = (if P k then map_of m k else None)"
  by (induction m) auto

lemma omap_ok_erase [wf_intros]: "omap_ok m \<Longrightarrow> omap_ok (omap_erase k m)"
  and omap_ok_erase_range [wf_intros]: "omap_ok m \<Longrightarrow> omap_ok (omap_erase_range lo hi m)"
  and omap_ok_erase_below [wf_intros]: "omap_ok m \<Longrightarrow> omap_ok (omap_erase_below hi m)"
  by (simp_all add: omap_erase_def omap_erase_range_def omap_erase_below_def omap_ok_filter)

lemma map_of_omap_erase: "map_of (omap_erase k m) j = (if j = k then None else map_of m j)"
  and map_of_omap_erase_range: "map_of (omap_erase_range lo hi m) j = (if lo \<le> j \<and> j < hi then None else map_of m j)"
  and map_of_omap_erase_below: "map_of (omap_erase_below hi m) j = (if j < hi then None else map_of m j)"
  by (simp_all only: omap_erase_def omap_erase_range_def omap_erase_below_def map_of_filter_key) simp_all

lemmas omap_simps = map_of_omap_put map_of_omap_erase map_of_omap_erase_range map_of_omap_erase_below

lemma omap_ok_distinct: "omap_ok m \<Longrightarrow> distinct (map fst m)"
  by (simp add: strict_sorted_iff)

lemma omap_unfold: "omap_ok m \<Longrightarrow> m = map (\<lambda>k. (k, the (map_of m k))) (map fst m)"
proof (rule nth_equalityI)
  fix i
  assume "omap_ok m" "i < length m"
  then have "map_of m (fst (m ! i)) = Some (snd (m ! i))"
    by (simp add: omap_ok_distinct)
  with \<open>i < length m\<close> show "m ! i = map (\<lambda>k. (k, the (map_of m k))) (map fst m) ! i"
    by simp
qed simp

lemma omap_eqI:
  assumes "omap_ok m" "omap_ok m'" "map_of m = map_of m'"
  shows "m = m'"
proof -
  have "set (map fst m) = set (map fst m')"
    using assms(3) by (metis dom_map_of_conv_image_fst list.set_map)
  then have "map fst m = map fst m'"
    using assms(1,2) by (simp add: strict_sorted_equal)
  then show ?thesis
    using omap_unfold [OF assms(1)] omap_unfold [OF assms(2)] assms(3) by simp
qed


lemma map_of_map_key: "map_of (map (\<lambda>(k, v). (k, f k v)) m) j = map_option (f j) (map_of m j)"
  by (induction m) auto

text \<open>
  The contract of a map: what a look-up returns after an insertion. The sorted association lists
  (\<open>btree_map\<close>) and the plain ones without duplicate keys (\<open>flat_hash_map\<close>) both meet it.
\<close>

locale map_contract =
  fixes ok :: "'m \<Rightarrow> bool" and look :: "'m \<Rightarrow> 'k \<Rightarrow> 'v option" and put :: "'k \<Rightarrow> 'v \<Rightarrow> 'm \<Rightarrow> 'm"
  assumes ok_put: "ok m \<Longrightarrow> ok (put k v m)"
    and look_put: "ok m \<Longrightarrow> look (put k v m) = (look m)(k \<mapsto> v)"
begin

lemma fold_put:
  assumes "ok m" "distinct (map fst kvs)"
  shows "ok (fold (\<lambda>(k, v). put k v) kvs m) \<and> look (fold (\<lambda>(k, v). put k v) kvs m) = look m ++ map_of kvs"
  using assms
proof (induction kvs arbitrary: m)
  case (Cons p kvs)
  obtain k v where p: "p = (k, v)" by (cases p)
  with Cons have "ok (put k v m)" by (simp add: ok_put)
  from Cons.IH [OF this] Cons.prems p show ?case
    by (auto simp: look_put map_add_def fun_eq_iff map_of_eq_None_iff [THEN iffD2] split: option.splits)
qed simp

end

interpretation omap: map_contract omap_ok map_of omap_put
  by unfold_locales (simp_all add: omap_ok_put map_of_omap_put)

interpretation hmap: map_contract "\<lambda>m. distinct (map fst m)" map_of AList.update
  by unfold_locales (simp_all add: distinct_update update_conv')

end
