(* ===== verification/Eh_Frame_Reader.thy ===== *)
theory Eh_Frame_Reader
  imports Prelude
begin

text \<open>
  \<^verbatim>\<open>eh-frame-reader.h\<close> and \<^verbatim>\<open>eh-frame-reader.cc\<close>: the decoding half of the
  \<^verbatim>\<open>.eh_frame\<close> machinery. A \<open>byte_slice\<close> is a pointer and a length over the live
  memory \<open>mem\<close>; every read is bounds-checked against the slice and a failed check is a
  value \<open>Inl\<close> of type \<open>EHFrameError\<close>, one constructor per \<open>Fail\<close> site. The template
  parameter \<open>V\<close> of \<open>Decoder\<close> is a record of call-backs over an arbitrary visitor state.
\<close>

subsection \<open>Errors\<close>

datatype EHFrameError =
    TruncatedData
  | InsufficientAlignment nat u64
  | SubsliceOverflow u64 nat
  | Uleb128Overflow
  | Sleb128Overflow
  | UnsupportedPointerFormat u8
  | TruncatedAsciiz
  | TruncatedInTruncateSlice
  | OutOfBoundsAddress u64 u64 u64
  | CIECannotAdvance
  | BadHdrVersion u8
  | NoBinarySearchTable
  | UnsupportedTableEncoding u8
  | LongLengthInFDE
  | EmptyFDE
  | LongLengthInCIE
  | WrongCIEId u32
  | UnsupportedCIEVersion u8
  | ZeroCodeAlign
  | AugWithoutZ u8
  | UnknownAug u8
  | SetLocBackward
  | UnknownOpcode u8
  | TruncatedU32 string u64
  | LongLengthAt u64
  | RecordOverrun u64 u32
  | RememberTooDeep
  | RestoreEmpty
  | NoRows u64
  | LSDAPastMapped
  | LSDAUlebOverflow
  | LSDATruncated
  | LSDAUnsupportedEncoding u8

definition hex02 :: "u8 \<Rightarrow> string" where
  "hex02 b = pad0 2 (show_hex (unat b))"

definition hex016 :: "u64 \<Rightarrow> string" where
  "hex016 w = pad0 16 (fmt_x w)"

fun what :: "EHFrameError \<Rightarrow> string" where
  "what TruncatedData = ''eh_frame read error: truncated data''"
| "what (InsufficientAlignment al a) =
     ''eh_frame read error: insufficient alignment. Align needed: '' @ show_nat al @ '', address: 0x'' @ fmt_x a"
| "what (SubsliceOverflow n sz) =
     ''eh_frame read error: ReadSubslice overflow. n * sizeof(T) = '' @ fmt_d (sint n) @ '' * '' @ show_nat sz"
| "what Uleb128Overflow = ''eh_frame read error: uleb128 overflow''"
| "what Sleb128Overflow = ''eh_frame read error: sleb128 overflow''"
| "what (UnsupportedPointerFormat e) = ''eh_frame read error: reading unsupported pointer format: 0x'' @ hex02 e"
| "what TruncatedAsciiz = ''eh_frame read error: truncated data while reading asciiz string''"
| "what TruncatedInTruncateSlice = ''eh_frame read error: truncated data in TruncateSlice''"
| "what (OutOfBoundsAddress a lo hi) =
     ''out of bounds address 0x'' @ hex016 a @ '' vs (0x'' @ hex016 lo @ '', 0x'' @ hex016 hi @ '')''"
| "what CIECannotAdvance = ''CIE initial instruction cannot advance''"
| "what (BadHdrVersion v) = ''bad eh_frame_hdr version: '' @ show_nat (unat v)"
| "what NoBinarySearchTable = ''no binary search table for fdes''"
| "what (UnsupportedTableEncoding e) = ''unsupported table encoding: '' @ show_hex (unat e)"
| "what LongLengthInFDE = ''64-bit DWARF length in FDE is not supported''"
| "what EmptyFDE = ''empty FDE''"
| "what LongLengthInCIE = ''64-bit DWARF length in CIE is not supported''"
| "what (WrongCIEId i) = ''Wrong cie_id field: '' @ show_hex (unat i)"
| "what (UnsupportedCIEVersion v) = ''unsupported CIE version: '' @ show_nat (unat v)"
| "what ZeroCodeAlign = ''zero code alignment factor in CIE''"
| "what (AugWithoutZ c) = ''Aug string without leading 'z'. Got: '' @ [char_of (unat c)]"
| "what (UnknownAug c) =
     ''Unknown aug string character: '' @ [char_of (unat c)] @ '' (0x'' @ hex02 c @ '')''"
| "what SetLocBackward = ''set_loc backward move''"
| "what (UnknownOpcode oc) = ''unknown opcode: 0x'' @ show_hex (unat oc)"
| "what (TruncatedU32 w a) = ''truncated .eh_frame while reading '' @ w @ '' at 0x'' @ hex016 a"
| "what (LongLengthAt a) = ''64-bit DWARF length at 0x'' @ hex016 a @ '' is not supported''"
| "what (RecordOverrun a l) =
     ''record at 0x'' @ hex016 a @ '' claims length '' @ show_nat (unat l) @ '', overrunning the section''"
| "what RememberTooDeep = ''DW_CFA_remember_state nested deeper than 32 levels''"
| "what RestoreEmpty = ''DW_CFA_restore_state with nothing remembered''"
| "what (NoRows a) = ''FDE at 0x'' @ hex016 a @ '' produced no rows''"
| "what LSDAPastMapped = ''gcc_except_table: read past mapped data''"
| "what LSDAUlebOverflow = ''gcc_except_table: uleb128 overflow''"
| "what LSDATruncated = ''gcc_except_table: truncated data''"
| "what (LSDAUnsupportedEncoding e) = ''gcc_except_table: unsupported encoding 0x'' @ hex02 e"

subsection \<open>DWARF constants\<close>

definition DW_EH_PE_absptr :: u8 where "DW_EH_PE_absptr = 0x00"
definition DW_EH_PE_omitted :: u8 where "DW_EH_PE_omitted = 0xff"
definition DW_EH_PE_uleb128 :: u8 where "DW_EH_PE_uleb128 = 0x01"
definition DW_EH_PE_udata2 :: u8 where "DW_EH_PE_udata2 = 0x02"
definition DW_EH_PE_udata4 :: u8 where "DW_EH_PE_udata4 = 0x03"
definition DW_EH_PE_udata8 :: u8 where "DW_EH_PE_udata8 = 0x04"
definition DW_EH_PE_sdata4 :: u8 where "DW_EH_PE_sdata4 = 0x0B"
definition DW_EH_PE_sdata8 :: u8 where "DW_EH_PE_sdata8 = 0x0C"
definition DW_EH_PE_pcrel :: u8 where "DW_EH_PE_pcrel = 0x10"
definition DW_EH_PE_datarel :: u8 where "DW_EH_PE_datarel = 0x30"

definition DW_CFA_advance_loc :: u8 where "DW_CFA_advance_loc = 0x40"
definition DW_CFA_offset :: u8 where "DW_CFA_offset = 0x80"
definition DW_CFA_restore :: u8 where "DW_CFA_restore = 0xC0"
definition DW_CFA_nop :: u8 where "DW_CFA_nop = 0"
definition DW_CFA_set_loc :: u8 where "DW_CFA_set_loc = 0x01"
definition DW_CFA_advance_loc1 :: u8 where "DW_CFA_advance_loc1 = 0x02"
definition DW_CFA_advance_loc2 :: u8 where "DW_CFA_advance_loc2 = 0x03"
definition DW_CFA_advance_loc4 :: u8 where "DW_CFA_advance_loc4 = 0x04"
definition DW_CFA_offset_extended :: u8 where "DW_CFA_offset_extended = 0x05"
definition DW_CFA_restore_extended :: u8 where "DW_CFA_restore_extended = 0x06"
definition DW_CFA_undefined :: u8 where "DW_CFA_undefined = 0x07"
definition DW_CFA_same_value :: u8 where "DW_CFA_same_value = 0x08"
definition DW_CFA_register :: u8 where "DW_CFA_register = 0x09"
definition DW_CFA_remember_state :: u8 where "DW_CFA_remember_state = 0x0a"
definition DW_CFA_restore_state :: u8 where "DW_CFA_restore_state = 0x0b"
definition DW_CFA_def_cfa :: u8 where "DW_CFA_def_cfa = 0x0c"
definition DW_CFA_def_cfa_register :: u8 where "DW_CFA_def_cfa_register = 0x0d"
definition DW_CFA_def_cfa_offset :: u8 where "DW_CFA_def_cfa_offset = 0x0e"
definition DW_CFA_def_cfa_expression :: u8 where "DW_CFA_def_cfa_expression = 0x0f"
definition DW_CFA_expression :: u8 where "DW_CFA_expression = 0x10"
definition DW_CFA_offset_extended_sf :: u8 where "DW_CFA_offset_extended_sf = 0x11"
definition DW_CFA_def_cfa_sf :: u8 where "DW_CFA_def_cfa_sf = 0x12"
definition DW_CFA_def_cfa_offset_sf :: u8 where "DW_CFA_def_cfa_offset_sf = 0x13"
definition DW_CFA_val_offset :: u8 where "DW_CFA_val_offset = 0x14"
definition DW_CFA_val_offset_sf :: u8 where "DW_CFA_val_offset_sf = 0x15"
definition DW_CFA_val_expression :: u8 where "DW_CFA_val_expression = 0x16"
definition DW_CFA_AARCH64_negate_ra_state :: u8 where "DW_CFA_AARCH64_negate_ra_state = 0x2d"
definition DW_CFA_GNU_args_size :: u8 where "DW_CFA_GNU_args_size = 0x2e"

lemmas dwarf_consts =
  DW_EH_PE_absptr_def DW_EH_PE_omitted_def DW_EH_PE_uleb128_def DW_EH_PE_udata2_def
  DW_EH_PE_udata4_def DW_EH_PE_udata8_def DW_EH_PE_sdata4_def DW_EH_PE_sdata8_def
  DW_EH_PE_pcrel_def DW_EH_PE_datarel_def
  DW_CFA_advance_loc_def DW_CFA_offset_def DW_CFA_restore_def DW_CFA_nop_def DW_CFA_set_loc_def
  DW_CFA_advance_loc1_def DW_CFA_advance_loc2_def DW_CFA_advance_loc4_def
  DW_CFA_offset_extended_def DW_CFA_restore_extended_def DW_CFA_undefined_def
  DW_CFA_same_value_def DW_CFA_register_def DW_CFA_remember_state_def DW_CFA_restore_state_def
  DW_CFA_def_cfa_def DW_CFA_def_cfa_register_def DW_CFA_def_cfa_offset_def
  DW_CFA_def_cfa_expression_def DW_CFA_expression_def DW_CFA_offset_extended_sf_def
  DW_CFA_def_cfa_sf_def DW_CFA_def_cfa_offset_sf_def DW_CFA_val_offset_def
  DW_CFA_val_offset_sf_def DW_CFA_val_expression_def DW_CFA_AARCH64_negate_ra_state_def
  DW_CFA_GNU_args_size_def

subsection \<open>Slices and the primitive readers\<close>

type_synonym memory = "u64 \<Rightarrow> u8"

record byte_slice =
  sl_data :: u64
  sl_size :: nat

definition subspan :: "nat \<Rightarrow> byte_slice \<Rightarrow> byte_slice" where
  "subspan n sl = \<lparr>sl_data = sl_data sl + of_nat n, sl_size = sl_size sl - n\<rparr>"

lemma sl_size_subspan [simp]: "sl_size (subspan n sl) = sl_size sl - n"
  and sl_data_subspan [simp]: "sl_data (subspan n sl) = sl_data sl + of_nat n"
  by (simp_all add: subspan_def)

definition mem_bytes :: "memory \<Rightarrow> u64 \<Rightarrow> nat \<Rightarrow> u8 list" where
  "mem_bytes mem a n = map (\<lambda>i. mem (a + of_nat i)) [0..<n]"

lemma length_mem_bytes [simp]: "length (mem_bytes mem a n) = n"
  by (simp add: mem_bytes_def)

text \<open>\<open>memcpy\<close> of \<open>n\<close> bytes into a zeroed integer, little-endian.\<close>

fun le_nat :: "u8 list \<Rightarrow> nat" where
  "le_nat [] = 0"
| "le_nat (b # bs) = unat b + 256 * le_nat bs"

definition ReadObject :: "memory \<Rightarrow> nat \<Rightarrow> byte_slice \<Rightarrow> EHFrameError + nat \<times> byte_slice" where
  "ReadObject mem sz sl =
     (if sl_size sl < sz then Inl TruncatedData
      else Inr (le_nat (mem_bytes mem (sl_data sl) sz), subspan sz sl))"

definition ReadU8 :: "memory \<Rightarrow> byte_slice \<Rightarrow> EHFrameError + u8 \<times> byte_slice" where
  "ReadU8 mem sl = bindR (ReadObject mem 1 sl) (\<lambda>(x, sl'). Inr (of_nat x, sl'))"

definition ReadU32 :: "memory \<Rightarrow> byte_slice \<Rightarrow> EHFrameError + u32 \<times> byte_slice" where
  "ReadU32 mem sl = bindR (ReadObject mem 4 sl) (\<lambda>(x, sl'). Inr (of_nat x, sl'))"

definition ReadUptr :: "memory \<Rightarrow> byte_slice \<Rightarrow> EHFrameError + u64 \<times> byte_slice" where
  "ReadUptr mem sl = bindR (ReadObject mem 8 sl) (\<lambda>(x, sl'). Inr (of_nat x, sl'))"

definition ReadSubslice :: "nat \<Rightarrow> nat \<Rightarrow> u64 \<Rightarrow> byte_slice \<Rightarrow> EHFrameError + byte_slice \<times> byte_slice" where
  "ReadSubslice align sz n sl =
     (if unat (sl_data sl) mod align \<noteq> 0 then Inl (InsufficientAlignment align (sl_data sl))
      else if unat n * sz \<ge> 2 ^ 64 then Inl (SubsliceOverflow n sz)
      else if sl_size sl < unat n * sz then Inl TruncatedData
      else Inr (\<lparr>sl_data = sl_data sl, sl_size = unat n * sz\<rparr>, subspan (unat n * sz) sl))"

function ReadUleb128_loop :: "memory \<Rightarrow> u64 \<Rightarrow> nat \<Rightarrow> byte_slice \<Rightarrow> EHFrameError + u64 \<times> byte_slice" where
  "ReadUleb128_loop mem result shift sl =
     (if shift \<ge> 64 then Inl Uleb128Overflow
      else bindR (ReadU8 mem sl) (\<lambda>(byte, sl').
        if shift > 64 - 7 \<and> drop_bit (64 - shift) (byte AND 0x7f) \<noteq> 0 then Inl Uleb128Overflow
        else let result' = result OR push_bit shift (ucast (byte AND 0x7f)) in
          if byte AND 0x80 = 0 then Inr (result', sl')
          else ReadUleb128_loop mem result' (shift + 7) sl'))"
  by pat_completeness auto
termination
  by (relation "measure (\<lambda>(mem, result, shift, sl). 64 - shift)") auto

declare ReadUleb128_loop.simps [simp del]

definition ReadUleb128 :: "memory \<Rightarrow> byte_slice \<Rightarrow> EHFrameError + u64 \<times> byte_slice" where
  "ReadUleb128 mem sl = ReadUleb128_loop mem 0 0 sl"

definition sleb_overflow :: "nat \<Rightarrow> u8 \<Rightarrow> bool" where
  "sleb_overflow shift byte =
     (let payload = byte AND 0x7f;
          sign_bit = drop_bit (64 - shift - 1) payload AND 1;
          extra_bits = drop_bit (64 - shift) payload;
          expected_extra = (if sign_bit \<noteq> 0 then push_bit (7 - (64 - shift)) 1 - 1 else 0)
      in extra_bits \<noteq> expected_extra)"

function ReadSleb128_loop :: "memory \<Rightarrow> u64 \<Rightarrow> nat \<Rightarrow> byte_slice \<Rightarrow> EHFrameError + u64 \<times> byte_slice" where
  "ReadSleb128_loop mem result shift sl =
     (if shift \<ge> 64 then Inl Sleb128Overflow
      else bindR (ReadU8 mem sl) (\<lambda>(byte, sl').
        if shift > 64 - 7 \<and> sleb_overflow shift byte then Inl Sleb128Overflow
        else let result' = result OR push_bit shift (ucast (byte AND 0x7f)); shift' = shift + 7 in
          if byte AND 0x80 \<noteq> 0 then ReadSleb128_loop mem result' shift' sl'
          else if shift' < 64 \<and> byte AND 0x40 \<noteq> 0 then Inr (result' OR push_bit shift' (- 1), sl')
          else Inr (result', sl')))"
  by pat_completeness auto
termination
  by (relation "measure (\<lambda>(mem, result, shift, sl). 64 - shift)") auto

declare ReadSleb128_loop.simps [simp del]

definition ReadSleb128 :: "memory \<Rightarrow> byte_slice \<Rightarrow> EHFrameError + u64 \<times> byte_slice" where
  "ReadSleb128 mem sl = ReadSleb128_loop mem 0 0 sl"

definition ReadEncodedPtr :: "memory \<Rightarrow> u8 \<Rightarrow> byte_slice \<Rightarrow> EHFrameError + u64 \<times> byte_slice" where
  "ReadEncodedPtr mem encoding sl =
     (let lo = encoding AND 0x0f; hi = encoding AND 0xf0;
          pcrel_base = (if hi = DW_EH_PE_pcrel then sl_data sl else 0)
      in if hi \<noteq> DW_EH_PE_pcrel \<and> hi \<noteq> 0 then Inl (UnsupportedPointerFormat encoding)
         else if lo = DW_EH_PE_sdata4
           then bindR (ReadU32 mem sl) (\<lambda>(x, sl'). Inr (pcrel_base + scast x, sl'))
         else if lo = DW_EH_PE_udata4
           then bindR (ReadU32 mem sl) (\<lambda>(x, sl'). Inr (pcrel_base + ucast x, sl'))
         else if lo = DW_EH_PE_udata8 \<or> lo = DW_EH_PE_sdata8 \<or> lo = DW_EH_PE_absptr
           then bindR (ReadUptr mem sl) (\<lambda>(x, sl'). Inr (pcrel_base + x, sl'))
         else Inl (UnsupportedPointerFormat encoding))"

text \<open>\<open>ReadASCIIZ\<close> yields the characters before the terminator.\<close>

definition ReadASCIIZ :: "memory \<Rightarrow> nat \<Rightarrow> byte_slice \<Rightarrow> EHFrameError + u8 list \<times> byte_slice" where
  "ReadASCIIZ mem max_size sl =
     (let window = mem_bytes mem (sl_data sl) (min max_size (sl_size sl));
          str = takeWhile (\<lambda>b. b \<noteq> 0) window
      in if length str = length window then Inl TruncatedAsciiz
         else Inr (str, subspan (length str + 1) sl))"

definition TruncateSlice :: "nat \<Rightarrow> byte_slice \<Rightarrow> EHFrameError + byte_slice" where
  "TruncateSlice n sl =
     (if sl_size sl < n then Inl TruncatedInTruncateSlice else Inr (sl\<lparr>sl_size := n\<rparr>))"

definition MakeSlice :: "u64 \<Rightarrow> u64 \<Rightarrow> u64 \<Rightarrow> EHFrameError + byte_slice" where
  "MakeSlice lo hi start =
     (if \<not> (lo \<le> start \<and> start \<le> hi) then Inl (OutOfBoundsAddress start lo hi)
      else Inr \<lparr>sl_data = start, sl_size = unat (hi - start)\<rparr>)"

subsection \<open>The visitor and the decoder state\<close>

record 'v UnwindVisitor =
  vStartFDE :: "u64 \<Rightarrow> u64 \<Rightarrow> u64 \<Rightarrow> 'v \<Rightarrow> EHFrameError + bool \<times> 'v"
  vHandleAugS :: "'v \<Rightarrow> EHFrameError + bool \<times> 'v"
  vAfterCIE :: "'v \<Rightarrow> EHFrameError + bool \<times> 'v"
  vHandleLSDA :: "u64 \<Rightarrow> 'v \<Rightarrow> EHFrameError + bool \<times> 'v"
  vHandleSetLoc :: "u64 \<Rightarrow> 'v \<Rightarrow> EHFrameError + bool \<times> 'v"
  vHandleDefCFA :: "u64 \<Rightarrow> u64 \<Rightarrow> 'v \<Rightarrow> EHFrameError + bool \<times> 'v"
  vHandleDefCFAReg :: "u64 \<Rightarrow> 'v \<Rightarrow> EHFrameError + bool \<times> 'v"
  vHandleDefCFAOffset :: "u64 \<Rightarrow> 'v \<Rightarrow> EHFrameError + bool \<times> 'v"
  vHandleDefCFAExpression :: "byte_slice \<Rightarrow> 'v \<Rightarrow> EHFrameError + bool \<times> 'v"
  vHandleOffset :: "u64 \<Rightarrow> u64 \<Rightarrow> 'v \<Rightarrow> EHFrameError + bool \<times> 'v"
  vHandleRegister :: "u64 \<Rightarrow> u64 \<Rightarrow> 'v \<Rightarrow> EHFrameError + bool \<times> 'v"
  vHandleRestore :: "u64 \<Rightarrow> 'v \<Rightarrow> EHFrameError + bool \<times> 'v"
  vHandleSameValue :: "u64 \<Rightarrow> 'v \<Rightarrow> EHFrameError + bool \<times> 'v"
  vHandleUndefined :: "u64 \<Rightarrow> 'v \<Rightarrow> EHFrameError + bool \<times> 'v"
  vHandleValOffset :: "u64 \<Rightarrow> u64 \<Rightarrow> 'v \<Rightarrow> EHFrameError + bool \<times> 'v"
  vHandleExpression :: "u64 \<Rightarrow> byte_slice \<Rightarrow> 'v \<Rightarrow> EHFrameError + bool \<times> 'v"
  vHandleValExpression :: "u64 \<Rightarrow> byte_slice \<Rightarrow> 'v \<Rightarrow> EHFrameError + bool \<times> 'v"
  vHandleRememberState :: "'v \<Rightarrow> EHFrameError + bool \<times> 'v"
  vHandleRestoreState :: "'v \<Rightarrow> EHFrameError + bool \<times> 'v"

record EHReaderState =
  current_loc :: u64
  function_end :: u64
  code_align :: u64
  data_align :: u64  \<comment> \<open>intptr_t, two's complement\<close>
  fde_ptr_enc :: u8

record EHReaderInputs =
  lookup_pc :: u64
  eh_frame_hdr :: u64
  eh_frame_start :: u64
  eh_frame_end :: u64

definition DoSetLoc ::
  "'v UnwindVisitor \<Rightarrow> EHReaderState \<Rightarrow> u64 \<Rightarrow> bool \<Rightarrow> 'v \<Rightarrow> EHFrameError + bool \<times> EHReaderState \<times> 'v" where
  "DoSetLoc V st new_loc is_cie v =
     (if is_cie then Inl CIECannotAdvance
      else bindR (vHandleSetLoc V new_loc v) (\<lambda>(go, v'). Inr (go, st\<lparr>current_loc := new_loc\<rparr>, v')))"

subsection \<open>Running the call-frame instructions\<close>

type_synonym 'v op_result = "EHFrameError + bool \<times> EHReaderState \<times> 'v \<times> byte_slice"

definition visit :: "EHReaderState \<Rightarrow> byte_slice \<Rightarrow> EHFrameError + bool \<times> 'v \<Rightarrow> 'v op_result" where
  "visit st sl r = bindR r (\<lambda>(go, v). Inr (go, st, v, sl))"

definition set_loc :: "'v UnwindVisitor \<Rightarrow> bool \<Rightarrow> EHReaderState \<Rightarrow> 'v \<Rightarrow> u64 \<Rightarrow> byte_slice \<Rightarrow> 'v op_result" where
  "set_loc V is_cie st v new_loc sl =
     bindR (DoSetLoc V st new_loc is_cie v) (\<lambda>(go, st', v'). Inr (go, st', v', sl))"

text \<open>The three opcodes with an embedded operand.\<close>

definition op_primary ::
  "memory \<Rightarrow> 'v UnwindVisitor \<Rightarrow> bool \<Rightarrow> EHReaderState \<Rightarrow> 'v \<Rightarrow> u8 \<Rightarrow> byte_slice \<Rightarrow> 'v op_result" where
  "op_primary mem V is_cie st v opcode sl =
     (let operand = ucast (opcode AND 0x3f) :: u64 in
      if opcode AND 0xc0 = DW_CFA_advance_loc
        then set_loc V is_cie st v (current_loc st + operand * code_align st) sl
      else if opcode AND 0xc0 = DW_CFA_offset
        then bindR (ReadUleb128 mem sl) (\<lambda>(offset, sl).
               visit st sl (vHandleOffset V operand (offset * data_align st) v))
      else visit st sl (vHandleRestore V operand v))"

definition op_loc ::
  "memory \<Rightarrow> 'v UnwindVisitor \<Rightarrow> bool \<Rightarrow> EHReaderState \<Rightarrow> 'v \<Rightarrow> u8 \<Rightarrow> byte_slice \<Rightarrow> 'v op_result" where
  "op_loc mem V is_cie st v opcode sl =
     (if opcode = DW_CFA_set_loc
        then bindR (ReadEncodedPtr mem (fde_ptr_enc st) sl) (\<lambda>(new_loc, sl).
               if new_loc < current_loc st then Inl SetLocBackward
               else set_loc V is_cie st v new_loc sl)
      else bindR (ReadObject mem (if opcode = DW_CFA_advance_loc1 then 1
                                  else if opcode = DW_CFA_advance_loc2 then 2 else 4) sl) (\<lambda>(delta, sl).
             set_loc V is_cie st v (current_loc st + of_nat delta * code_align st) sl))"

definition op_offset ::
  "memory \<Rightarrow> 'v UnwindVisitor \<Rightarrow> EHReaderState \<Rightarrow> 'v \<Rightarrow> u8 \<Rightarrow> byte_slice \<Rightarrow> 'v op_result" where
  "op_offset mem V st v opcode sl =
     bindR (ReadUleb128 mem sl) (\<lambda>(reg, sl).
       if opcode = DW_CFA_offset_extended
         then bindR (ReadUleb128 mem sl) (\<lambda>(offset, sl).
                visit st sl (vHandleOffset V reg (offset * data_align st) v))
       else if opcode = DW_CFA_offset_extended_sf
         then bindR (ReadSleb128 mem sl) (\<lambda>(offset, sl).
                visit st sl (vHandleOffset V reg (offset * data_align st) v))
       else visit st sl (vHandleRestore V reg v))"

definition op_def_cfa ::
  "memory \<Rightarrow> 'v UnwindVisitor \<Rightarrow> EHReaderState \<Rightarrow> 'v \<Rightarrow> u8 \<Rightarrow> byte_slice \<Rightarrow> 'v op_result" where
  "op_def_cfa mem V st v opcode sl =
     (if opcode = DW_CFA_def_cfa
        then bindR (ReadUleb128 mem sl) (\<lambda>(reg, sl). bindR (ReadUleb128 mem sl) (\<lambda>(offset, sl).
               visit st sl (vHandleDefCFA V reg offset v)))
      else if opcode = DW_CFA_def_cfa_sf
        then bindR (ReadUleb128 mem sl) (\<lambda>(reg, sl). bindR (ReadSleb128 mem sl) (\<lambda>(offset, sl).
               visit st sl (vHandleDefCFA V reg (offset * data_align st) v)))
      else if opcode = DW_CFA_def_cfa_register
        then bindR (ReadUleb128 mem sl) (\<lambda>(reg, sl). visit st sl (vHandleDefCFAReg V reg v))
      else if opcode = DW_CFA_def_cfa_offset
        then bindR (ReadUleb128 mem sl) (\<lambda>(new_offset, sl).
               visit st sl (vHandleDefCFAOffset V new_offset v))
      else bindR (ReadSleb128 mem sl) (\<lambda>(o', sl).
             visit st sl (vHandleDefCFAOffset V (o' * data_align st) v)))"

definition op_expression ::
  "memory \<Rightarrow> 'v UnwindVisitor \<Rightarrow> EHReaderState \<Rightarrow> 'v \<Rightarrow> u8 \<Rightarrow> byte_slice \<Rightarrow> 'v op_result" where
  "op_expression mem V st v opcode sl =
     (if opcode = DW_CFA_def_cfa_expression
        then bindR (ReadUleb128 mem sl) (\<lambda>(len, sl). bindR (ReadSubslice 1 1 len sl) (\<lambda>(expr, sl).
               visit st sl (vHandleDefCFAExpression V expr v)))
      else bindR (ReadUleb128 mem sl) (\<lambda>(reg, sl).
             bindR (ReadUleb128 mem sl) (\<lambda>(len, sl). bindR (ReadSubslice 1 1 len sl) (\<lambda>(expr, sl).
               visit st sl (if opcode = DW_CFA_expression then vHandleExpression V reg expr v
                            else vHandleValExpression V reg expr v)))))"

definition op_register ::
  "memory \<Rightarrow> 'v UnwindVisitor \<Rightarrow> EHReaderState \<Rightarrow> 'v \<Rightarrow> u8 \<Rightarrow> byte_slice \<Rightarrow> 'v op_result" where
  "op_register mem V st v opcode sl =
     bindR (ReadUleb128 mem sl) (\<lambda>(reg, sl).
       if opcode = DW_CFA_undefined then visit st sl (vHandleUndefined V reg v)
       else if opcode = DW_CFA_same_value then visit st sl (vHandleSameValue V reg v)
       else if opcode = DW_CFA_register
         then bindR (ReadUleb128 mem sl) (\<lambda>(reg2, sl). visit st sl (vHandleRegister V reg reg2 v))
       else if opcode = DW_CFA_val_offset
         then bindR (ReadUleb128 mem sl) (\<lambda>(offset, sl).
                visit st sl (vHandleValOffset V reg (offset * data_align st) v))
       else bindR (ReadSleb128 mem sl) (\<lambda>(offset, sl).
              visit st sl (vHandleValOffset V reg (offset * data_align st) v)))"

text \<open>One iteration of the loop of \<open>RunInstructions\<close>, after the opcode byte was read.\<close>

definition RunOpcode ::
  "memory \<Rightarrow> 'v UnwindVisitor \<Rightarrow> bool \<Rightarrow> EHReaderState \<Rightarrow> 'v \<Rightarrow> u8 \<Rightarrow> byte_slice \<Rightarrow> 'v op_result" where
  "RunOpcode mem V is_cie st v opcode sl =
     (if opcode AND 0xc0 = DW_CFA_advance_loc \<or> opcode AND 0xc0 = DW_CFA_offset \<or> opcode AND 0xc0 = DW_CFA_restore
        then op_primary mem V is_cie st v opcode sl
      else if opcode = DW_CFA_nop then Inr (True, st, v, sl)
      else if opcode \<in> {DW_CFA_set_loc, DW_CFA_advance_loc1, DW_CFA_advance_loc2, DW_CFA_advance_loc4}
        then op_loc mem V is_cie st v opcode sl
      else if opcode \<in> {DW_CFA_offset_extended, DW_CFA_offset_extended_sf, DW_CFA_restore_extended}
        then op_offset mem V st v opcode sl
      else if opcode \<in> {DW_CFA_def_cfa, DW_CFA_def_cfa_sf, DW_CFA_def_cfa_register, DW_CFA_def_cfa_offset,
                        DW_CFA_def_cfa_offset_sf}
        then op_def_cfa mem V st v opcode sl
      else if opcode \<in> {DW_CFA_def_cfa_expression, DW_CFA_expression, DW_CFA_val_expression}
        then op_expression mem V st v opcode sl
      else if opcode \<in> {DW_CFA_undefined, DW_CFA_same_value, DW_CFA_register, DW_CFA_val_offset, DW_CFA_val_offset_sf}
        then op_register mem V st v opcode sl
      else if opcode = DW_CFA_remember_state then visit st sl (vHandleRememberState V v)
      else if opcode = DW_CFA_restore_state then visit st sl (vHandleRestoreState V v)
      else if opcode = DW_CFA_AARCH64_negate_ra_state then Inr (True, st, v, sl)
      else if opcode = DW_CFA_GNU_args_size
        then bindR (ReadUleb128 mem sl) (\<lambda>(_, sl). Inr (True, st, v, sl))
      else Inl (UnknownOpcode opcode))"

subsubsection \<open>Every reader consumes from the front of its slice\<close>

text \<open>\<open>suffix_of sl' sl\<close>: \<open>sl'\<close> is what is left of \<open>sl\<close> after some bytes were consumed.\<close>

definition suffix_of :: "byte_slice \<Rightarrow> byte_slice \<Rightarrow> bool" where
  "suffix_of sl' sl \<longleftrightarrow> (\<exists>n \<le> sl_size sl. sl' = subspan n sl)"

lemma suffix_of_refl [simp]: "suffix_of sl sl"
  by (auto simp: suffix_of_def subspan_def intro!: exI [of _ 0])

lemma suffix_of_subspan [intro]: "n \<le> sl_size sl \<Longrightarrow> suffix_of (subspan n sl) sl"
  by (auto simp: suffix_of_def)

lemma subspan_subspan: "subspan m (subspan n sl) = subspan (n + m) sl"
  by (simp add: subspan_def)

lemma suffix_of_trans [trans]: "suffix_of a b \<Longrightarrow> suffix_of b c \<Longrightarrow> suffix_of a c"
proof -
  assume "suffix_of a b" and "suffix_of b c"
  then obtain m n where "m \<le> sl_size b" "a = subspan m b" "n \<le> sl_size c" "b = subspan n c"
    by (auto simp: suffix_of_def)
  then have "a = subspan (n + m) c" and "n + m \<le> sl_size c"
    by (simp_all add: subspan_subspan)
  then show ?thesis by blast
qed

lemma suffix_of_size: "suffix_of sl' sl \<Longrightarrow> sl_size sl' \<le> sl_size sl"
  by (auto simp: suffix_of_def)

lemma ReadObject_suffix: "ReadObject mem sz sl = Inr (x, sl') \<Longrightarrow> suffix_of sl' sl"
  by (auto simp: ReadObject_def split: if_splits)

lemma ReadU8_suffix: "ReadU8 mem sl = Inr (x, sl') \<Longrightarrow> suffix_of sl' sl"
  and ReadU32_suffix: "ReadU32 mem sl = Inr (y, sl') \<Longrightarrow> suffix_of sl' sl"
  and ReadUptr_suffix: "ReadUptr mem sl = Inr (z, sl') \<Longrightarrow> suffix_of sl' sl"
  by (auto simp: ReadU8_def ReadU32_def ReadUptr_def bindR_eq_Inr dest: ReadObject_suffix)

lemma ReadU8_shrinks: "ReadU8 mem sl = Inr (x, sl') \<Longrightarrow> sl_size sl' < sl_size sl"
  by (auto simp: ReadU8_def ReadObject_def bindR_eq_Inr split: if_splits)

lemma ReadSubslice_suffix: "ReadSubslice al sz n sl = Inr (x, sl') \<Longrightarrow> suffix_of sl' sl"
  by (auto simp: ReadSubslice_def split: if_splits)

text \<open>What a successful iteration of each LEB128 loop did.\<close>

lemma ReadUleb128_loop_step:
  assumes "ReadUleb128_loop mem r k sl = Inr (x, sl')"
  obtains byte sl1 where "k < 64" "ReadU8 mem sl = Inr (byte, sl1)"
    "k > 57 \<Longrightarrow> drop_bit (64 - k) (byte AND 0x7f) = 0"
    "byte AND 0x80 = 0 \<Longrightarrow> x = r OR push_bit k (ucast (byte AND 0x7f)) \<and> sl' = sl1"
    "byte AND 0x80 \<noteq> 0 \<Longrightarrow>
       ReadUleb128_loop mem (r OR push_bit k (ucast (byte AND 0x7f))) (k + 7) sl1 = Inr (x, sl')"
  using assms by (subst (asm) ReadUleb128_loop.simps) (auto simp: bindR_eq_Inr Let_def split: if_splits)

lemma ReadSleb128_loop_step:
  assumes "ReadSleb128_loop mem r k sl = Inr (x, sl')"
  obtains byte sl1 where "k < 64" "ReadU8 mem sl = Inr (byte, sl1)"
    "k > 57 \<Longrightarrow> \<not> sleb_overflow k byte"
    "byte AND 0x80 = 0 \<Longrightarrow> sl' = sl1 \<and>
       x = (let r' = r OR push_bit k (ucast (byte AND 0x7f))
            in if k + 7 < 64 \<and> byte AND 0x40 \<noteq> 0 then r' OR push_bit (k + 7) (- 1) else r')"
    "byte AND 0x80 \<noteq> 0 \<Longrightarrow>
       ReadSleb128_loop mem (r OR push_bit k (ucast (byte AND 0x7f))) (k + 7) sl1 = Inr (x, sl')"
  using assms by (subst (asm) ReadSleb128_loop.simps) (auto simp: bindR_eq_Inr Let_def split: if_splits)

lemma ReadUleb128_loop_suffix: "ReadUleb128_loop mem r k sl = Inr (x, sl') \<Longrightarrow> suffix_of sl' sl"
proof (induction "64 - k" arbitrary: r k sl rule: less_induct)
  case less
  show ?case
    using less.prems
  proof (rule ReadUleb128_loop_step)
    fix byte sl1
    assume step: "k < 64" "ReadU8 mem sl = Inr (byte, sl1)"
      "byte AND 0x80 = 0 \<Longrightarrow> x = r OR push_bit k (ucast (byte AND 0x7f)) \<and> sl' = sl1"
      "byte AND 0x80 \<noteq> 0 \<Longrightarrow>
         ReadUleb128_loop mem (r OR push_bit k (ucast (byte AND 0x7f))) (k + 7) sl1 = Inr (x, sl')"
    have "suffix_of sl' sl1"
      using step less.hyps [of "k + 7"] by (cases "byte AND 0x80 = 0") auto
    with step(2) show ?thesis by (blast intro: suffix_of_trans ReadU8_suffix)
  qed
qed

lemma ReadSleb128_loop_suffix: "ReadSleb128_loop mem r k sl = Inr (x, sl') \<Longrightarrow> suffix_of sl' sl"
proof (induction "64 - k" arbitrary: r k sl rule: less_induct)
  case less
  show ?case
    using less.prems
  proof (rule ReadSleb128_loop_step)
    fix byte sl1
    assume step: "k < 64" "ReadU8 mem sl = Inr (byte, sl1)"
      "byte AND 0x80 = 0 \<Longrightarrow> sl' = sl1 \<and>
         x = (let r' = r OR push_bit k (ucast (byte AND 0x7f))
              in if k + 7 < 64 \<and> byte AND 0x40 \<noteq> 0 then r' OR push_bit (k + 7) (- 1) else r')"
      "byte AND 0x80 \<noteq> 0 \<Longrightarrow>
         ReadSleb128_loop mem (r OR push_bit k (ucast (byte AND 0x7f))) (k + 7) sl1 = Inr (x, sl')"
    have "suffix_of sl' sl1"
      using step less.hyps [of "k + 7"] by (cases "byte AND 0x80 = 0") auto
    with step(2) show ?thesis by (blast intro: suffix_of_trans ReadU8_suffix)
  qed
qed

lemma ReadUleb128_suffix: "ReadUleb128 mem sl = Inr (x, sl') \<Longrightarrow> suffix_of sl' sl"
  and ReadSleb128_suffix: "ReadSleb128 mem sl = Inr (y, sl') \<Longrightarrow> suffix_of sl' sl"
  by (simp_all add: ReadUleb128_def ReadSleb128_def ReadUleb128_loop_suffix ReadSleb128_loop_suffix)

lemma ReadEncodedPtr_suffix: "ReadEncodedPtr mem enc sl = Inr (x, sl') \<Longrightarrow> suffix_of sl' sl"
  by (auto simp: ReadEncodedPtr_def Let_def bindR_eq_Inr split: if_splits
      dest: ReadU32_suffix ReadUptr_suffix)

lemmas read_suffix =
  ReadObject_suffix ReadU8_suffix ReadU32_suffix ReadUptr_suffix ReadSubslice_suffix
  ReadUleb128_suffix ReadSleb128_suffix ReadEncodedPtr_suffix

lemma visit_eq_Inr: "visit st sl r = Inr (go, st', v', sl') \<longleftrightarrow> r = Inr (go, v') \<and> st' = st \<and> sl' = sl"
  by (auto simp: visit_def bindR_eq_Inr)

lemma set_loc_eq_Inr:
  "set_loc V c st v l sl = Inr (go, st', v', sl') \<longleftrightarrow>
     \<not> c \<and> vHandleSetLoc V l v = Inr (go, v') \<and> st' = st\<lparr>current_loc := l\<rparr> \<and> sl' = sl"
  by (auto simp: set_loc_def DoSetLoc_def bindR_eq_Inr)

lemmas op_eq_Inr = bindR_eq_Inr visit_eq_Inr set_loc_eq_Inr

lemma RunOpcode_suffix:
  assumes "RunOpcode mem V c st v oc sl = Inr (go, st', v', sl')"
  shows "suffix_of sl' sl"
proof -
  note defs = op_primary_def op_loc_def op_offset_def op_def_cfa_def op_expression_def op_register_def
  have "op_primary mem V c st v oc sl = Inr (go, st', v', sl') \<Longrightarrow> ?thesis"
    "op_loc mem V c st v oc sl = Inr (go, st', v', sl') \<Longrightarrow> ?thesis"
    "op_offset mem V st v oc sl = Inr (go, st', v', sl') \<Longrightarrow> ?thesis"
    "op_def_cfa mem V st v oc sl = Inr (go, st', v', sl') \<Longrightarrow> ?thesis"
    "op_expression mem V st v oc sl = Inr (go, st', v', sl') \<Longrightarrow> ?thesis"
    "op_register mem V st v oc sl = Inr (go, st', v', sl') \<Longrightarrow> ?thesis"
    unfolding defs by (auto simp: op_eq_Inr Let_def split: if_splits dest!: read_suffix intro: suffix_of_trans)
  with assms show ?thesis
    by (auto simp: RunOpcode_def op_eq_Inr split: if_splits dest!: read_suffix)
qed

function RunInstructions ::
  "memory \<Rightarrow> 'v UnwindVisitor \<Rightarrow> bool \<Rightarrow> EHReaderState \<Rightarrow> 'v \<Rightarrow> byte_slice \<Rightarrow> EHFrameError + bool \<times> EHReaderState \<times> 'v" where
  "RunInstructions mem V is_cie st v sl =
     (if sl_size sl = 0
        then if \<not> is_cie then DoSetLoc V st (function_end st) False v else Inr (True, st, v)
      else bindR (ReadU8 mem sl) (\<lambda>(opcode, sl1).
             bindR (RunOpcode mem V is_cie st v opcode sl1) (\<lambda>(go, st', v', sl2).
               if go then RunInstructions mem V is_cie st' v' sl2 else Inr (False, st', v'))))"
  by pat_completeness auto
termination
  by (relation "measure (\<lambda>(mem, V, c, st, v, sl). sl_size sl)")
     (auto dest!: ReadU8_shrinks RunOpcode_suffix suffix_of_size)

declare RunInstructions.simps [simp del]

subsection \<open>Parsing a CIE and an FDE\<close>

text \<open>The walk over the augmentation string: yields whether to go on, the FDE pointer
  encoding and the LSDA pointer encoding.\<close>

fun ParseAug ::
  "memory \<Rightarrow> 'v UnwindVisitor \<Rightarrow> u8 list \<Rightarrow> byte_slice \<Rightarrow> u8 \<Rightarrow> u8 \<Rightarrow> 'v \<Rightarrow> EHFrameError + bool \<times> u8 \<times> u8 \<times> 'v" where
  "ParseAug mem V [] aug_data enc lsda v = Inr (True, enc, lsda, v)"
| "ParseAug mem V (ch # aug_str) aug_data enc lsda v =
     (if ch = of_char CHR ''R''
        then bindR (ReadU8 mem aug_data) (\<lambda>(e, _). Inr (True, e, lsda, v))
      else if ch = of_char CHR ''L''
        then bindR (ReadU8 mem aug_data) (\<lambda>(e, aug_data). ParseAug mem V aug_str aug_data enc e v)
      else if ch = of_char CHR ''S''
        then bindR (vHandleAugS V v) (\<lambda>(go, v).
               if go then ParseAug mem V aug_str aug_data enc lsda v else Inr (False, enc, lsda, v))
      else if ch = of_char CHR ''B'' then ParseAug mem V aug_str aug_data enc lsda v
      else if ch = of_char CHR ''P''
        then bindR (ReadU8 mem aug_data) (\<lambda>(e, aug_data).
               bindR (ReadEncodedPtr mem (e AND 0x7f) aug_data) (\<lambda>(_, aug_data).
                 ParseAug mem V aug_str aug_data enc lsda v))
      else Inl (UnknownAug ch))"

record CIEInfo =
  cie_code_align :: u64
  cie_data_align :: u64
  cie_return_reg :: u64
  cie_fde_ptr_enc :: u8
  cie_lsda_ptr_enc :: u8
  cie_aug_z :: bool
  cie_insns :: byte_slice

definition ParseCIE ::
  "memory \<Rightarrow> 'v UnwindVisitor \<Rightarrow> byte_slice \<Rightarrow> 'v \<Rightarrow> EHFrameError + bool \<times> CIEInfo \<times> 'v" where
  "ParseCIE mem V cie_slice v =
     bindR (ReadU32 mem cie_slice) (\<lambda>(cie_len, sl).
     if cie_len = 0xffffffff then Inl LongLengthInCIE else
     bindR (TruncateSlice (unat cie_len) sl) (\<lambda>sl.
     bindR (ReadU32 mem sl) (\<lambda>(cie_id, sl).
     if cie_id \<noteq> 0 then Inl (WrongCIEId cie_id) else
     bindR (ReadU8 mem sl) (\<lambda>(version, sl).
     if version \<noteq> 1 then Inl (UnsupportedCIEVersion version) else
     bindR (ReadASCIIZ mem 16 sl) (\<lambda>(aug_str, sl).
     bindR (ReadUleb128 mem sl) (\<lambda>(ca, sl).
     bindR (ReadSleb128 mem sl) (\<lambda>(da, sl).
     if ca = 0 then Inl ZeroCodeAlign else
     bindR (ReadU8 mem sl) (\<lambda>(return_reg, sl).
     case aug_str of
       [] \<Rightarrow> Inr (True, \<lparr>cie_code_align = ca, cie_data_align = da, cie_return_reg = ucast return_reg,
                    cie_fde_ptr_enc = DW_EH_PE_absptr, cie_lsda_ptr_enc = DW_EH_PE_omitted,
                    cie_aug_z = False, cie_insns = sl\<rparr>, v)
     | z # aug_rest \<Rightarrow>
         if z \<noteq> of_char CHR ''z'' then Inl (AugWithoutZ z) else
         bindR (ReadUleb128 mem sl) (\<lambda>(aug_len, sl).
         bindR (ReadSubslice 1 1 aug_len sl) (\<lambda>(aug_data, sl).
         bindR (ParseAug mem V aug_rest aug_data DW_EH_PE_absptr DW_EH_PE_omitted v) (\<lambda>(go, enc, lsda, v).
         Inr (go, \<lparr>cie_code_align = ca, cie_data_align = da, cie_return_reg = ucast return_reg,
                   cie_fde_ptr_enc = enc, cie_lsda_ptr_enc = lsda, cie_aug_z = True, cie_insns = sl\<rparr>, v))))
     ))))))))"

text \<open>
  \<open>ParseFDE\<close> after the CIE: the covered range, the look-up test, the CIE's initial
  instructions, the FDE's augmentation data and its instructions. A visitor that asks to
  stop ends the decoding with the visitor state reached.
\<close>

definition ParseFDEBody ::
  "memory \<Rightarrow> 'v UnwindVisitor \<Rightarrow> EHReaderInputs \<Rightarrow> bool \<Rightarrow> CIEInfo \<Rightarrow> byte_slice \<Rightarrow> 'v \<Rightarrow> EHFrameError + 'v" where
  "ParseFDEBody mem V inp match_all cie fde_slice v =
     bindR (ReadEncodedPtr mem (cie_fde_ptr_enc cie) fde_slice) (\<lambda>(pc_start, fs).
     bindR (ReadEncodedPtr mem (cie_fde_ptr_enc cie AND 0x0f) fs) (\<lambda>(pc_range, fs).
     if \<not> match_all \<and> \<not> (pc_start \<le> lookup_pc inp \<and> lookup_pc inp < pc_start + pc_range) then Inr v
     else let st = \<lparr>current_loc = pc_start, function_end = pc_start + pc_range,
                    code_align = cie_code_align cie, data_align = cie_data_align cie,
                    fde_ptr_enc = cie_fde_ptr_enc cie\<rparr>
     in bindR (vStartFDE V (cie_return_reg cie) pc_start (pc_start + pc_range) v) (\<lambda>(go, v).
     if \<not> go then Inr v
     else bindR (RunInstructions mem V True st v (cie_insns cie)) (\<lambda>(go, st, v).
     if \<not> go then Inr v
     else bindR (if cie_aug_z cie
                 then bindR (ReadUleb128 mem fs) (\<lambda>(aug_len, fs).
                      bindR (ReadSubslice 1 1 aug_len fs) (\<lambda>(fde_aug_data, fs).
                      if cie_lsda_ptr_enc cie \<noteq> DW_EH_PE_omitted
                      then bindR (ReadEncodedPtr mem (cie_lsda_ptr_enc cie) fde_aug_data) (\<lambda>(lsda_ptr, _).
                           bindR (vHandleLSDA V lsda_ptr v) (\<lambda>(go, v). Inr (go, fs, v)))
                      else Inr (True, fs, v)))
                 else Inr (True, fs, v)) (\<lambda>(go, fs, v).
     if \<not> go then Inr v
     else bindR (vAfterCIE V v) (\<lambda>(go, v).
     if \<not> go then Inr v
     else bindR (RunInstructions mem V False st v fs) (\<lambda>(_, _, v). Inr v)))))))"

definition ParseFDE ::
  "memory \<Rightarrow> 'v UnwindVisitor \<Rightarrow> EHReaderInputs \<Rightarrow> bool \<Rightarrow> u64 \<Rightarrow> 'v \<Rightarrow> EHFrameError + 'v" where
  "ParseFDE mem V inp match_all raw_fde_ptr v =
     bindR (MakeSlice (eh_frame_start inp) (eh_frame_end inp) raw_fde_ptr) (\<lambda>fs.
     bindR (ReadU32 mem fs) (\<lambda>(len, fs).
     if len = 0xffffffff then Inl LongLengthInFDE else
     if len = 0 then Inl EmptyFDE else
     bindR (TruncateSlice (unat len) fs) (\<lambda>fs.
     bindR (ReadU32 mem fs) (\<lambda>(cie_offset, fs).
     bindR (MakeSlice (eh_frame_start inp) (eh_frame_end inp) (sl_data fs - 4 - ucast cie_offset)) (\<lambda>cie_slice.
     bindR (ParseCIE mem V cie_slice v) (\<lambda>(go, cie, v).
     if \<not> go then Inr v else ParseFDEBody mem V inp match_all cie fs v))))))"

definition DecodeFDEAt :: "memory \<Rightarrow> 'v UnwindVisitor \<Rightarrow> EHReaderInputs \<Rightarrow> u64 \<Rightarrow> 'v \<Rightarrow> EHFrameError + 'v" where
  "DecodeFDEAt mem V inp fde_addr v = ParseFDE mem V inp True fde_addr v"

subsection \<open>Looking an FDE up in the binary search table\<close>

text \<open>\<open>entries[mid]\<close> is a pair of signed 32-bit offsets from the header address.\<close>

definition entry_start_ip :: "memory \<Rightarrow> byte_slice \<Rightarrow> nat \<Rightarrow> u64" where
  "entry_start_ip mem entries i =
     scast (of_nat (le_nat (mem_bytes mem (sl_data entries + of_nat (8 * i)) 4)) :: u32)"

definition entry_fde_ptr :: "memory \<Rightarrow> byte_slice \<Rightarrow> nat \<Rightarrow> u64" where
  "entry_fde_ptr mem entries i =
     scast (of_nat (le_nat (mem_bytes mem (sl_data entries + of_nat (8 * i) + 4) 4)) :: u32)"

function FindFDE_search :: "(nat \<Rightarrow> u64) \<Rightarrow> u64 \<Rightarrow> nat \<Rightarrow> nat \<Rightarrow> nat" where
  "FindFDE_search start_pc pc low high =
     (if low < high
      then let mid = (low + high) div 2 in
        if pc < start_pc mid then FindFDE_search start_pc pc low mid
        else FindFDE_search start_pc pc (mid + 1) high
      else low)"
  by pat_completeness auto
termination
  by (relation "measure (\<lambda>(s, pc, low, high). high - low)") auto

declare FindFDE_search.simps [simp del]

definition FindFDE :: "memory \<Rightarrow> EHReaderInputs \<Rightarrow> EHFrameError + u64" where
  "FindFDE mem inp =
     bindR (MakeSlice (eh_frame_start inp) (eh_frame_end inp) (eh_frame_hdr inp)) (\<lambda>sl.
     bindR (ReadSubslice 1 4 1 sl) (\<lambda>(hdr, sl).
     let version = mem (sl_data hdr); eh_frame_ptr_enc = mem (sl_data hdr + 1);
         fde_count_enc = mem (sl_data hdr + 2); table_enc = mem (sl_data hdr + 3)
     in if version \<noteq> 1 then Inl (BadHdrVersion version) else
     bindR (ReadEncodedPtr mem eh_frame_ptr_enc sl) (\<lambda>(_, sl).
     bindR (ReadEncodedPtr mem fde_count_enc sl) (\<lambda>(fde_count, sl).
     if fde_count = 0 \<or> table_enc = DW_EH_PE_omitted then Inl NoBinarySearchTable else
     if table_enc \<noteq> DW_EH_PE_datarel OR DW_EH_PE_sdata4 then Inl (UnsupportedTableEncoding table_enc) else
     bindR (ReadSubslice 4 8 fde_count sl) (\<lambda>(entries, sl).
     let low = FindFDE_search (\<lambda>i. eh_frame_hdr inp + entry_start_ip mem entries i) (lookup_pc inp) 0 (unat fde_count)
     in if low > 0 then Inr (eh_frame_hdr inp + entry_fde_ptr mem entries (low - 1)) else Inr 0)))))"

definition FindAndDecode :: "memory \<Rightarrow> 'v UnwindVisitor \<Rightarrow> EHReaderInputs \<Rightarrow> 'v \<Rightarrow> EHFrameError + 'v" where
  "FindAndDecode mem V inp v =
     bindR (FindFDE mem inp) (\<lambda>fde. if fde = 0 then Inr v else ParseFDE mem V inp False fde v)"

subsection \<open>Enumerating the FDEs of a section\<close>

definition ReadU32At :: "memory \<Rightarrow> u64 \<Rightarrow> u64 \<Rightarrow> string \<Rightarrow> EHFrameError + u32" where
  "ReadU32At mem addr end_addr w =
     (if addr + 4 > end_addr \<or> addr + 4 < addr then Inl (TruncatedU32 w addr)
      else Inr (of_nat (le_nat (mem_bytes mem addr 4))))"

text \<open>
  The call-back of \<open>EnumerateFDEs\<close> runs for every FDE seen before an error is thrown, so
  the model returns the addresses reported together with the error that ended the walk.
\<close>

function EnumerateFDEs_loop :: "memory \<Rightarrow> u64 \<Rightarrow> u64 \<Rightarrow> u64 list \<times> EHFrameError option" where
  "EnumerateFDEs_loop mem eh_end pos =
     (if \<not> pos + 8 \<le> eh_end then ([], None)
      else case ReadU32At mem pos eh_end ''record length'' of
        Inl e \<Rightarrow> ([], Some e)
      | Inr len \<Rightarrow>
          if len = 0 then ([], None)
          else if len = 0xffffffff then ([], Some (LongLengthAt pos))
          else let payload = pos + 4; next = payload + ucast len in
            if next \<le> pos \<or> next > eh_end then ([], Some (RecordOverrun pos len))
            else case ReadU32At mem payload eh_end ''CIE id'' of
              Inl e \<Rightarrow> ([], Some e)
            | Inr cie_id \<Rightarrow>
                (let (rest, err) = EnumerateFDEs_loop mem eh_end next
                 in (if cie_id \<noteq> 0 then pos # rest else rest, err)))"
  by pat_completeness auto
termination
  by (relation "measure (\<lambda>(mem, e, pos). unat e - unat pos)")
     (auto simp: not_le word_less_nat_alt word_le_nat_alt)

declare EnumerateFDEs_loop.simps [simp del]

definition EnumerateFDEs :: "memory \<Rightarrow> u64 \<Rightarrow> u64 \<Rightarrow> u64 list \<times> EHFrameError option" where
  "EnumerateFDEs mem eh_start eh_end = EnumerateFDEs_loop mem eh_end eh_start"

end
