(* ===== verification/Cfi_Table.thy ===== *)
theory Cfi_Table
  imports Eh_Frame_Reader
begin

text \<open>
  \<^verbatim>\<open>cfi-table.h\<close> and \<^verbatim>\<open>cfi-table.cc\<close>: the declared unwind rules, the row table of one
  FDE, its look-up by address, and the visitor that builds it (\<open>TableBuilder\<close>). The
  vectors \<open>stack_\<close> and \<open>rows\<close> are lists; the stack is kept with its back at the head.
\<close>

subsection \<open>Registers\<close>

definition kNumGPRs :: nat where "kNumGPRs = 16"
definition kDWARFRip :: nat where "kDWARFRip = 16"
definition kNumDWARFRegs :: nat where "kNumDWARFRegs = 17"
definition kDWARFRbx :: nat where "kDWARFRbx = 3"
definition kDWARFRbp :: nat where "kDWARFRbp = 6"
definition kDWARFRsp :: nat where "kDWARFRsp = 7"

lemmas reg_consts [simp] =
  kNumGPRs_def kDWARFRip_def kNumDWARFRegs_def kDWARFRbx_def kDWARFRbp_def kDWARFRsp_def

definition kRegNames :: "string list" where
  "kRegNames = [''rax'', ''rdx'', ''rcx'', ''rbx'', ''rsi'', ''rdi'', ''rbp'', ''rsp'', ''r8'',
     ''r9'', ''r10'', ''r11'', ''r12'', ''r13'', ''r14'', ''r15'', ''ra'']"

definition DWARFRegName :: "int \<Rightarrow> string" where
  "DWARFRegName reg =
     (if reg < 0 \<or> reg \<ge> int kNumDWARFRegs then ''r{'' @ fmt_d reg @ ''}'' else kRegNames ! nat reg)"

subsection \<open>Rules, rows and tables\<close>

datatype CFAKind = CFAUndefined | CFARegOffset | CFAExpression

record CFARule =
  cfa_kind :: CFAKind
  cfa_reg :: nat
  cfa_offset :: int64

definition CFARule0 :: CFARule where
  "CFARule0 = \<lparr>cfa_kind = CFAUndefined, cfa_reg = 0, cfa_offset = 0\<rparr>"

definition RegOffset :: "nat \<Rightarrow> int64 \<Rightarrow> CFARule" where
  "RegOffset r off = \<lparr>cfa_kind = CFARegOffset, cfa_reg = r, cfa_offset = off\<rparr>"

definition CFARule_str :: "CFARule \<Rightarrow> string" where
  "CFARule_str rule = (case cfa_kind rule of
       CFAUndefined \<Rightarrow> ''<no CFA rule>''
     | CFARegOffset \<Rightarrow> DWARFRegName (int (cfa_reg rule)) @ fmt_plus_d (to_int32 (cfa_offset rule))
     | CFAExpression \<Rightarrow> ''<DWARF expression>'')"

datatype RegRuleKind =
    RUnset | RUndefined | RSameValue | RAtCFAOffset | RValOffset | RInRegister | RExpression | RValExpression

record RegRule =
  rule_kind :: RegRuleKind
  rule_reg :: nat
  rule_offset :: int64

definition RegRule0 :: RegRule where
  "RegRule0 = \<lparr>rule_kind = RUnset, rule_reg = 0, rule_offset = 0\<rparr>"

definition RegRule_str :: "RegRule \<Rightarrow> string" where
  "RegRule_str rule = (case rule_kind rule of
       RUnset \<Rightarrow> ''<no rule>''
     | RUndefined \<Rightarrow> ''undefined''
     | RSameValue \<Rightarrow> ''same_value''
     | RAtCFAOffset \<Rightarrow> ''[CFA'' @ fmt_plus_d (to_int32 (rule_offset rule)) @ '']''
     | RValOffset \<Rightarrow> ''CFA'' @ fmt_plus_d (to_int32 (rule_offset rule))
     | RInRegister \<Rightarrow> ''in '' @ DWARFRegName (int (rule_reg rule))
     | RExpression \<Rightarrow> ''<DWARF expression>''
     | RValExpression \<Rightarrow> ''<DWARF val expression>'')"

record CFIRow =
  pc_start :: u64
  row_cfa :: CFARule
  row_regs :: "RegRule list"  \<comment> \<open>an array of \<open>kNumDWARFRegs\<close>\<close>

definition CFIRow_str :: "CFIRow \<Rightarrow> string" where
  "CFIRow_str row = ''cfa='' @ CFARule_str (row_cfa row) @
     concat (map (\<lambda>r. if rule_kind (row_regs row ! r) = RUnset then []
                      else '' '' @ DWARFRegName (int r) @ ''='' @ RegRule_str (row_regs row ! r))
                 [0..<kNumDWARFRegs])"

definition IsCanonicalEntry :: "CFIRow \<Rightarrow> bool" where
  "IsCanonicalEntry row \<longleftrightarrow>
     cfa_kind (row_cfa row) = CFARegOffset \<and> cfa_reg (row_cfa row) = kDWARFRsp \<and> cfa_offset (row_cfa row) = 8 \<and>
     rule_kind (row_regs row ! kDWARFRip) = RAtCFAOffset \<and> rule_offset (row_regs row ! kDWARFRip) = - 8"

record CFI =
  fde_addr :: u64
  pc_begin :: u64
  pc_end :: u64
  return_reg :: int
  signal_frame :: bool
  lsda_addr :: u64
  has_exotic_regs :: bool
  rows :: "CFIRow list"

definition RowAt :: "CFI \<Rightarrow> u64 \<Rightarrow> CFIRow option" where
  "RowAt cfi pc =
     (if pc < pc_begin cfi \<or> pc \<ge> pc_end cfi \<or> rows cfi = [] then None
      else last_le pc_start pc (rows cfi))"

subsection \<open>The table builder\<close>

record TableBuilder =
  result :: CFI
  bias :: u64
  row_pc :: u64
  cur_cfa :: CFARule
  cur_regs :: "RegRule list"
  cie_regs :: "RegRule list"
  stack :: "(CFARule \<times> RegRule list) list"

definition TableBuilder0 :: "u64 \<Rightarrow> u64 \<Rightarrow> TableBuilder" where
  "TableBuilder0 fde_vaddr b =
     \<lparr>result = \<lparr>fde_addr = fde_vaddr, pc_begin = 0, pc_end = 0, return_reg = int kDWARFRip,
                signal_frame = False, lsda_addr = 0, has_exotic_regs = False, rows = []\<rparr>,
      bias = b, row_pc = 0, cur_cfa = CFARule0,
      cur_regs = replicate kNumDWARFRegs RegRule0, cie_regs = replicate kNumDWARFRegs RegRule0, stack = []\<rparr>"

text \<open>\<open>static_cast<uint8_t>\<close> of a register number.\<close>

definition to_u8 :: "u64 \<Rightarrow> nat" where
  "to_u8 w = unat w mod 256"

definition SetRule :: "u64 \<Rightarrow> RegRule \<Rightarrow> TableBuilder \<Rightarrow> EHFrameError + bool \<times> TableBuilder" where
  "SetRule reg rule b =
     (if unat reg \<ge> kNumDWARFRegs then Inr (True, b\<lparr>result := (result b)\<lparr>has_exotic_regs := True\<rparr>\<rparr>)
      else Inr (True, b\<lparr>cur_regs := (cur_regs b)[unat reg := rule]\<rparr>))"

definition StartFDE :: "u64 \<Rightarrow> u64 \<Rightarrow> u64 \<Rightarrow> TableBuilder \<Rightarrow> EHFrameError + bool \<times> TableBuilder" where
  "StartFDE ret_reg start stop b =
     Inr (True, b\<lparr>result := (result b)\<lparr>return_reg := to_int32 (uint ret_reg), pc_begin := start - bias b, pc_end := stop - bias b\<rparr>,
                  row_pc := start - bias b\<rparr>)"

definition HandleAugS :: "TableBuilder \<Rightarrow> EHFrameError + bool \<times> TableBuilder" where
  "HandleAugS b = Inr (True, b\<lparr>result := (result b)\<lparr>signal_frame := True\<rparr>\<rparr>)"

definition HandleLSDA :: "u64 \<Rightarrow> TableBuilder \<Rightarrow> EHFrameError + bool \<times> TableBuilder" where
  "HandleLSDA lsda_ptr b =
     Inr (True, if lsda_ptr \<noteq> 0 then b\<lparr>result := (result b)\<lparr>lsda_addr := lsda_ptr - bias b\<rparr>\<rparr> else b)"

definition AfterCIE :: "TableBuilder \<Rightarrow> EHFrameError + bool \<times> TableBuilder" where
  "AfterCIE b = Inr (True, b\<lparr>cie_regs := cur_regs b\<rparr>)"

definition HandleSetLoc :: "u64 \<Rightarrow> TableBuilder \<Rightarrow> EHFrameError + bool \<times> TableBuilder" where
  "HandleSetLoc new_pc b =
     (let pc = new_pc - bias b;
          b' = (if pc > row_pc b
                then b\<lparr>result := (result b)\<lparr>rows := rows (result b) @
                         [\<lparr>pc_start = row_pc b, row_cfa = cur_cfa b, row_regs = cur_regs b\<rparr>]\<rparr>\<rparr>
                else b)
      in Inr (True, b'\<lparr>row_pc := pc\<rparr>))"

definition HandleDefCFA :: "u64 \<Rightarrow> u64 \<Rightarrow> TableBuilder \<Rightarrow> EHFrameError + bool \<times> TableBuilder" where
  "HandleDefCFA reg offset b =
     Inr (True, b\<lparr>cur_cfa := \<lparr>cfa_kind = CFARegOffset, cfa_reg = to_u8 reg, cfa_offset = sint offset\<rparr>\<rparr>)"

definition HandleDefCFAReg :: "u64 \<Rightarrow> TableBuilder \<Rightarrow> EHFrameError + bool \<times> TableBuilder" where
  "HandleDefCFAReg reg b = Inr (True, b\<lparr>cur_cfa := (cur_cfa b)\<lparr>cfa_kind := CFARegOffset, cfa_reg := to_u8 reg\<rparr>\<rparr>)"

definition HandleDefCFAOffset :: "u64 \<Rightarrow> TableBuilder \<Rightarrow> EHFrameError + bool \<times> TableBuilder" where
  "HandleDefCFAOffset offset b =
     Inr (True, b\<lparr>cur_cfa := (cur_cfa b)\<lparr>cfa_kind := CFARegOffset, cfa_offset := sint offset\<rparr>\<rparr>)"

definition HandleDefCFAExpression :: "byte_slice \<Rightarrow> TableBuilder \<Rightarrow> EHFrameError + bool \<times> TableBuilder" where
  "HandleDefCFAExpression expr b =
     Inr (True, b\<lparr>cur_cfa := \<lparr>cfa_kind = CFAExpression, cfa_reg = 0, cfa_offset = 0\<rparr>\<rparr>)"

definition HandleOffset :: "u64 \<Rightarrow> u64 \<Rightarrow> TableBuilder \<Rightarrow> EHFrameError + bool \<times> TableBuilder" where
  "HandleOffset reg new_offset = SetRule reg \<lparr>rule_kind = RAtCFAOffset, rule_reg = 0, rule_offset = sint new_offset\<rparr>"

definition HandleRegister :: "u64 \<Rightarrow> u64 \<Rightarrow> TableBuilder \<Rightarrow> EHFrameError + bool \<times> TableBuilder" where
  "HandleRegister reg stored_in_reg =
     SetRule reg \<lparr>rule_kind = RInRegister, rule_reg = to_u8 stored_in_reg, rule_offset = 0\<rparr>"

definition HandleRestore :: "u64 \<Rightarrow> TableBuilder \<Rightarrow> EHFrameError + bool \<times> TableBuilder" where
  "HandleRestore reg b =
     (if unat reg \<ge> kNumDWARFRegs then Inr (True, b\<lparr>result := (result b)\<lparr>has_exotic_regs := True\<rparr>\<rparr>)
      else Inr (True, b\<lparr>cur_regs := (cur_regs b)[unat reg := cie_regs b ! unat reg]\<rparr>))"

definition HandleSameValue :: "u64 \<Rightarrow> TableBuilder \<Rightarrow> EHFrameError + bool \<times> TableBuilder" where
  "HandleSameValue reg = SetRule reg \<lparr>rule_kind = RSameValue, rule_reg = 0, rule_offset = 0\<rparr>"

definition HandleUndefined :: "u64 \<Rightarrow> TableBuilder \<Rightarrow> EHFrameError + bool \<times> TableBuilder" where
  "HandleUndefined reg = SetRule reg \<lparr>rule_kind = RUndefined, rule_reg = 0, rule_offset = 0\<rparr>"

definition HandleValOffset :: "u64 \<Rightarrow> u64 \<Rightarrow> TableBuilder \<Rightarrow> EHFrameError + bool \<times> TableBuilder" where
  "HandleValOffset reg offset = SetRule reg \<lparr>rule_kind = RValOffset, rule_reg = 0, rule_offset = sint offset\<rparr>"

definition HandleExpression :: "u64 \<Rightarrow> byte_slice \<Rightarrow> TableBuilder \<Rightarrow> EHFrameError + bool \<times> TableBuilder" where
  "HandleExpression reg expr = SetRule reg \<lparr>rule_kind = RExpression, rule_reg = 0, rule_offset = 0\<rparr>"

definition HandleValExpression :: "u64 \<Rightarrow> byte_slice \<Rightarrow> TableBuilder \<Rightarrow> EHFrameError + bool \<times> TableBuilder" where
  "HandleValExpression reg expr = SetRule reg \<lparr>rule_kind = RValExpression, rule_reg = 0, rule_offset = 0\<rparr>"

definition HandleRememberState :: "TableBuilder \<Rightarrow> EHFrameError + bool \<times> TableBuilder" where
  "HandleRememberState b =
     (if length (stack b) \<ge> 32 then Inl RememberTooDeep
      else Inr (True, b\<lparr>stack := (cur_cfa b, cur_regs b) # stack b\<rparr>))"

definition HandleRestoreState :: "TableBuilder \<Rightarrow> EHFrameError + bool \<times> TableBuilder" where
  "HandleRestoreState b = (case stack b of
       [] \<Rightarrow> Inl RestoreEmpty
     | (cfa, regs) # rest \<Rightarrow> Inr (True, b\<lparr>cur_cfa := cfa, cur_regs := regs, stack := rest\<rparr>))"

definition table_builder :: "TableBuilder UnwindVisitor" where
  "table_builder = \<lparr>
     vStartFDE = StartFDE, vHandleAugS = HandleAugS, vAfterCIE = AfterCIE, vHandleLSDA = HandleLSDA,
     vHandleSetLoc = HandleSetLoc, vHandleDefCFA = HandleDefCFA, vHandleDefCFAReg = HandleDefCFAReg,
     vHandleDefCFAOffset = HandleDefCFAOffset, vHandleDefCFAExpression = HandleDefCFAExpression,
     vHandleOffset = HandleOffset, vHandleRegister = HandleRegister, vHandleRestore = HandleRestore,
     vHandleSameValue = HandleSameValue, vHandleUndefined = HandleUndefined, vHandleValOffset = HandleValOffset,
     vHandleExpression = HandleExpression, vHandleValExpression = HandleValExpression,
     vHandleRememberState = HandleRememberState, vHandleRestoreState = HandleRestoreState\<rparr>"

definition ReadFDE :: "memory \<Rightarrow> u64 \<Rightarrow> u64 \<Rightarrow> u64 \<Rightarrow> u64 \<Rightarrow> EHFrameError + CFI" where
  "ReadFDE mem fde_vaddr eh_start eh_end b =
     (let inp = \<lparr>lookup_pc = 0, eh_frame_hdr = 0, eh_frame_start = eh_start + b, eh_frame_end = eh_end + b\<rparr>
      in bindR (DecodeFDEAt mem table_builder inp (fde_vaddr + b) (TableBuilder0 fde_vaddr b)) (\<lambda>builder.
           if rows (result builder) = [] \<and> pc_end (result builder) > pc_begin (result builder)
           then Inl (NoRows fde_vaddr) else Inr (result builder)))"

end
