(* ===== verification/Abs_State.thy ===== *)
theory Abs_State
  imports Cfi_Table
begin

text \<open>
  \<^verbatim>\<open>abs-state.h\<close> and \<^verbatim>\<open>abs-state.cc\<close>: the two lattices of the analysis (\<open>AbsVal\<close> for what
  a CFI row can be checked against, \<open>TableVal\<close> for switch-table resolution), the abstract
  state of one program point, the register and slot writes, and \<open>Join\<close>.

  \<open>AbsVal\<close> is the tagged struct of the source as a datatype: its static constructors are the
  only places that build one, so the unused fields are always zero and the defaulted
  \<open>operator==\<close> is equality of the datatype. The same holds of the identity half of
  \<open>TableVal\<close>; its two bounds are fields of a record. C arrays are lists of that length.
\<close>

subsection \<open>The bound lattice\<close>

definition kBoundTop :: u64 where
  "kBoundTop = NOT 0"

definition WidthBound :: "nat \<Rightarrow> u64" where
  "WidthBound bits = (if bits \<ge> 64 then kBoundTop else push_bit bits 1 - 1)"

subsection \<open>The CFI lattice\<close>

datatype AbsVal = Top | Bottom | CFARel int64 | OrigReg nat | Other

definition is_top :: "AbsVal \<Rightarrow> bool" where "is_top v \<longleftrightarrow> v = Top"
definition is_bottom :: "AbsVal \<Rightarrow> bool" where "is_bottom v \<longleftrightarrow> v = Bottom"
definition is_unknown :: "AbsVal \<Rightarrow> bool" where "is_unknown v \<longleftrightarrow> v = Top \<or> v = Bottom"
definition is_cfarel :: "AbsVal \<Rightarrow> bool" where
  "is_cfarel v \<longleftrightarrow> (case v of CFARel _ \<Rightarrow> True | _ \<Rightarrow> False)"
definition IsCFARel :: "AbsVal \<Rightarrow> int64 \<Rightarrow> bool" where "IsCFARel v d \<longleftrightarrow> v = CFARel d"
definition IsOrigReg :: "AbsVal \<Rightarrow> nat \<Rightarrow> bool" where "IsOrigReg v r \<longleftrightarrow> v = OrigReg r"

text \<open>The field \<open>delta\<close>, zero unless the value is CFA-relative.\<close>

definition delta :: "AbsVal \<Rightarrow> int64" where
  "delta v = (case v of CFARel d \<Rightarrow> d | _ \<Rightarrow> 0)"

definition AbsVal_str :: "AbsVal \<Rightarrow> string" where
  "AbsVal_str v = (case v of
       Top \<Rightarrow> ''unknown''
     | Bottom \<Rightarrow> ''conflict''
     | CFARel d \<Rightarrow> ''CFA'' @ fmt_plus_d d
     | OrigReg r \<Rightarrow> ''entry '' @ DWARFRegName (int r)
     | Other \<Rightarrow> ''an unrelated value'')"

subsection \<open>The table lattice\<close>

datatype TableIdent = TNone | TConflict | TConst u64 | TTableEntry u64 nat u64 | TJumpTarget u64 nat

record TableVal =
  ident :: TableIdent
  value_bound :: u64
  table_bound :: u64

definition TV_None :: TableVal where
  "TV_None = \<lparr>ident = TNone, value_bound = kBoundTop, table_bound = kBoundTop\<rparr>"

definition TV_Conflict :: TableVal where
  "TV_Conflict = \<lparr>ident = TConflict, value_bound = kBoundTop, table_bound = kBoundTop\<rparr>"

definition TV_Const :: "u64 \<Rightarrow> TableVal" where
  "TV_Const a = \<lparr>ident = TConst a, value_bound = kBoundTop, table_bound = kBoundTop\<rparr>"

definition TV_TableEntry :: "u64 \<Rightarrow> nat \<Rightarrow> u64 \<Rightarrow> u64 \<Rightarrow> TableVal" where
  "TV_TableEntry table_addr index_reg base_const index_bound =
     \<lparr>ident = TTableEntry table_addr index_reg base_const, value_bound = kBoundTop, table_bound = index_bound\<rparr>"

definition TV_JumpTarget :: "u64 \<Rightarrow> nat \<Rightarrow> u64 \<Rightarrow> TableVal" where
  "TV_JumpTarget table_addr index_reg index_bound =
     \<lparr>ident = TJumpTarget table_addr index_reg, value_bound = kBoundTop, table_bound = index_bound\<rparr>"

definition HasTableBound :: "TableVal \<Rightarrow> bool" where
  "HasTableBound t \<longleftrightarrow> table_bound t \<noteq> kBoundTop"

definition TV_ApplyGuardBound :: "u64 \<Rightarrow> TableVal \<Rightarrow> TableVal" where
  "TV_ApplyGuardBound b t = t\<lparr>value_bound := min (value_bound t) b, table_bound := min (table_bound t) b\<rparr>"

definition ClearBounds :: "TableVal \<Rightarrow> TableVal" where
  "ClearBounds t = t\<lparr>value_bound := kBoundTop, table_bound := kBoundTop\<rparr>"

definition SameIdentity :: "TableVal \<Rightarrow> TableVal \<Rightarrow> bool" where
  "SameIdentity a b \<longleftrightarrow> ident a = ident b"

subsection \<open>The abstract state\<close>

record FlagsGuard =
  fg_reg :: nat
  width_bits :: nat
  imm :: u64
  proven_bound :: u64

definition proven :: "FlagsGuard \<Rightarrow> bool" where
  "proven g \<longleftrightarrow> proven_bound g \<noteq> kBoundTop"

record AbsState =
  gpr :: "AbsVal list"
  slots :: "(int64 \<times> AbsVal) list"
  tbl :: "TableVal list"
  last_cmp :: "FlagsGuard option"

definition AbsState0 :: AbsState where
  "AbsState0 = \<lparr>gpr = replicate kNumGPRs Top, slots = [], tbl = replicate kNumGPRs TV_None, last_cmp = None\<rparr>"

definition reg :: "AbsState \<Rightarrow> int \<Rightarrow> AbsVal" where
  "reg s r = (if r < 0 \<or> r \<ge> int kNumGPRs then Bottom else gpr s ! nat r)"

definition table :: "AbsState \<Rightarrow> int \<Rightarrow> TableVal" where
  "table s r = (if r < 0 \<or> r \<ge> int kNumGPRs then TV_None else tbl s ! nat r)"

definition ApplyGuardBound :: "int \<Rightarrow> u64 \<Rightarrow> AbsState \<Rightarrow> AbsState" where
  "ApplyGuardBound r b s =
     (if r \<ge> 0 \<and> r < int kNumGPRs then s\<lparr>tbl := (tbl s)[nat r := TV_ApplyGuardBound b (tbl s ! nat r)]\<rparr> else s)"

definition ApplyValueBound :: "int \<Rightarrow> u64 \<Rightarrow> AbsState \<Rightarrow> AbsState" where
  "ApplyValueBound r b s =
     (if r \<ge> 0 \<and> r < int kNumGPRs
      then s\<lparr>tbl := (tbl s)[nat r := (tbl s ! nat r)\<lparr>value_bound := min (value_bound (tbl s ! nat r)) b\<rparr>]\<rparr> else s)"

definition Slot :: "AbsState \<Rightarrow> int64 \<Rightarrow> AbsVal" where
  "Slot s offset = (case map_of (slots s) offset of None \<Rightarrow> Top | Some v \<Rightarrow> v)"

definition SetSlot :: "int64 \<Rightarrow> AbsVal \<Rightarrow> AbsState \<Rightarrow> AbsState" where
  "SetSlot offset v s =
     (if is_top v then s\<lparr>slots := omap_erase offset (slots s)\<rparr>
      else s\<lparr>slots := omap_put offset v (slots s)\<rparr>)"

definition DropSlotsBelow :: "int64 \<Rightarrow> AbsState \<Rightarrow> AbsState" where
  "DropSlotsBelow rsp_delta s = s\<lparr>slots := omap_erase_below rsp_delta (slots s)\<rparr>"

definition kRedZoneBytes :: int64 where
  "kRedZoneBytes = 128"

definition DropDeadSlots :: "int64 \<Rightarrow> AbsState \<Rightarrow> AbsState" where
  "DropDeadSlots rsp_delta s = DropSlotsBelow (wrap64 (rsp_delta - kRedZoneBytes)) s"

definition InvalidateLastCmpFor :: "nat \<Rightarrow> AbsState \<Rightarrow> AbsState" where
  "InvalidateLastCmpFor r s =
     (case last_cmp s of Some g \<Rightarrow> if fg_reg g = r then s\<lparr>last_cmp := None\<rparr> else s | None \<Rightarrow> s)"

definition SetReg :: "nat \<Rightarrow> AbsVal \<Rightarrow> TableVal \<Rightarrow> AbsState \<Rightarrow> AbsState" where
  "SetReg r v t s =
     (let s1 = InvalidateLastCmpFor r (s\<lparr>gpr := (gpr s)[r := v], tbl := (tbl s)[r := t]\<rparr>)
      in if r = kDWARFRsp then (case v of CFARel d \<Rightarrow> DropDeadSlots d s1 | _ \<Rightarrow> s1) else s1)"

definition SetReg1 :: "nat \<Rightarrow> AbsVal \<Rightarrow> AbsState \<Rightarrow> AbsState" where
  "SetReg1 r v s = SetReg r v TV_None s"

definition SetTableReg :: "nat \<Rightarrow> TableVal \<Rightarrow> AbsState \<Rightarrow> AbsState" where
  "SetTableReg r t s = SetReg r Other t s"

definition CopyReg :: "nat \<Rightarrow> nat \<Rightarrow> AbsState \<Rightarrow> AbsState" where
  "CopyReg dst src s = SetReg dst (gpr s ! src) (tbl s ! src) s"

definition ClobberReg :: "nat \<Rightarrow> AbsState \<Rightarrow> AbsState" where
  "ClobberReg r s = SetReg r Top TV_None s"

subsection \<open>Seeding\<close>

definition Entry :: AbsState where
  "Entry = AbsState0\<lparr>gpr := (map OrigReg [0..<kNumGPRs])[kDWARFRsp := CFARel (- 8)],
                     slots := [(- 8, OrigReg kDWARFRip)]\<rparr>"

definition SeedReg :: "CFIRow \<Rightarrow> bool \<Rightarrow> nat \<Rightarrow> AbsState \<Rightarrow> AbsState" where
  "SeedReg row at_function_entry r s =
     (let rule = row_regs row ! r in case rule_kind rule of
        RUnset \<Rightarrow> if \<not> at_function_entry \<and> r < kNumGPRs then s\<lparr>gpr := (gpr s)[r := Top]\<rparr> else s
      | RSameValue \<Rightarrow> s
      | RAtCFAOffset \<Rightarrow> s\<lparr>slots := omap_put (rule_offset rule) (OrigReg r) (slots s)\<rparr>
      | RInRegister \<Rightarrow> if rule_reg rule < kNumGPRs then s\<lparr>gpr := (gpr s)[rule_reg rule := OrigReg r]\<rparr> else s
      | RValOffset \<Rightarrow> if r < kNumGPRs then s\<lparr>gpr := (gpr s)[r := CFARel (rule_offset rule)]\<rparr> else s
      | _ \<Rightarrow> if r < kNumGPRs then s\<lparr>gpr := (gpr s)[r := Top]\<rparr> else s)"

definition SeedFromRow :: "CFIRow \<Rightarrow> bool \<Rightarrow> AbsState" where
  "SeedFromRow row at_function_entry =
     (let s0 = AbsState0\<lparr>gpr := map OrigReg [0..<kNumGPRs]\<rparr>;
          s1 = fold (SeedReg row at_function_entry) [0..<kNumDWARFRegs] s0;
          s2 = s1\<lparr>gpr := (gpr s1)[kDWARFRsp := Top]\<rparr>
      in if cfa_kind (row_cfa row) = CFARegOffset \<and> cfa_reg (row_cfa row) < kNumGPRs
         then s2\<lparr>gpr := (gpr s2)[cfa_reg (row_cfa row) := CFARel (wrap64 (- cfa_offset (row_cfa row)))]\<rparr>
         else s2)"

subsection \<open>Join\<close>

record JoinConflict =
  jc_reg :: int
  jc_offset :: int64
  lhs :: AbsVal
  rhs :: AbsVal

definition kSlotConflict :: int where "kSlotConflict = - 1"

definition Describe :: "JoinConflict \<Rightarrow> string" where
  "Describe c =
     (if jc_reg c = kSlotConflict
      then ''stack slot CFA'' @ fmt_plus_d (to_int32 (jc_offset c)) @ '' is '' @ AbsVal_str (lhs c) @
           '' on one path and '' @ AbsVal_str (rhs c) @ '' on another''
      else DWARFRegName (jc_reg c) @ '' is '' @ AbsVal_str (lhs c) @ '' on one path and '' @
           AbsVal_str (rhs c) @ '' on another'')"

record JoinValueResult =
  jv_value :: AbsVal
  jv_changed :: bool
  jv_conflict :: bool

definition JoinValue :: "AbsVal \<Rightarrow> AbsVal \<Rightarrow> JoinValueResult" where
  "JoinValue current incoming =
     (if current = incoming then \<lparr>jv_value = current, jv_changed = False, jv_conflict = False\<rparr>
      else if is_bottom current then \<lparr>jv_value = current, jv_changed = False, jv_conflict = False\<rparr>
      else if is_bottom incoming then \<lparr>jv_value = Bottom, jv_changed = True, jv_conflict = False\<rparr>
      else if is_top current then \<lparr>jv_value = incoming, jv_changed = True, jv_conflict = False\<rparr>
      else if is_top incoming then \<lparr>jv_value = current, jv_changed = False, jv_conflict = False\<rparr>
      else \<lparr>jv_value = Bottom, jv_changed = True, jv_conflict = True\<rparr>)"

definition JoinTableValue :: "TableVal \<Rightarrow> TableVal \<Rightarrow> TableVal" where
  "JoinTableValue current incoming =
     (let merged =
        (if ident current = TConflict \<or> ident incoming = TConflict then TV_Conflict
         else if SameIdentity current incoming then current
         else if ident current = TNone then incoming
         else if ident incoming = TNone then current
         else TV_Conflict)
      in merged\<lparr>value_bound := max (value_bound current) (value_bound incoming),
                table_bound := max (table_bound current) (table_bound incoming)\<rparr>)"

text \<open>
  \<open>Join(incoming, state, conflicts)\<close> returns whether \<open>*state\<close> changed, the new \<open>*state\<close>
  and the conflicts appended, in the order the loops visit them: registers first, then the
  slots of \<open>*state\<close> in key order.
\<close>

definition join_slot :: "AbsState \<Rightarrow> int64 \<times> AbsVal \<Rightarrow> JoinValueResult" where
  "join_slot incoming kv = (case kv of (k, cur) \<Rightarrow>
     if is_bottom cur then \<lparr>jv_value = cur, jv_changed = False, jv_conflict = False\<rparr>
     else case map_of (slots incoming) k of
            None \<Rightarrow> \<lparr>jv_value = cur, jv_changed = False, jv_conflict = False\<rparr>
          | Some other \<Rightarrow> JoinValue cur other)"

definition Join :: "AbsState \<Rightarrow> AbsState \<Rightarrow> bool \<times> AbsState \<times> JoinConflict list" where
  "Join incoming state =
     (let jr = (\<lambda>r. JoinValue (gpr state ! r) (gpr incoming ! r));
          jt = (\<lambda>r. JoinTableValue (tbl state ! r) (tbl incoming ! r));
          rs = [0..<kNumGPRs];
          reg_conflicts = map (\<lambda>r. \<lparr>jc_reg = int r, jc_offset = 0, lhs = gpr state ! r, rhs = gpr incoming ! r\<rparr>)
                              (filter (\<lambda>r. jv_conflict (jr r)) rs);
          reg_changed = (\<exists>r \<in> set rs. jv_changed (jr r) \<or> jt r \<noteq> tbl state ! r);
          new_gpr = map (\<lambda>r. if jv_changed (jr r) then jv_value (jr r) else gpr state ! r) rs;
          new_tbl = map jt rs;
          slot_conflicts = map (\<lambda>(k, cur). \<lparr>jc_reg = kSlotConflict, jc_offset = k, lhs = cur,
                                  rhs = the (map_of (slots incoming) k)\<rparr>)
                               (filter (\<lambda>kv. jv_conflict (join_slot incoming kv)) (slots state));
          slot_changed = (\<exists>kv \<in> set (slots state). jv_changed (join_slot incoming kv));
          slots1 = map (\<lambda>kv. if jv_changed (join_slot incoming kv) then (fst kv, jv_value (join_slot incoming kv)) else kv)
                       (slots state);
          fresh = filter (\<lambda>(k, _). map_of (slots state) k = None) (slots incoming);
          slots2 = fold (\<lambda>(k, v). omap_put k v) fresh slots1;
          cmp_changed = (last_cmp state \<noteq> None \<and> last_cmp state \<noteq> last_cmp incoming);
          new_cmp = (if cmp_changed then None else last_cmp state)
      in (reg_changed \<or> slot_changed \<or> fresh \<noteq> [] \<or> cmp_changed,
          \<lparr>gpr = new_gpr, slots = slots2, tbl = new_tbl, last_cmp = new_cmp\<rparr>,
          reg_conflicts @ slot_conflicts))"

end
