(* ===== verification/Abs_Join.thy ===== *)
theory Abs_Join
  imports Abs_State
begin

text \<open>
  The order behind \<open>Join\<close>. \<open>AbsVal\<close> and the identity half of \<open>TableVal\<close> are flat
  lattices (\<open>Top\<close>/\<open>TNone\<close> least, \<open>Bottom\<close>/\<open>TConflict\<close> greatest), the two bounds are
  ordered as numbers, slots pointwise through \<open>Slot\<close>, and the recorded comparison can only
  be dropped. The locale \<open>join_semilattice\<close> is the contract the worklist of
  \<^verbatim>\<open>fde-checker.cc\<close> relies on; it is interpreted on \<open>Join\<close> at the end.
\<close>

subsection \<open>The value lattices\<close>

instantiation AbsVal :: semilattice_sup
begin

definition less_eq_AbsVal :: "AbsVal \<Rightarrow> AbsVal \<Rightarrow> bool" where
  "less_eq_AbsVal x y \<longleftrightarrow> x = y \<or> x = Top \<or> y = Bottom"

definition less_AbsVal :: "AbsVal \<Rightarrow> AbsVal \<Rightarrow> bool" where
  "less_AbsVal x y \<longleftrightarrow> x \<noteq> y \<and> (x = Top \<or> y = Bottom)"

definition sup_AbsVal :: "AbsVal \<Rightarrow> AbsVal \<Rightarrow> AbsVal" where
  "sup_AbsVal x y = jv_value (JoinValue x y)"

lemmas AbsVal_lattice_defs = less_eq_AbsVal_def less_AbsVal_def sup_AbsVal_def JoinValue_def is_top_def is_bottom_def

instance
  by standard (auto simp: AbsVal_lattice_defs)

end

instantiation TableIdent :: order
begin

definition less_eq_TableIdent :: "TableIdent \<Rightarrow> TableIdent \<Rightarrow> bool" where
  "less_eq_TableIdent x y \<longleftrightarrow> x = y \<or> x = TNone \<or> y = TConflict"

definition less_TableIdent :: "TableIdent \<Rightarrow> TableIdent \<Rightarrow> bool" where
  "less_TableIdent x y \<longleftrightarrow> x \<noteq> y \<and> (x = TNone \<or> y = TConflict)"

instance
  by standard (auto simp: less_eq_TableIdent_def less_TableIdent_def)

end

lemma AbsVal_bounds [simp]: "Top \<le> (v :: AbsVal)" "(v :: AbsVal) \<le> Bottom"
  by (simp_all add: less_eq_AbsVal_def)

lemma JoinValue_value [simp]: "jv_value (JoinValue a b) = sup a b"
  by (simp add: sup_AbsVal_def)

lemma JoinValue_changed: "jv_changed (JoinValue a b) \<longleftrightarrow> sup a b \<noteq> a"
  by (auto simp: AbsVal_lattice_defs)

lemma JoinValue_conflict:
  "jv_conflict (JoinValue a b) \<longleftrightarrow> a \<noteq> b \<and> \<not> is_unknown a \<and> \<not> is_unknown b"
  by (auto simp: JoinValue_def is_unknown_def is_top_def is_bottom_def)

lemma sup_Top [simp]: "sup Top v = (v :: AbsVal)" "sup v Top = (v :: AbsVal)"
  by (simp_all add: sup_absorb1 sup_absorb2)

lemma sup_Bottom [simp]: "sup Bottom v = Bottom" "sup v Bottom = Bottom"
  by (simp_all add: sup_absorb1 sup_absorb2)

definition tv_le :: "TableVal \<Rightarrow> TableVal \<Rightarrow> bool" where
  "tv_le x y \<longleftrightarrow> ident x \<le> ident y \<and> value_bound x \<le> value_bound y \<and> table_bound x \<le> table_bound y"

lemma tv_le_refl [simp]: "tv_le x x"
  by (simp add: tv_le_def)

lemma tv_le_trans: "tv_le x y \<Longrightarrow> tv_le y z \<Longrightarrow> tv_le x z"
  unfolding tv_le_def by (meson order_trans)

lemma tv_le_antisym: "tv_le x y \<Longrightarrow> tv_le y x \<Longrightarrow> x = (y :: TableVal)"
  unfolding tv_le_def by (auto intro!: TableVal.equality antisym)

lemmas TV_defs = TV_None_def TV_Conflict_def TV_Const_def TV_TableEntry_def TV_JumpTarget_def

lemma JoinTableValue_sel [simp]:
  "value_bound (JoinTableValue a b) = max (value_bound a) (value_bound b)"
  "table_bound (JoinTableValue a b) = max (table_bound a) (table_bound b)"
  by (simp_all add: JoinTableValue_def Let_def)

lemma ident_JoinTableValue:
  "ident (JoinTableValue a b) =
     (if ident a = ident b \<or> ident b = TNone then ident a else if ident a = TNone then ident b else TConflict)"
  by (auto simp: JoinTableValue_def Let_def SameIdentity_def TV_defs)

lemma JoinTableValue_ub1: "tv_le a (JoinTableValue a b)"
  and JoinTableValue_ub2: "tv_le b (JoinTableValue a b)"
  by (auto simp: tv_le_def ident_JoinTableValue less_eq_TableIdent_def)

lemma JoinTableValue_least: "tv_le a c \<Longrightarrow> tv_le b c \<Longrightarrow> tv_le (JoinTableValue a b) c"
  by (auto simp: tv_le_def ident_JoinTableValue less_eq_TableIdent_def)

subsection \<open>The state order\<close>

definition wf_state :: "AbsState \<Rightarrow> bool" where
  "wf_state s \<longleftrightarrow> length (gpr s) = kNumGPRs \<and> length (tbl s) = kNumGPRs \<and> omap_ok (slots s) \<and>
                 Top \<notin> snd ` set (slots s)"

definition state_le :: "AbsState \<Rightarrow> AbsState \<Rightarrow> bool" where
  "state_le s t \<longleftrightarrow>
     (\<forall>r < kNumGPRs. gpr s ! r \<le> gpr t ! r) \<and> (\<forall>r < kNumGPRs. tv_le (tbl s ! r) (tbl t ! r)) \<and>
     (\<forall>k. Slot s k \<le> Slot t k) \<and> (last_cmp t = None \<or> last_cmp s = last_cmp t)"

lemma state_leI [intro?]:
  assumes "\<And>r. r < kNumGPRs \<Longrightarrow> gpr s ! r \<le> gpr t ! r"
    and "\<And>r. r < kNumGPRs \<Longrightarrow> tv_le (tbl s ! r) (tbl t ! r)"
    and "\<And>k. Slot s k \<le> Slot t k" and "last_cmp t = None \<or> last_cmp s = last_cmp t"
  shows "state_le s t"
  using assms by (simp add: state_le_def)

lemma state_le_refl [simp]: "state_le s s"
  by (simp add: state_le_def)

lemma state_le_trans: "state_le s t \<Longrightarrow> state_le t u \<Longrightarrow> state_le s u"
  unfolding state_le_def by (metis order_trans tv_le_trans)

lemma map_of_Slot: "wf_state s \<Longrightarrow> map_of (slots s) k = (if Slot s k = Top then None else Some (Slot s k))"
  unfolding wf_state_def Slot_def by (auto split: option.splits dest!: map_of_SomeD) force

lemma slots_mem_iff: "wf_state s \<Longrightarrow> (k, v) \<in> set (slots s) \<longleftrightarrow> v \<noteq> Top \<and> Slot s k = v"
  by (metis map_of_Slot map_of_eq_Some_iff omap_ok_distinct option.distinct(1) option.inject wf_state_def)

lemma state_le_antisym:
  assumes "wf_state s" "wf_state t" "state_le s t" "state_le t s"
  shows "s = t"
proof (rule AbsState.equality)
  show "gpr s = gpr t"
    using assms by (intro nth_equalityI) (auto simp: wf_state_def state_le_def intro: antisym)
  show "tbl s = tbl t"
    using assms by (intro nth_equalityI) (auto simp: wf_state_def state_le_def intro: tv_le_antisym)
  have "\<And>k. Slot s k = Slot t k"
    using assms(3,4) by (auto simp: state_le_def intro: antisym)
  then show "slots s = slots t"
    using assms(1,2) by (intro omap_eqI) (auto simp: map_of_Slot fun_eq_iff, auto simp: wf_state_def)
  show "last_cmp s = last_cmp t"
    using assms(3,4) by (auto simp: state_le_def)
qed simp

subsection \<open>Join, component by component\<close>

abbreviation join_state :: "AbsState \<Rightarrow> AbsState \<Rightarrow> AbsState" where
  "join_state incoming state \<equiv> fst (snd (Join incoming state))"

lemma gpr_Join:
  "length (gpr s) = kNumGPRs \<Longrightarrow> r < kNumGPRs \<Longrightarrow> gpr (join_state i s) ! r = sup (gpr s ! r) (gpr i ! r)"
  by (auto simp: Join_def Let_def JoinValue_changed)

lemma tbl_Join: "r < kNumGPRs \<Longrightarrow> tbl (join_state i s) ! r = JoinTableValue (tbl s ! r) (tbl i ! r)"
  by (simp add: Join_def Let_def)

lemma last_cmp_Join: "last_cmp (join_state i s) = (if last_cmp s = last_cmp i then last_cmp s else None)"
  by (auto simp: Join_def Let_def)

lemma join_slot_value:
  assumes "wf_state i"
  shows "(if jv_changed (join_slot i (k, v)) then (k, jv_value (join_slot i (k, v))) else (k, v)) = (k, sup v (Slot i k))"
  using assms by (auto simp: join_slot_def is_bottom_def map_of_Slot JoinValue_changed)

lemma slots1_eq:
  assumes "wf_state i"
  shows "map (\<lambda>kv. if jv_changed (join_slot i kv) then (fst kv, jv_value (join_slot i kv)) else kv) m
         = map (\<lambda>(k, v). (k, sup v (Slot i k))) m"
  by (intro map_cong refl) (metis (no_types, lifting) join_slot_value [OF assms] prod.collapse split_def)

lemma Join_slots:
  assumes "wf_state i" "wf_state s"
  shows "omap_ok (slots (join_state i s))" and "Slot (join_state i s) k = sup (Slot s k) (Slot i k)"
    and "Top \<notin> snd ` set (slots (join_state i s))"
proof -
  define m where "m = map (\<lambda>(k, v). (k, sup v (Slot i k))) (slots s)"
  define fresh where "fresh = filter (\<lambda>(k, _). map_of (slots s) k = None) (slots i)"
  have sl: "slots (join_state i s) = fold (\<lambda>(k, v). omap_put k v) fresh m"
    unfolding Join_def Let_def m_def fresh_def slots1_eq [OF assms(1)] by simp
  have "map fst m = map fst (slots s)" by (auto simp: m_def)
  then have m: "omap_ok m" using assms(2) by (simp add: wf_state_def)
  have "omap_ok fresh" using assms(1) by (simp add: fresh_def wf_state_def omap_ok_filter)
  note f = omap.fold_put [OF m omap_ok_distinct [OF this]]
  then show ok: "omap_ok (slots (join_state i s))" by (simp add: sl)
  have mo: "map_of (slots (join_state i s)) j =
      (case map_of fresh j of Some v \<Rightarrow> Some v | None \<Rightarrow> map_of m j)" for j
    using f by (simp add: sl map_add_def)
  have mj: "map_of m j = (case map_of (slots s) j of None \<Rightarrow> None | Some v \<Rightarrow> Some (sup v (Slot i j)))" for j
    by (simp add: m_def map_of_map_key [of "\<lambda>k v. sup v (Slot i k)"] map_option_case)
  have fj: "map_of fresh j = (if Slot s j = Top \<and> Slot i j \<noteq> Top then Some (Slot i j) else None)" for j
    using map_of_filter_key [of "\<lambda>k. map_of (slots s) k = None" "slots i" j] assms
    by (auto simp: fresh_def map_of_Slot)
  have key: "map_of (slots (join_state i s)) j =
      (if sup (Slot s j) (Slot i j) = Top then None else Some (sup (Slot s j) (Slot i j)))" for j
    using assms by (auto simp: mo mj fj map_of_Slot AbsVal_lattice_defs)
  show "Slot (join_state i s) k = sup (Slot s k) (Slot i k)"
    by (simp add: Slot_def [of "join_state i s"] key)
  show "Top \<notin> snd ` set (slots (join_state i s))"
    using key omap_ok_distinct [OF ok] by (auto dest!: map_of_is_SomeI split: if_splits)
qed

lemma wf_state_Join [wf_intros]: "wf_state i \<Longrightarrow> wf_state s \<Longrightarrow> wf_state (join_state i s)"
  using Join_slots [of i s] by (simp add: wf_state_def [of "join_state i s"]) (simp add: Join_def Let_def)


lemma Join_ub_state: "wf_state i \<Longrightarrow> wf_state s \<Longrightarrow> state_le s (join_state i s)"
  by (rule state_leI) (auto simp: gpr_Join tbl_Join last_cmp_Join Join_slots wf_state_def [of s] JoinTableValue_ub1)

lemma Join_ub_incoming: "wf_state i \<Longrightarrow> wf_state s \<Longrightarrow> state_le i (join_state i s)"
  by (rule state_leI) (auto simp: gpr_Join tbl_Join last_cmp_Join Join_slots wf_state_def [of s] JoinTableValue_ub2)

lemma Join_least:
  "wf_state i \<Longrightarrow> wf_state s \<Longrightarrow> state_le i u \<Longrightarrow> state_le s u \<Longrightarrow> state_le (join_state i s) u"
  by (rule state_leI)
    (auto simp: gpr_Join tbl_Join last_cmp_Join Join_slots wf_state_def [of s] state_le_def JoinTableValue_least)

lemma Join_changed_slots:
  assumes "wf_state i" "wf_state s"
  shows "(\<exists>kv \<in> set (slots s). jv_changed (join_slot i kv)) \<or>
         filter (\<lambda>(k, _). map_of (slots s) k = None) (slots i) \<noteq> [] \<longleftrightarrow> (\<exists>k. sup (Slot s k) (Slot i k) \<noteq> Slot s k)"
    (is "?A \<or> ?B \<longleftrightarrow> ?C")
proof -
  note mem = slots_mem_iff
  have "jv_changed (join_slot i (k, v)) \<longleftrightarrow> sup v (Slot i k) \<noteq> v" for k v
    using assms(1) by (auto simp: join_slot_def is_bottom_def map_of_Slot JoinValue_changed)
  then have "?A \<longleftrightarrow> (\<exists>k. Slot s k \<noteq> Top \<and> sup (Slot s k) (Slot i k) \<noteq> Slot s k)"
    using mem [OF assms(2)] by (auto simp: Bex_def)
  moreover have "?B \<longleftrightarrow> (\<exists>k. Slot s k = Top \<and> Slot i k \<noteq> Top)"
    using mem [OF assms(1)]
    by (auto simp: filter_empty_conv map_of_Slot [OF assms(2)] Bex_def split: if_splits)
  ultimately show ?thesis by (metis sup_Top(1))
qed

lemma Join_changed_iff_le:
  assumes "wf_state i" "wf_state s"
  shows "fst (Join i s) \<longleftrightarrow> \<not> state_le i s"
proof -
  have *: "JoinTableValue a b = a \<longleftrightarrow> tv_le b a" for a b
    by (metis JoinTableValue_least JoinTableValue_ub1 JoinTableValue_ub2 tv_le_antisym tv_le_refl)
  have "fst (Join i s) \<longleftrightarrow>
      (\<exists>r < kNumGPRs. sup (gpr s ! r) (gpr i ! r) \<noteq> gpr s ! r \<or> JoinTableValue (tbl s ! r) (tbl i ! r) \<noteq> tbl s ! r) \<or>
      (\<exists>k. sup (Slot s k) (Slot i k) \<noteq> Slot s k) \<or> (last_cmp s \<noteq> None \<and> last_cmp s \<noteq> last_cmp i)"
    unfolding Join_changed_slots [OF assms, symmetric] by (auto simp: Join_def Let_def JoinValue_changed)
  then show ?thesis by (auto simp: state_le_def * le_iff_sup sup.commute)
qed

lemma Join_changed_iff:
  assumes "wf_state i" "wf_state s"
  shows "fst (Join i s) \<longleftrightarrow> join_state i s \<noteq> s"
proof -
  have "join_state i s = s \<longleftrightarrow> state_le i s"
    using assms by (metis Join_least Join_ub_incoming Join_ub_state state_le_antisym state_le_refl wf_state_Join)
  then show ?thesis using Join_changed_iff_le [OF assms] by simp
qed

subsection \<open>The contract of the join\<close>

text \<open>
  What a worklist iteration needs of its join: an upper bound of both sides, the least one,
  and a \<open>changed\<close> flag that is exactly "the stored state is not yet above the incoming one".
\<close>

locale join_semilattice =
  fixes wf :: "'s \<Rightarrow> bool" and le :: "'s \<Rightarrow> 's \<Rightarrow> bool" and join :: "'s \<Rightarrow> 's \<Rightarrow> bool \<times> 's \<times> 'c"
  assumes le_refl: "le s s"
    and le_trans: "le s t \<Longrightarrow> le t u \<Longrightarrow> le s u"
    and le_antisym: "wf s \<Longrightarrow> wf t \<Longrightarrow> le s t \<Longrightarrow> le t s \<Longrightarrow> s = t"
    and join_wf: "wf i \<Longrightarrow> wf s \<Longrightarrow> wf (fst (snd (join i s)))"
    and join_ub1: "wf i \<Longrightarrow> wf s \<Longrightarrow> le i (fst (snd (join i s)))"
    and join_ub2: "wf i \<Longrightarrow> wf s \<Longrightarrow> le s (fst (snd (join i s)))"
    and join_least: "wf i \<Longrightarrow> wf s \<Longrightarrow> le i u \<Longrightarrow> le s u \<Longrightarrow> le (fst (snd (join i s))) u"
    and join_changed: "wf i \<Longrightarrow> wf s \<Longrightarrow> fst (join i s) \<longleftrightarrow> \<not> le i s"
begin

definition joins :: "'s \<Rightarrow> 's list \<Rightarrow> 's" where
  "joins s is = fold (\<lambda>i t. fst (snd (join i t))) is s"

lemma joins_wf: "wf s \<Longrightarrow> (\<forall>i \<in> set is. wf i) \<Longrightarrow> wf (joins s is)"
  unfolding joins_def by (induction "is" arbitrary: s) (auto intro: join_wf)

lemma joins_ub:
  "wf s \<Longrightarrow> (\<forall>i \<in> set is. wf i) \<Longrightarrow> le s (joins s is) \<and> (\<forall>i \<in> set is. le i (joins s is))"
proof (induction "is" arbitrary: s)
  case (Cons i "is")
  have "wf (fst (snd (join i s)))" using Cons.prems by (simp add: join_wf)
  from Cons.IH [OF this] Cons.prems show ?case
    using join_ub1 [of i s] join_ub2 [of i s] by (auto simp: joins_def intro: le_trans)
qed (simp add: joins_def le_refl)

lemma joins_least:
  "wf s \<Longrightarrow> (\<forall>i \<in> set is. wf i \<and> le i u) \<Longrightarrow> le s u \<Longrightarrow> le (joins s is) u"
  unfolding joins_def by (induction "is" arbitrary: s) (auto intro: join_wf join_least)

lemma joins_order_irrelevant:
  assumes "wf s" "wf t" "\<forall>i \<in> set is. wf i" "\<forall>i \<in> set js. wf i" "set (s # is) = set (t # js)"
  shows "joins s is = joins t js"
proof (rule le_antisym)
  have 1: "\<forall>x \<in> set (s # is). le x (joins s is)" and 2: "\<forall>x \<in> set (t # js). le x (joins t js)"
    using joins_ub assms(1-4) by auto
  show "le (joins s is) (joins t js)"
    using 2 assms(1,3,5) by (intro joins_least) auto
  show "le (joins t js) (joins s is)"
    using 1 assms(2,4,5) by (intro joins_least) (simp, metis list.set_intros(2), metis list.set_intros(1))
qed (use assms joins_wf in auto)

lemma join_unchanged_id: "wf i \<Longrightarrow> wf s \<Longrightarrow> \<not> fst (join i s) \<Longrightarrow> fst (snd (join i s)) = s"
  by (metis join_changed join_least join_ub2 join_wf le_antisym le_refl)

end

interpretation abs_join: join_semilattice wf_state state_le Join
  by unfold_locales
    (auto intro: state_le_trans state_le_antisym wf_state_Join Join_ub_state Join_ub_incoming Join_least
          simp: Join_changed_iff_le)

subsection \<open>Every write keeps a state well formed\<close>

lemma kNumGPRs_16: "kNumGPRs = 16"
  by simp

lemma wf_slots_put: "Top \<notin> snd ` set m \<Longrightarrow> v \<noteq> Top \<Longrightarrow> Top \<notin> snd ` set (omap_put k v m)"
  by (induction m rule: omap_put.induct) auto

lemma wf_state_upd [wf_intros]:
  "wf_state s \<Longrightarrow> wf_state (s\<lparr>gpr := (gpr s)[r := v]\<rparr>)"
  "wf_state s \<Longrightarrow> wf_state (s\<lparr>tbl := (tbl s)[r := t]\<rparr>)"
  "wf_state s \<Longrightarrow> wf_state (s\<lparr>last_cmp := c\<rparr>)"
  by (simp_all add: wf_state_def)

lemma wf_state_put [wf_intros]:
  "wf_state s \<Longrightarrow> v \<noteq> Top \<Longrightarrow> wf_state (s\<lparr>slots := omap_put k v (slots s)\<rparr>)"
  by (simp add: wf_state_def omap_ok_put wf_slots_put)

lemma wf_state_SetSlot [wf_intros]: "wf_state s \<Longrightarrow> wf_state (SetSlot k v s)"
proof (cases "v = Top")
  case True
  moreover assume "wf_state s"
  ultimately show ?thesis
    by (simp add: SetSlot_def is_top_def wf_state_def omap_ok_erase) (auto simp: omap_erase_def)
qed (simp add: SetSlot_def is_top_def wf_state_put)

lemma wf_state_DropSlotsBelow [wf_intros]: "wf_state s \<Longrightarrow> wf_state (DropSlotsBelow d s)"
  by (simp add: wf_state_def DropSlotsBelow_def omap_ok_erase_below) (auto simp: omap_erase_below_def)

lemma wf_state_SetReg [wf_intros]: "wf_state s \<Longrightarrow> wf_state (SetReg r v t s)"
proof -
  assume "wf_state s"
  then have "wf_state (s\<lparr>gpr := (gpr s)[r := v], tbl := (tbl s)[r := t]\<rparr>)"
    by (simp add: wf_state_def)
  then have "wf_state (InvalidateLastCmpFor r (s\<lparr>gpr := (gpr s)[r := v], tbl := (tbl s)[r := t]\<rparr>))"
    by (simp add: InvalidateLastCmpFor_def wf_state_upd split: option.split)
  then show ?thesis
    by (auto simp: SetReg_def Let_def DropDeadSlots_def wf_state_DropSlotsBelow split: AbsVal.split)
qed

lemma wf_state_writes [wf_intros]:
  assumes "wf_state s"
  shows "wf_state (SetReg1 r v s)" "wf_state (SetTableReg r t s)" "wf_state (CopyReg r q s)" "wf_state (ClobberReg r s)"
    "wf_state (ApplyGuardBound i b s)" "wf_state (ApplyValueBound i b s)" "wf_state (InvalidateLastCmpFor r s)"
  using assms
  by (simp_all add: SetReg1_def SetTableReg_def CopyReg_def ClobberReg_def wf_state_SetReg
      ApplyGuardBound_def ApplyValueBound_def InvalidateLastCmpFor_def wf_state_upd split: option.split)

lemma wf_state_AbsState0 [wf_intros]: "wf_state AbsState0"
  by (simp add: wf_state_def AbsState0_def)

lemma wf_state_Entry [wf_intros]: "wf_state Entry"
  by (simp add: wf_state_def Entry_def AbsState0_def)

lemma wf_state_SeedReg [wf_intros]: "wf_state s \<Longrightarrow> wf_state (SeedReg row e r s)"
  by (simp add: SeedReg_def Let_def wf_state_upd wf_state_put split: RegRuleKind.split)

lemma wf_state_fold: "(\<And>x s. wf_state s \<Longrightarrow> wf_state (f x s)) \<Longrightarrow> wf_state s \<Longrightarrow> wf_state (fold f xs s)"
  by (induction xs arbitrary: s) auto

lemma wf_state_SeedFromRow [wf_intros]: "wf_state (SeedFromRow row e)"
proof -
  have "wf_state (AbsState0\<lparr>gpr := map OrigReg [0..<kNumGPRs]\<rparr>)"
    by (simp add: wf_state_def AbsState0_def)
  then have "wf_state (fold (SeedReg row e) [0..<kNumDWARFRegs] (AbsState0\<lparr>gpr := map OrigReg [0..<kNumGPRs]\<rparr>))"
    by (intro wf_state_fold wf_state_SeedReg)
  then show ?thesis
    by (simp add: SeedFromRow_def Let_def wf_state_def)
qed

subsection \<open>Properties of the join and of seeding\<close>

text \<open>
  C6. \<open>Join\<close> computes the least upper bound of the stored and the incoming state: the result
  is well formed, above both, below every other state above both, and \<open>changed\<close> is returned
  exactly when the stored state is replaced by a different one.
\<close>

theorem Join_least_upper_bound:
  assumes "wf_state incoming" and "wf_state state" and "Join incoming state = (changed, state', conflicts)"
  shows "wf_state state' \<and> state_le incoming state' \<and> state_le state state' \<and>
         (\<forall>u. state_le incoming u \<and> state_le state u \<longrightarrow> state_le state' u) \<and>
         (changed \<longleftrightarrow> state' \<noteq> state)"
  using abs_join.join_wf [OF assms(1,2)] abs_join.join_ub1 [OF assms(1,2)] abs_join.join_ub2 [OF assms(1,2)]
    abs_join.join_least [OF assms(1,2)] Join_changed_iff [OF assms(1,2)] assms(3)
  by auto

theorem Join_least_upper_bound_witness:
  "state_le Entry (join_state Entry AbsState0) \<and> fst (Join Entry AbsState0)"
proof -
  obtain c t cs where j: "Join Entry AbsState0 = (c, t, cs)" by (metis prod_cases3)
  then have "gpr t ! 0 = OrigReg 0"
    using gpr_Join [of AbsState0 0 Entry] by (simp add: AbsState0_def Entry_def)
  then have "t \<noteq> AbsState0" by (auto simp: AbsState0_def)
  then show ?thesis
    using Join_least_upper_bound [OF wf_state_Entry wf_state_AbsState0 j] j by simp
qed

text \<open>
  \<open>Join\<close> reports exactly the concrete disagreements: a register conflict for each register
  on which the two sides name different known values, and a slot conflict for each slot on
  which they do, each with the two values as they were.
\<close>

lemma Join_conflicts_exact:
  assumes "wf_state incoming" and "wf_state state"
  shows "set (snd (snd (Join incoming state))) =
      {\<lparr>jc_reg = int r, jc_offset = 0, lhs = gpr state ! r, rhs = gpr incoming ! r\<rparr> | r.
         r < kNumGPRs \<and> gpr state ! r \<noteq> gpr incoming ! r \<and>
         \<not> is_unknown (gpr state ! r) \<and> \<not> is_unknown (gpr incoming ! r)} \<union>
      {\<lparr>jc_reg = kSlotConflict, jc_offset = k, lhs = Slot state k, rhs = Slot incoming k\<rparr> | k.
         Slot state k \<noteq> Slot incoming k \<and> \<not> is_unknown (Slot state k) \<and> \<not> is_unknown (Slot incoming k)}"
  (is "_ = ?R \<union> ?S")
proof -
  let ?c = "\<lambda>(k, cur). \<lparr>jc_reg = kSlotConflict, jc_offset = k, lhs = cur, rhs = the (map_of (slots incoming) k)\<rparr>"
  have conf: "jv_conflict (join_slot incoming (k, v)) \<longleftrightarrow>
      v \<noteq> Slot incoming k \<and> \<not> is_unknown v \<and> \<not> is_unknown (Slot incoming k)" for k v
    using assms(1)
    by (auto simp: join_slot_def map_of_Slot JoinValue_conflict is_bottom_def is_unknown_def)
  have "?c ` {kv \<in> set (slots state). jv_conflict (join_slot incoming kv)} = ?S"
  proof (intro set_eqI iffI)
    fix c assume "c \<in> ?c ` {kv \<in> set (slots state). jv_conflict (join_slot incoming kv)}"
    then obtain k v where kv: "(k, v) \<in> set (slots state)" "jv_conflict (join_slot incoming (k, v))" "c = ?c (k, v)"
      by auto
    then have "Slot state k = v" by (simp add: slots_mem_iff [OF assms(2)])
    with kv show "c \<in> ?S"
      using assms(1) by (auto simp: conf map_of_Slot is_unknown_def)
  next
    fix c assume "c \<in> ?S"
    then obtain k where k: "c = \<lparr>jc_reg = kSlotConflict, jc_offset = k, lhs = Slot state k, rhs = Slot incoming k\<rparr>"
      "jv_conflict (join_slot incoming (k, Slot state k))" "\<not> is_unknown (Slot state k)" "\<not> is_unknown (Slot incoming k)"
      by (auto simp: conf)
    then have "(k, Slot state k) \<in> set (slots state)" "c = ?c (k, Slot state k)"
      using assms by (auto simp: slots_mem_iff map_of_Slot is_unknown_def)
    with k(2) show "c \<in> ?c ` {kv \<in> set (slots state). jv_conflict (join_slot incoming kv)}" by blast
  qed
  then show ?thesis
    by (auto simp: Join_def Let_def JoinValue_conflict)
qed

text \<open>
  C23. The state accumulated at a merge point does not depend on the order in which its
  predecessors reach it, nor on how often each does: two arrival sequences with the same
  states give the same result.
\<close>

theorem Join_arrival_order_irrelevant:
  assumes "\<forall>s \<in> set (first # rest). wf_state s" and "set (first # rest) = set (first' # rest')"
  shows "fold join_state rest first = fold join_state rest' first'"
  using abs_join.joins_order_irrelevant [of first first' rest rest'] assms
  by (simp add: abs_join.joins_def)

theorem Join_arrival_order_irrelevant_witness:
  "join_state AbsState0 (join_state (ClobberReg 0 Entry) Entry) = join_state Entry (join_state (ClobberReg 0 Entry) AbsState0)"
  using Join_arrival_order_irrelevant [of Entry "[ClobberReg 0 Entry, AbsState0]" AbsState0 "[ClobberReg 0 Entry, Entry]"]
    wf_state_Entry wf_state_AbsState0 wf_state_writes(4) [OF wf_state_Entry]
  by auto

text \<open>
  Seeding a function entry from its first CFI row agrees with the calling convention: for
  a canonical entry row (CFA = rsp+8, return address at CFA-8) that says nothing else about
  any register, \<open>SeedFromRow\<close> returns the same state as \<open>Entry\<close>.
\<close>

lemma SeedFromRow_canonical_entry:
  assumes "length (row_regs row) = kNumDWARFRegs" and "IsCanonicalEntry row"
    and "\<forall>r < kNumGPRs. rule_kind (row_regs row ! r) \<in> {RUnset, RSameValue}"
  shows "SeedFromRow row True = Entry"
proof -
  have "SeedReg row True r s = s" if "r < kNumGPRs" for r s
    using assms(3) that by (auto simp: SeedReg_def Let_def split: RegRuleKind.split)
  then have "fold (SeedReg row True) [0..<kNumGPRs] s = s" for s
    by (intro fold_invariant [where Q = "\<lambda>r. r < kNumGPRs" and P = "\<lambda>t. t = s"]) auto
  moreover have "[0..<kNumDWARFRegs] = [0..<kNumGPRs] @ [kDWARFRip]"
    by (simp add: upt_rec)
  ultimately show ?thesis
    using assms(2)
    by (simp add: SeedFromRow_def Let_def IsCanonicalEntry_def SeedReg_def Entry_def AbsState0_def RegOffset_def wrap64_id in_int64_def)
qed

end
