(* ===== verification/Disasm.thy ===== *)
theory Disasm
  imports Abs_Join
begin

text \<open>
  \<^verbatim>\<open>disasm.h\<close> and \<^verbatim>\<open>disasm.cc\<close>: one decoded instruction. The decoding itself is the Zydis
  library, which is not part of the sources: the record \<open>zydis\<close> holds the four functions of
  it the program calls, and every definition that decodes takes it as an argument. What is
  read of a decoded instruction is data, modelled below with Zydis's names: the registers and
  mnemonics the sources mention are constructors, the others are the \<open>OTHER\<close> ones.
\<close>

datatype ZydisRegister =
    ZYDIS_REGISTER_NONE
  | ZYDIS_REGISTER_RAX | ZYDIS_REGISTER_RDX | ZYDIS_REGISTER_RCX | ZYDIS_REGISTER_RBX
  | ZYDIS_REGISTER_RSI | ZYDIS_REGISTER_RDI | ZYDIS_REGISTER_RBP | ZYDIS_REGISTER_RSP
  | ZYDIS_REGISTER_R8 | ZYDIS_REGISTER_R9 | ZYDIS_REGISTER_R10 | ZYDIS_REGISTER_R11
  | ZYDIS_REGISTER_R12 | ZYDIS_REGISTER_R13 | ZYDIS_REGISTER_R14 | ZYDIS_REGISTER_R15
  | ZYDIS_REGISTER_RIP
  | ZYDIS_REGISTER_OTHER int

datatype ZydisMnemonic =
    RET | IRET | IRETD | IRETQ | JMP | JNBE | JNB | JBE | JB
  | UD0 | UD1 | UD2 | HLT | INT3
  | CALL | SYSCALL | SYSENTER | INTn | INT1 | INTO | VMCALL | VMMCALL
  | PUSH | PUSHFQ | POP | POPFQ | LEAVE | LEA | MOV | MOVQ | MOVSXD | ADD | SUB | CMP | MOVZX | MOVSX
  | NOP | ENDBR32 | ENDBR64 | MNEMONIC_OTHER nat

datatype ZydisInstructionCategory = CATEGORY_COND_BR | CATEGORY_UNCOND_BR | CATEGORY_OTHER

record ZydisDecodedOperandMem =
  mem_base :: ZydisRegister
  mem_index :: ZydisRegister
  mem_scale :: nat
  mem_disp :: int64

text \<open>The tagged union of an operand; \<open>size\<close> is in bits, \<open>op_writes\<close> is
  \<open>actions & ZYDIS_OPERAND_ACTION_MASK_WRITE\<close>.\<close>

datatype ZydisOperandValue =
    TypeUnused
  | TypeRegister ZydisRegister
  | TypeMemory ZydisDecodedOperandMem
  | TypeImmediate u64
  | TypePointer

record ZydisDecodedOperand =
  op_value :: ZydisOperandValue
  op_size :: nat
  op_writes :: bool

record ZydisAccessedFlags =
  fl_modified :: u32
  fl_set_0 :: u32
  fl_set_1 :: u32
  fl_undefined :: u32

record ZydisDecodedInstruction =
  mnemonic :: ZydisMnemonic
  insn_length :: nat
  operand_count :: nat
  operand_count_visible :: nat
  category :: ZydisInstructionCategory
  operand_width :: nat
  has_segment :: bool
  cpu_flags :: "ZydisAccessedFlags option"

record Instruction =
  address :: u64
  insn_size :: nat
  insn_id :: ZydisMnemonic
  op_count :: nat
  operands :: "ZydisDecodedOperand list"
  insn :: ZydisDecodedInstruction

text \<open>
  The library. \<open>zy_reg_valid r\<close> is \<open>0 <= r && r <= ZYDIS_REGISTER_MAX_VALUE\<close>;
  \<open>zy_DecodeFull\<close> and \<open>zy_CalcAbsoluteAddress\<close> give \<open>None\<close> when the call does not succeed,
  \<open>zy_Format\<close> likewise.
\<close>

record zydis =
  zy_reg_valid :: "ZydisRegister \<Rightarrow> bool"
  zy_GetLargestEnclosing :: "ZydisRegister \<Rightarrow> ZydisRegister"
  zy_GetWidth :: "ZydisRegister \<Rightarrow> nat"
  zy_CalcAbsoluteAddress :: "ZydisDecodedInstruction \<Rightarrow> ZydisDecodedOperand \<Rightarrow> u64 \<Rightarrow> u64 option"
  zy_DecodeFull :: "u8 list \<Rightarrow> (ZydisDecodedInstruction \<times> ZydisDecodedOperand list) option"
  zy_Format :: "ZydisDecodedInstruction \<Rightarrow> ZydisDecodedOperand list \<Rightarrow> u64 \<Rightarrow> string option"

definition Decode :: "zydis \<Rightarrow> u8 list \<Rightarrow> u64 \<Rightarrow> Instruction option" where
  "Decode Z code addr =
     (case zy_DecodeFull Z code of
        None \<Rightarrow> None
      | Some (di, ops) \<Rightarrow>
          Some \<lparr>address = addr, insn_size = insn_length di, insn_id = mnemonic di,
                op_count = operand_count_visible di, operands = ops, insn = di\<rparr>)"

text \<open>\<open>Disassembler::Text\<close>: \<open>None\<close> is the error status.\<close>

definition Text :: "zydis \<Rightarrow> Instruction \<Rightarrow> string option" where
  "Text Z i = zy_Format Z (insn i) (operands i) (address i)"

text \<open>\<open>operands[i]\<close>: the array is zero past the operands Zydis fills in, and the zero operand
  is \<open>ZYDIS_OPERAND_TYPE_UNUSED\<close>.\<close>

definition operand :: "Instruction \<Rightarrow> nat \<Rightarrow> ZydisDecodedOperand" where
  "operand i n = (if n < length (operands i) then operands i ! n
                  else \<lparr>op_value = TypeUnused, op_size = 0, op_writes = False\<rparr>)"

end
