(* ===== verification/Insn_Semantics.thy ===== *)
theory Insn_Semantics
  imports Disasm
begin

text \<open>
  \<^verbatim>\<open>insn-semantics.h\<close> and \<^verbatim>\<open>insn-semantics.cc\<close>: what one instruction does to the abstract
  state and to control flow. \<open>Transfer\<close> is composed of one definition per case of its switch;
  a case that \<open>break\<close>s to the generic clobber at the end is \<open>None\<close>. Logging is left out.
\<close>

record TransferOutcome =
  falls_through :: bool
  has_direct_target :: bool
  direct_target :: u64
  indirect_branch :: bool
  is_return :: bool
  is_call :: bool
  has_jump_table :: bool
  jump_table_addr :: u64
  jump_table_entries :: u64
  has_unbounded_jump_target :: bool
  unbounded_jump_table_addr :: u64
  review_reason :: string

definition TransferOutcome0 :: TransferOutcome where
  "TransferOutcome0 =
     \<lparr>falls_through = True, has_direct_target = False, direct_target = 0, indirect_branch = False,
      is_return = False, is_call = False, has_jump_table = False, jump_table_addr = 0, jump_table_entries = 0,
      has_unbounded_jump_target = False, unbounded_jump_table_addr = 0, review_reason = []\<rparr>"

datatype BranchEdge = kFallThrough | kTaken

subsection \<open>Registers and operands\<close>

definition kDwarfGprs :: "ZydisRegister list" where
  "kDwarfGprs =
     [ZYDIS_REGISTER_RAX, ZYDIS_REGISTER_RDX, ZYDIS_REGISTER_RCX, ZYDIS_REGISTER_RBX,
      ZYDIS_REGISTER_RSI, ZYDIS_REGISTER_RDI, ZYDIS_REGISTER_RBP, ZYDIS_REGISTER_RSP,
      ZYDIS_REGISTER_R8, ZYDIS_REGISTER_R9, ZYDIS_REGISTER_R10, ZYDIS_REGISTER_R11,
      ZYDIS_REGISTER_R12, ZYDIS_REGISTER_R13, ZYDIS_REGISTER_R14, ZYDIS_REGISTER_R15]"

definition kCallerSaved :: "nat list" where
  "kCallerSaved = [0, 1, 2, 4, 5, 8, 9, 10, 11]"

text \<open>The position of a register in \<open>kDwarfGprs\<close>: the loop of \<open>RegInfoTable\<close> stops at the first
  match, so the table entry of a register is that of its largest enclosing one.\<close>

definition gpr_index :: "ZydisRegister \<Rightarrow> int" where
  "gpr_index parent =
     (let n = length (takeWhile (\<lambda>g. g \<noteq> parent) kDwarfGprs) in if n < kNumGPRs then int n else - 1)"

definition DWARFRegOf :: "zydis \<Rightarrow> ZydisRegister \<Rightarrow> int" where
  "DWARFRegOf Z r = (if \<not> zy_reg_valid Z r then - 1 else gpr_index (zy_GetLargestEnclosing Z r))"

definition IsFull64 :: "zydis \<Rightarrow> ZydisRegister \<Rightarrow> bool" where
  "IsFull64 Z r \<longleftrightarrow> zy_reg_valid Z r \<and> gpr_index (zy_GetLargestEnclosing Z r) \<ge> 0 \<and> zy_GetLargestEnclosing Z r = r"

definition RegWidthBits :: "zydis \<Rightarrow> ZydisRegister \<Rightarrow> nat" where
  "RegWidthBits Z r =
     (if \<not> zy_reg_valid Z r then 0
      else if gpr_index (zy_GetLargestEnclosing Z r) \<ge> 0 then zy_GetWidth Z r mod 256 else 0)"

definition ReadReg :: "zydis \<Rightarrow> AbsState \<Rightarrow> ZydisRegister \<Rightarrow> AbsVal" where
  "ReadReg Z s r = (if \<not> IsFull64 Z r then Top else reg s (DWARFRegOf Z r))"

definition MemSlot :: "zydis \<Rightarrow> AbsState \<Rightarrow> Instruction \<Rightarrow> ZydisDecodedOperandMem \<Rightarrow> int64 option" where
  "MemSlot Z s i m =
     (if has_segment (insn i) \<or> mem_index m \<noteq> ZYDIS_REGISTER_NONE then None
      else if \<not> IsFull64 Z (mem_base m) then None
      else case reg s (DWARFRegOf Z (mem_base m)) of
             CFARel d \<Rightarrow> Some (wrap64 (d + mem_disp m))
           | _ \<Rightarrow> None)"

definition LeaValue :: "zydis \<Rightarrow> AbsState \<Rightarrow> Instruction \<Rightarrow> ZydisDecodedOperandMem \<Rightarrow> AbsVal" where
  "LeaValue Z s i m = (case MemSlot Z s i m of None \<Rightarrow> Top | Some slot \<Rightarrow> CFARel slot)"

definition EraseSlots :: "int64 \<Rightarrow> int64 \<Rightarrow> AbsState \<Rightarrow> AbsState" where
  "EraseSlots start sz s =
     (if sz \<le> 0 then s
      else s\<lparr>slots := omap_erase_range (wrap64 (start - 7)) (wrap64 (start + sz)) (slots s)\<rparr>)"

text \<open>A memory write that could not be placed is assumed not to alias the tracked slots.\<close>

definition HandleUnplacedMemWrite :: "AbsState \<Rightarrow> AbsState" where
  "HandleUnplacedMemWrite s = s"

definition WritesEflags :: "Instruction \<Rightarrow> bool" where
  "WritesEflags i =
     (case cpu_flags (insn i) of
        None \<Rightarrow> True
      | Some f \<Rightarrow> fl_modified f \<noteq> 0 \<or> fl_set_0 f \<noteq> 0 \<or> fl_set_1 f \<noteq> 0 \<or> fl_undefined f \<noteq> 0)"

subsection \<open>Bounds\<close>

definition WrittenRegBound :: "zydis \<Rightarrow> ZydisRegister \<Rightarrow> u64" where
  "WrittenRegBound Z r = (if RegWidthBits Z r = 32 then WidthBound 32 else kBoundTop)"

definition upd_tbl :: "nat \<Rightarrow> (TableVal \<Rightarrow> TableVal) \<Rightarrow> AbsState \<Rightarrow> AbsState" where
  "upd_tbl d f s = s\<lparr>tbl := (tbl s)[d := f (tbl s ! d)]\<rparr>"

definition ClobberWrittenReg :: "zydis \<Rightarrow> ZydisRegister \<Rightarrow> nat \<Rightarrow> AbsState \<Rightarrow> AbsState" where
  "ClobberWrittenReg Z r d s = upd_tbl d (\<lambda>t. t\<lparr>value_bound := WrittenRegBound Z r\<rparr>) (ClobberReg d s)"

definition ProvenGuardBound :: "AbsState \<Rightarrow> int \<Rightarrow> nat \<Rightarrow> u64" where
  "ProvenGuardBound s r read_bits =
     (case last_cmp s of
        None \<Rightarrow> kBoundTop
      | Some g \<Rightarrow>
          if r < 0 \<or> \<not> proven g then kBoundTop
          else if int (fg_reg g) \<noteq> r \<or> read_bits > width_bits g then kBoundTop
          else min (WidthBound read_bits) (proven_bound g))"

definition ApplyZeroExtendedFrom :: "TableVal \<Rightarrow> nat \<Rightarrow> u64 \<Rightarrow> TableVal \<Rightarrow> TableVal" where
  "ApplyZeroExtendedFrom src src_bits guard_bound dst =
     dst\<lparr>value_bound := min (WidthBound src_bits) (min (value_bound src) guard_bound),
         table_bound := min (table_bound src) guard_bound\<rparr>"

definition ApplySignExtendedFrom :: "TableVal \<Rightarrow> nat \<Rightarrow> u64 \<Rightarrow> TableVal \<Rightarrow> TableVal" where
  "ApplySignExtendedFrom src src_bits guard_bound dst =
     (let low = min (WidthBound src_bits) (min (value_bound src) guard_bound) in
      if src_bits \<ge> 64 \<or> low \<ge> push_bit (src_bits - 1) 1 then ClearBounds dst
      else dst\<lparr>value_bound := low, table_bound := min (table_bound src) guard_bound\<rparr>)"

datatype GuardEdge = GNone | GAtMostImm | GBelowImm

definition InRangeEdgeOf :: "ZydisMnemonic \<Rightarrow> BranchEdge \<Rightarrow> GuardEdge" where
  "InRangeEdgeOf m edge =
     (let taken = (edge = kTaken) in case m of
        JNBE \<Rightarrow> if taken then GNone else GAtMostImm
      | JNB \<Rightarrow> if taken then GNone else GBelowImm
      | JBE \<Rightarrow> if taken then GAtMostImm else GNone
      | JB \<Rightarrow> if taken then GBelowImm else GNone
      | _ \<Rightarrow> GNone)"

subsection \<open>The generic clobber and the edge refinement\<close>

definition clobber_operand :: "zydis \<Rightarrow> Instruction \<Rightarrow> ZydisDecodedOperand \<Rightarrow> AbsState \<Rightarrow> AbsState" where
  "clobber_operand Z i op s =
     (if \<not> op_writes op then s
      else case op_value op of
        TypeRegister r \<Rightarrow> (let d = DWARFRegOf Z r in if d \<ge> 0 then ClobberWrittenReg Z r (nat d) s else s)
      | TypeMemory m \<Rightarrow>
          (case MemSlot Z s i m of
             Some slot \<Rightarrow> EraseSlots slot (max 1 (int (op_size op div 8))) s
           | None \<Rightarrow> HandleUnplacedMemWrite s)
      | _ \<Rightarrow> s)"

definition ClobberWrites :: "zydis \<Rightarrow> Instruction \<Rightarrow> AbsState \<Rightarrow> AbsState" where
  "ClobberWrites Z i s = fold (clobber_operand Z i) (map (operand i) [0..<operand_count (insn i)]) s"

definition TransferEdge :: "Instruction \<Rightarrow> BranchEdge \<Rightarrow> AbsState \<Rightarrow> AbsState" where
  "TransferEdge i edge s =
     (let guard_edge = InRangeEdgeOf (insn_id i) edge in
      case last_cmp s of
        None \<Rightarrow> s
      | Some g \<Rightarrow>
          if guard_edge = GNone \<or> proven g then s
          else if guard_edge = GBelowImm \<and> imm g = 0 then s
          else let ubound = (if guard_edge = GBelowImm then imm g - 1 else imm g);
                   s1 = s\<lparr>last_cmp := Some (g\<lparr>proven_bound := ubound\<rparr>)\<rparr>
               in if width_bits g \<ge> 64 \<or> value_bound (table s1 (int (fg_reg g))) \<le> WidthBound (width_bits g)
                  then ApplyGuardBound (int (fg_reg g)) ubound s1 else s1)"

subsection \<open>The cases of Transfer\<close>

definition xfer_branch :: "zydis \<Rightarrow> Instruction \<Rightarrow> AbsState \<Rightarrow> TransferOutcome" where
  "xfer_branch Z i s =
     (let out = TransferOutcome0\<lparr>falls_through := (insn_id i \<noteq> JMP)\<rparr>;
          op0 = operand i 0;
          direct = (case op_value op0 of
                      TypeImmediate _ \<Rightarrow> if op_count i \<ge> 1 then zy_CalcAbsoluteAddress Z (insn i) op0 (address i) else None
                    | _ \<Rightarrow> None)
      in case direct of
           Some target \<Rightarrow> out\<lparr>has_direct_target := True, direct_target := target\<rparr>
         | None \<Rightarrow>
             (case op_value op0 of
                TypeRegister r \<Rightarrow>
                  if op_count i \<ge> 1 then
                    (let v = table s (DWARFRegOf Z r) in case ident v of
                       TJumpTarget table_addr index_reg \<Rightarrow>
                         if HasTableBound v
                         then out\<lparr>has_jump_table := True, jump_table_addr := table_addr,
                                  jump_table_entries := table_bound v + 1\<rparr>
                         else out\<lparr>has_unbounded_jump_target := True, unbounded_jump_table_addr := table_addr,
                                  indirect_branch := True\<rparr>
                     | _ \<Rightarrow> out\<lparr>indirect_branch := True\<rparr>)
                  else out\<lparr>indirect_branch := True\<rparr>
              | _ \<Rightarrow> out\<lparr>indirect_branch := True\<rparr>))"

text \<open>The body \<open>call\<close> and the system-call group share.\<close>

definition xfer_call :: "AbsState \<Rightarrow> AbsState" where
  "xfer_call s =
     (let s1 = (case reg s (int kDWARFRsp) of CFARel d \<Rightarrow> DropSlotsBelow d s | _ \<Rightarrow> s)
      in fold ClobberReg kCallerSaved s1)"

definition pushed_value :: "zydis \<Rightarrow> Instruction \<Rightarrow> AbsState \<Rightarrow> AbsVal" where
  "pushed_value Z i s =
     (if insn_id i = PUSH
      then case op_value (operand i 0) of
             TypeRegister r \<Rightarrow> ReadReg Z s r
           | TypeMemory m \<Rightarrow> (case MemSlot Z s i m of Some slot \<Rightarrow> Slot s slot | None \<Rightarrow> Top)
           | _ \<Rightarrow> Top
      else Top)"

definition push_size_reason :: string where
  "push_size_reason = ''push with an operand size other than 8 bytes''"

definition pop_size_reason :: string where
  "pop_size_reason = ''pop with an operand size other than 8 bytes''"

definition xfer_push :: "zydis \<Rightarrow> Instruction \<Rightarrow> AbsState \<Rightarrow> TransferOutcome \<times> AbsState" where
  "xfer_push Z i s =
     (if insn_id i = PUSH \<and> (op_count i \<noteq> 1 \<or> operand_width (insn i) \<noteq> 64)
      then (TransferOutcome0\<lparr>review_reason := push_size_reason\<rparr>, ClobberReg kDWARFRsp s)
      else (TransferOutcome0,
            case reg s (int kDWARFRsp) of
              CFARel d \<Rightarrow> (let at = wrap64 (d - 8) in SetSlot at (pushed_value Z i s) (SetReg1 kDWARFRsp (CFARel at) s))
            | _ \<Rightarrow> s))"

definition pop_into :: "zydis \<Rightarrow> Instruction \<Rightarrow> AbsVal \<Rightarrow> AbsState \<Rightarrow> AbsState" where
  "pop_into Z i popped s =
     (if insn_id i = POP
      then case op_value (operand i 0) of
             TypeRegister r \<Rightarrow>
               (let d = DWARFRegOf Z r in if d \<ge> 0 then SetReg1 (nat d) (if IsFull64 Z r then popped else Top) s else s)
           | TypeMemory m \<Rightarrow> (case MemSlot Z s i m of Some slot \<Rightarrow> SetSlot slot popped s | None \<Rightarrow> s)
           | _ \<Rightarrow> s
      else s)"

definition xfer_pop :: "zydis \<Rightarrow> Instruction \<Rightarrow> AbsState \<Rightarrow> TransferOutcome \<times> AbsState" where
  "xfer_pop Z i s =
     (if insn_id i = POP \<and> (op_count i \<noteq> 1 \<or> operand_width (insn i) \<noteq> 64)
      then (TransferOutcome0\<lparr>review_reason := pop_size_reason\<rparr>, ClobberReg kDWARFRsp s)
      else (TransferOutcome0,
            case reg s (int kDWARFRsp) of
              CFARel d \<Rightarrow> pop_into Z i (Slot s d) (SetReg1 kDWARFRsp (CFARel (wrap64 (d + 8))) s)
            | _ \<Rightarrow> pop_into Z i Top s))"

definition xfer_leave :: "AbsState \<Rightarrow> AbsState" where
  "xfer_leave s =
     (let s1 = CopyReg kDWARFRsp kDWARFRbp s in
      case reg s1 (int kDWARFRsp) of
        CFARel d \<Rightarrow> SetReg1 kDWARFRsp (CFARel (wrap64 (d + 8))) (SetReg1 kDWARFRbp (Slot s1 d) s1)
      | _ \<Rightarrow> ClobberReg kDWARFRbp s1)"

definition xfer_lea :: "zydis \<Rightarrow> Instruction \<Rightarrow> AbsState \<Rightarrow> AbsState option" where
  "xfer_lea Z i s =
     (case (op_value (operand i 0), op_value (operand i 1)) of
        (TypeRegister r, TypeMemory m) \<Rightarrow>
          if op_count i \<noteq> 2 then None
          else let d = DWARFRegOf Z r in
            if d < 0 then None
            else if \<not> IsFull64 Z r then Some (ClobberWrittenReg Z r (nat d) s)
            else (case (if mem_base m = ZYDIS_REGISTER_RIP \<and> mem_index m = ZYDIS_REGISTER_NONE
                        then zy_CalcAbsoluteAddress Z (insn i) (operand i 1) (address i) else None) of
                    Some target \<Rightarrow> Some (SetTableReg (nat d) (TV_Const target) s)
                  | None \<Rightarrow> Some (SetReg1 (nat d) (LeaValue Z s i m) s))
      | _ \<Rightarrow> None)"

text \<open>A register write narrower than 64 bits by \<open>mov\<close>.\<close>

definition mov_narrow :: "zydis \<Rightarrow> ZydisRegister \<Rightarrow> nat \<Rightarrow> ZydisDecodedOperand \<Rightarrow> AbsState \<Rightarrow> AbsState" where
  "mov_narrow Z dst d src s =
     (let sr = (case op_value src of
                  TypeRegister r \<Rightarrow> if RegWidthBits Z dst = 32 then DWARFRegOf Z r else - 1
                | _ \<Rightarrow> - 1);
          src_val = table s sr;
          guard = (if sr \<ge> 0 then ProvenGuardBound s sr (op_size src) else kBoundTop);
          s1 = ClobberWrittenReg Z dst d s
      in if sr \<ge> 0 then upd_tbl d (ApplyZeroExtendedFrom src_val (op_size src) guard) s1 else s1)"

definition mov_full :: "zydis \<Rightarrow> Instruction \<Rightarrow> nat \<Rightarrow> ZydisDecodedOperand \<Rightarrow> AbsState \<Rightarrow> AbsState" where
  "mov_full Z i d src s =
     (case op_value src of
        TypeRegister r \<Rightarrow>
          (let sr = DWARFRegOf Z r in
           if sr \<ge> 0 \<and> IsFull64 Z r then CopyReg d (nat sr) s else SetReg1 d Top s)
      | TypeMemory m \<Rightarrow>
          (case MemSlot Z s i m of
             Some slot \<Rightarrow> SetReg1 d (if op_size src = 64 then Slot s slot else Top) s
           | None \<Rightarrow> SetReg1 d Top s)
      | _ \<Rightarrow> ClobberReg d s)"

definition mov_store :: "zydis \<Rightarrow> Instruction \<Rightarrow> ZydisDecodedOperandMem \<Rightarrow> nat \<Rightarrow> ZydisDecodedOperand \<Rightarrow> AbsState \<Rightarrow> AbsState" where
  "mov_store Z i m dst_size src s =
     (case MemSlot Z s i m of
        None \<Rightarrow> HandleUnplacedMemWrite s
      | Some slot \<Rightarrow>
          (let s1 = EraseSlots slot (max 1 (int (dst_size div 8))) s in
           case op_value src of
             TypeRegister r \<Rightarrow> if dst_size = 64 \<and> IsFull64 Z r then SetSlot slot (ReadReg Z s1 r) s1 else s1
           | _ \<Rightarrow> s1))"

definition xfer_mov :: "zydis \<Rightarrow> Instruction \<Rightarrow> AbsState \<Rightarrow> AbsState option" where
  "xfer_mov Z i s =
     (if op_count i \<noteq> 2 then None
      else case op_value (operand i 0) of
        TypeRegister r \<Rightarrow>
          (let d = DWARFRegOf Z r in
           if d < 0 then None
           else if \<not> IsFull64 Z r then Some (mov_narrow Z r (nat d) (operand i 1) s)
           else Some (mov_full Z i (nat d) (operand i 1) s))
      | TypeMemory m \<Rightarrow> Some (mov_store Z i m (op_size (operand i 0)) (operand i 1) s)
      | _ \<Rightarrow> None)"

text \<open>The switch-table load \<open>movslq disp(%B,%I,4),%T\<close>.\<close>

definition movsxd_load :: "zydis \<Rightarrow> nat \<Rightarrow> ZydisDecodedOperandMem \<Rightarrow> AbsState \<Rightarrow> AbsState option" where
  "movsxd_load Z d m s =
     (if mem_index m = ZYDIS_REGISTER_NONE \<or> mem_scale m \<noteq> 4 \<or> mem_base m = ZYDIS_REGISTER_NONE then None
      else let idx_reg = DWARFRegOf Z (mem_index m); base_reg = DWARFRegOf Z (mem_base m) in
        if idx_reg < 0 \<or> base_reg < 0 \<or> \<not> IsFull64 Z (mem_base m) then None
        else case ident (table s base_reg) of
               TConst base_val \<Rightarrow>
                 Some (SetTableReg d (TV_TableEntry (base_val + word_of_int (mem_disp m)) (nat idx_reg) base_val
                                        (table_bound (table s idx_reg))) s)
             | _ \<Rightarrow> None)"

definition xfer_movsxd :: "zydis \<Rightarrow> Instruction \<Rightarrow> AbsState \<Rightarrow> AbsState option" where
  "xfer_movsxd Z i s =
     (case op_value (operand i 0) of
        TypeRegister r \<Rightarrow>
          (let d = DWARFRegOf Z r; op1 = operand i 1 in
           if op_count i \<noteq> 2 \<or> d < 0 \<or> \<not> IsFull64 Z r then None
           else case op_value op1 of
             TypeRegister r1 \<Rightarrow>
               (let sr = DWARFRegOf Z r1;
                    src_val = table s sr;
                    guard = (if sr \<ge> 0 then ProvenGuardBound s sr (op_size op1) else kBoundTop);
                    s1 = ClobberReg (nat d) s
                in Some (if sr \<ge> 0 then upd_tbl (nat d) (ApplySignExtendedFrom src_val (op_size op1) guard) s1 else s1))
           | TypeMemory m \<Rightarrow> movsxd_load Z (nat d) m s
           | _ \<Rightarrow> None)
      | _ \<Rightarrow> None)"

definition resolve_add :: "TableVal \<Rightarrow> TableVal \<Rightarrow> TableVal option" where
  "resolve_add base_candidate entry_candidate =
     (case (ident base_candidate, ident entry_candidate) of
        (TConst c, TTableEntry table_addr index_reg base_const) \<Rightarrow>
          if base_const = c then Some (TV_JumpTarget table_addr index_reg (table_bound entry_candidate)) else None
      | _ \<Rightarrow> None)"

text \<open>\<open>add %B,%T\<close> of a known table base and the entry loaded from it, in either order.\<close>

definition add_dispatch :: "zydis \<Rightarrow> Instruction \<Rightarrow> AbsState \<Rightarrow> AbsState option" where
  "add_dispatch Z i s =
     (case (op_value (operand i 0), op_value (operand i 1)) of
        (TypeRegister r0, TypeRegister r1) \<Rightarrow>
          (let d0 = DWARFRegOf Z r0; d1 = DWARFRegOf Z r1 in
           if insn_id i = ADD \<and> op_count i = 2 \<and> d0 \<ge> 0 \<and> d1 \<ge> 0 \<and> IsFull64 Z r0 \<and> IsFull64 Z r1
           then (case resolve_add (table s d0) (table s d1) of
                   Some t \<Rightarrow> Some (SetTableReg (nat d0) t s)
                 | None \<Rightarrow> (case resolve_add (table s d1) (table s d0) of
                             Some t \<Rightarrow> Some (SetTableReg (nat d0) t s)
                           | None \<Rightarrow> None))
           else None)
      | _ \<Rightarrow> None)"

definition add_sub_imm :: "zydis \<Rightarrow> Instruction \<Rightarrow> AbsState \<Rightarrow> AbsState option" where
  "add_sub_imm Z i s =
     (case (op_value (operand i 0), op_value (operand i 1)) of
        (TypeRegister r, TypeImmediate im) \<Rightarrow>
          (let d = DWARFRegOf Z r in
           if op_count i \<noteq> 2 \<or> d < 0 then None
           else case reg s d of
             CFARel cur \<Rightarrow>
               if \<not> IsFull64 Z r then Some (ClobberWrittenReg Z r (nat d) s)
               else let udelta = word_of_int cur :: u64
                    in Some (SetReg1 (nat d) (CFARel (sint (if insn_id i = ADD then udelta + im else udelta - im))) s)
           | _ \<Rightarrow> Some (ClobberWrittenReg Z r (nat d) s))
      | _ \<Rightarrow> None)"

definition xfer_add_sub :: "zydis \<Rightarrow> Instruction \<Rightarrow> AbsState \<Rightarrow> AbsState option" where
  "xfer_add_sub Z i s = (case add_dispatch Z i s of Some s' \<Rightarrow> Some s' | None \<Rightarrow> add_sub_imm Z i s)"

definition xfer_cmp :: "zydis \<Rightarrow> Instruction \<Rightarrow> AbsState \<Rightarrow> AbsState" where
  "xfer_cmp Z i s =
     (case (op_value (operand i 0), op_value (operand i 1)) of
        (TypeRegister r, TypeImmediate im) \<Rightarrow>
          (let d = DWARFRegOf Z r; width = op_size (operand i 0) mod 256 in
           if op_count i = 2 \<and> d \<ge> 0
           then s\<lparr>last_cmp := Some \<lparr>fg_reg = nat d, width_bits = width,
                    imm = (if width < 64 then im AND (push_bit width 1 - 1) else im), proven_bound = kBoundTop\<rparr>\<rparr>
           else s)
      | _ \<Rightarrow> s)"

definition xfer_movx :: "zydis \<Rightarrow> Instruction \<Rightarrow> AbsState \<Rightarrow> AbsState option" where
  "xfer_movx Z i s =
     (case op_value (operand i 0) of
        TypeRegister r \<Rightarrow>
          (let d = DWARFRegOf Z r; src = operand i 1 in
           if op_count i \<noteq> 2 \<or> d < 0 then None
           else if (case op_value src of TypeRegister _ \<Rightarrow> False | TypeMemory _ \<Rightarrow> False | _ \<Rightarrow> True) then None
           else let sr = (case op_value src of TypeRegister r1 \<Rightarrow> DWARFRegOf Z r1 | _ \<Rightarrow> - 1);
                    src_val = table s sr;
                    guard = (if sr \<ge> 0 then ProvenGuardBound s sr (op_size src) else kBoundTop);
                    s1 = ClobberWrittenReg Z r (nat d) s
                in if RegWidthBits Z r < 32 then Some s1
                   else let s2 = upd_tbl (nat d) (if insn_id i = MOVZX then ApplyZeroExtendedFrom src_val (op_size src) guard
                                                 else ApplySignExtendedFrom src_val (op_size src) guard) s1
                        in Some (upd_tbl (nat d) (\<lambda>t. t\<lparr>value_bound := min (value_bound t) (WrittenRegBound Z r)\<rparr>) s2))
      | _ \<Rightarrow> None)"

subsection \<open>Transfer\<close>

definition clear_guard :: "Instruction \<Rightarrow> AbsState \<Rightarrow> AbsState" where
  "clear_guard i s =
     (if WritesEflags i \<and> (case last_cmp s of None \<Rightarrow> True | Some g \<Rightarrow> \<not> proven g) then s\<lparr>last_cmp := None\<rparr> else s)"

definition or_clobber :: "zydis \<Rightarrow> Instruction \<Rightarrow> AbsState \<Rightarrow> AbsState option \<Rightarrow> TransferOutcome \<times> AbsState" where
  "or_clobber Z i s r = (TransferOutcome0, case r of Some s' \<Rightarrow> s' | None \<Rightarrow> ClobberWrites Z i s)"

definition transfer_switch :: "zydis \<Rightarrow> Instruction \<Rightarrow> AbsState \<Rightarrow> TransferOutcome \<times> AbsState" where
  "transfer_switch Z i s =
     (let m = insn_id i in
      if m = CALL then (TransferOutcome0\<lparr>is_call := True\<rparr>, xfer_call s)
      else if m \<in> set [SYSCALL, SYSENTER, INTn, INT1, INT3, INTO, VMCALL, VMMCALL] then (TransferOutcome0, xfer_call s)
      else if m \<in> set [PUSH, PUSHFQ] then xfer_push Z i s
      else if m \<in> set [POP, POPFQ] then xfer_pop Z i s
      else if m = LEAVE then (TransferOutcome0, xfer_leave s)
      else if m = LEA then or_clobber Z i s (xfer_lea Z i s)
      else if m \<in> set [MOV, MOVQ] then or_clobber Z i s (xfer_mov Z i s)
      else if m = MOVSXD then or_clobber Z i s (xfer_movsxd Z i s)
      else if m \<in> set [ADD, SUB] then or_clobber Z i s (xfer_add_sub Z i s)
      else if m = CMP then (TransferOutcome0, xfer_cmp Z i s)
      else if m \<in> set [MOVZX, MOVSX] then or_clobber Z i s (xfer_movx Z i s)
      else if m \<in> set [NOP, ENDBR32, ENDBR64] then (TransferOutcome0, s)
      else or_clobber Z i s None)"

definition Transfer :: "zydis \<Rightarrow> Instruction \<Rightarrow> AbsState \<Rightarrow> TransferOutcome \<times> AbsState" where
  "Transfer Z i s0 =
     (let s = clear_guard i s0; m = insn_id i in
      if m \<in> set [RET, IRET, IRETD, IRETQ] then (TransferOutcome0\<lparr>is_return := True, falls_through := False\<rparr>, s)
      else if category (insn i) \<in> set [CATEGORY_COND_BR, CATEGORY_UNCOND_BR] then (xfer_branch Z i s, s)
      else if m \<in> set [UD0, UD1, UD2, HLT, INT3] then (TransferOutcome0\<lparr>falls_through := False\<rparr>, s)
      else transfer_switch Z i s)"

end
