(* ===== verification/Elf_Image.thy ===== *)
theory Elf_Image
  imports Cfi_Table
begin

text \<open>
  \<^verbatim>\<open>elf-image.h\<close> and \<^verbatim>\<open>elf-image.cc\<close>: the loaded image and the questions the checkers ask of
  it, and the part of \<open>Open\<close> that works on the file's bytes: the contents of the file, the address
  the reservation of the image gets (\<open>None\<close> when \<open>mmap\<close> fails) and whether each segment's \<open>mmap\<close>
  succeeds are its arguments. The theory \<open>Image_File\<close> adds the descriptor, the address space and the
  destructor. A byte of the image is what the
  last \<open>MAP_FIXED\<close> mapping that covers its page put there: the file's byte, and zero behind
  the end of the file within the page; unmapped pages are never handed out by \<open>BytesAt\<close> and
  read as zero here. \<open>std::sort\<close> on a key is \<open>sort_key\<close>, which fixes one of the orders the
  standard allows for equal keys.
\<close>

subsection \<open>The image\<close>

record LoadSegment =
  seg_vaddr :: u64
  seg_memsz :: u64
  seg_filesz :: u64
  seg_offset :: u64
  seg_flags :: u32

record FuncSymbol =
  fs_vaddr :: u64
  fs_size :: u64
  fs_name :: string

record ELFImage =
  img_mem :: memory
  img_bias :: u64
  segments :: "LoadSegment list"
  func_symbols :: "FuncSymbol list"
  img_eh_frame_start :: u64
  img_eh_frame_end :: u64
  img_eh_frame_hdr :: u64
  plt_ranges :: "(u64 \<times> u64) list"
  has_debug_line :: bool
  has_debug_link :: bool

definition kPageSize :: u64 where "kPageSize = 4096"

definition RoundDown :: "u64 \<Rightarrow> u64 \<Rightarrow> u64" where
  "RoundDown v align = v AND NOT (align - 1)"

definition RoundUp :: "u64 \<Rightarrow> u64 \<Rightarrow> u64" where
  "RoundUp v align = RoundDown (v + align - 1) align"

definition FitsIn :: "u64 \<Rightarrow> u64 \<Rightarrow> u64 \<Rightarrow> bool" where
  "FitsIn off len sz \<longleftrightarrow> off \<le> sz \<and> len \<le> sz - off"

definition executable :: "LoadSegment \<Rightarrow> bool" where
  "executable seg \<longleftrightarrow> seg_flags seg AND 1 \<noteq> 0"

definition Contains :: "LoadSegment \<Rightarrow> u64 \<Rightarrow> u64 \<Rightarrow> bool" where
  "Contains seg addr sz \<longleftrightarrow>
     (if addr < seg_vaddr seg then False
      else let off = addr - seg_vaddr seg in off \<le> seg_memsz seg \<and> sz \<le> seg_memsz seg - off)"

definition ToImage :: "ELFImage \<Rightarrow> u64 \<Rightarrow> u64" where
  "ToImage img vaddr = vaddr + img_bias img"

definition ToVaddr :: "ELFImage \<Rightarrow> u64 \<Rightarrow> u64" where
  "ToVaddr img image_addr = image_addr - img_bias img"

definition has_eh_frame :: "ELFImage \<Rightarrow> bool" where
  "has_eh_frame img \<longleftrightarrow> img_eh_frame_end img > img_eh_frame_start img"

definition has_debug_info :: "ELFImage \<Rightarrow> bool" where
  "has_debug_info img \<longleftrightarrow> has_debug_line img \<or> has_debug_link img"

definition IsExecutable :: "ELFImage \<Rightarrow> u64 \<Rightarrow> u64 \<Rightarrow> bool" where
  "IsExecutable img vaddr sz \<longleftrightarrow> (\<exists>seg \<in> set (segments img). executable seg \<and> Contains seg vaddr sz)"

definition IsFileBackedNonExecutable :: "ELFImage \<Rightarrow> u64 \<Rightarrow> u64 \<Rightarrow> bool" where
  "IsFileBackedNonExecutable img vaddr sz \<longleftrightarrow>
     (\<exists>seg \<in> set (segments img). \<not> (executable seg \<or> vaddr < seg_vaddr seg) \<and>
        (let off = vaddr - seg_vaddr seg in \<not> (off > seg_filesz seg \<or> sz > seg_filesz seg - off)))"

definition InPLT :: "ELFImage \<Rightarrow> u64 \<Rightarrow> u64 \<Rightarrow> bool" where
  "InPLT img vaddr sz \<longleftrightarrow>
     (\<exists>(start, e) \<in> set (plt_ranges img). \<not> vaddr < start \<and>
        (let off = vaddr - start; range = e - start in off \<le> range \<and> sz \<le> range - off))"

text \<open>The span \<open>BytesAt\<close> returns, as its bytes.\<close>

fun bytes_in :: "ELFImage \<Rightarrow> u64 \<Rightarrow> u64 \<Rightarrow> LoadSegment list \<Rightarrow> u8 list" where
  "bytes_in img vaddr sz [] = []"
| "bytes_in img vaddr sz (seg # segs) =
     (if vaddr < seg_vaddr seg then bytes_in img vaddr sz segs
      else let off = vaddr - seg_vaddr seg in
        if off \<ge> seg_filesz seg then bytes_in img vaddr sz segs
        else mem_bytes (img_mem img) (ToImage img vaddr) (unat (min sz (seg_filesz seg - off))))"

definition BytesAt :: "ELFImage \<Rightarrow> u64 \<Rightarrow> u64 \<Rightarrow> u8 list" where
  "BytesAt img vaddr sz = bytes_in img vaddr sz (segments img)"

subsection \<open>Decoding the eh_frame_hdr pointer\<close>

definition load_raw :: "u8 list \<Rightarrow> nat \<Rightarrow> bool \<Rightarrow> u64 option" where
  "load_raw data n sign =
     (if length data < n then None
      else let raw = of_nat (le_nat (take n data)) :: u64; sign_bit = push_bit (n * 8 - 1) 1
           in Some (if sign \<and> n < 8 \<and> raw AND sign_bit \<noteq> 0 then raw OR NOT (push_bit 1 sign_bit - 1) else raw))"

definition DecodeEhPtr :: "u8 list \<Rightarrow> u64 \<Rightarrow> u8 \<Rightarrow> u64 option" where
  "DecodeEhPtr data data_vaddr encoding =
     (let lo = encoding AND 0x0f; hi = encoding AND 0xf0;
          base = (if hi = DW_EH_PE_pcrel then data_vaddr else 0)
      in if hi \<noteq> DW_EH_PE_pcrel \<and> hi \<noteq> 0 then None
         else map_option (\<lambda>raw. base + raw)
           (if lo = DW_EH_PE_sdata4 then load_raw data 4 True
            else if lo = DW_EH_PE_udata4 then load_raw data 4 False
            else if lo = DW_EH_PE_sdata8 \<or> lo = DW_EH_PE_udata8 \<or> lo = DW_EH_PE_absptr then load_raw data 8 False
            else None))"

subsection \<open>Opening a file\<close>

datatype ELFError =
    CannotOpenFile string | CannotStat string | CannotMmapFile string
  | TooSmall | NotELF | NotLittleEndian64 | UnsupportedMachine u16 | UnsupportedType u16 | MalformedProgramHeaders
  | LoadPastEndOfFile | NoLoadSegments | SpanTooLarge u64 | CannotReserve u64 | UnalignedSegment u64 u64
  | CannotMapSegment u64

text \<open>The structures of \<^verbatim>\<open>elf.h\<close> the code copies out of the file, field by field.\<close>

definition fbyte :: "u8 list \<Rightarrow> nat \<Rightarrow> u8" where "fbyte file off = (if off < length file then file ! off else 0)"
definition f16 :: "u8 list \<Rightarrow> nat \<Rightarrow> u16" where "f16 file off = of_nat (le_nat (map (fbyte file) [off..<off + 2]))"
definition f32 :: "u8 list \<Rightarrow> nat \<Rightarrow> u32" where "f32 file off = of_nat (le_nat (map (fbyte file) [off..<off + 4]))"
definition f64 :: "u8 list \<Rightarrow> nat \<Rightarrow> u64" where "f64 file off = of_nat (le_nat (map (fbyte file) [off..<off + 8]))"

record phdr_scan =
  ps_segments :: "LoadSegment list"
  ps_min :: u64
  ps_max :: u64
  ps_hdr :: u64

definition scan_phdr :: "u8 list \<Rightarrow> nat \<Rightarrow> phdr_scan \<Rightarrow> ELFError + phdr_scan" where
  "scan_phdr file at ps =
     (let p_type = f32 file at; p_flags = f32 file (at + 4); p_offset = f64 file (at + 8); p_vaddr = f64 file (at + 16);
          p_filesz = f64 file (at + 32); p_memsz = f64 file (at + 40)
      in if p_type = 0x6474e550 then Inr (ps\<lparr>ps_hdr := p_vaddr\<rparr>)
         else if p_type \<noteq> 1 \<or> p_memsz = 0 then Inr ps
         else if p_filesz > p_memsz \<or> \<not> FitsIn p_offset p_filesz (of_nat (length file)) then Inl LoadPastEndOfFile
         else Inr (ps\<lparr>ps_segments := ps_segments ps @ [\<lparr>seg_vaddr = p_vaddr, seg_memsz = p_memsz, seg_filesz = p_filesz,
                                                     seg_offset = p_offset, seg_flags = p_flags\<rparr>],
                      ps_min := min (ps_min ps) p_vaddr, ps_max := max (ps_max ps) (p_vaddr + p_memsz)\<rparr>))"

fun scan_phdrs :: "u8 list \<Rightarrow> nat \<Rightarrow> nat \<Rightarrow> phdr_scan \<Rightarrow> ELFError + phdr_scan" where
  "scan_phdrs file at 0 ps = Inr ps"
| "scan_phdrs file at (Suc n) ps = bindR (scan_phdr file at ps) (scan_phdrs file (at + 56) n)"

text \<open>Where a segment's pages go in the image, and the file offset they come from.\<close>

definition seg_page :: "LoadSegment \<Rightarrow> u64" where
  "seg_page seg = RoundDown (seg_vaddr seg) kPageSize"

definition seg_map_len :: "LoadSegment \<Rightarrow> u64" where
  "seg_map_len seg = RoundUp (seg_filesz seg + (seg_vaddr seg - seg_page seg)) kPageSize"

definition covers_page :: "u64 \<Rightarrow> u64 \<Rightarrow> LoadSegment \<Rightarrow> bool" where
  "covers_page b a seg \<longleftrightarrow> seg_filesz seg \<noteq> 0 \<and> a - b - seg_page seg < seg_map_len seg"

definition loaded_byte :: "u8 list \<Rightarrow> u64 \<Rightarrow> LoadSegment list \<Rightarrow> memory" where
  "loaded_byte file b segs a =
     (case find (covers_page b a) (rev segs) of
        Some seg \<Rightarrow> fbyte file (unat (RoundDown (seg_offset seg) kPageSize) + unat (a - b - seg_page seg))
      | None \<Rightarrow> 0)"

fun map_segments :: "(u64 \<Rightarrow> u64 \<Rightarrow> u64 \<Rightarrow> bool) \<Rightarrow> u64 \<Rightarrow> LoadSegment list \<Rightarrow> ELFError option" where
  "map_segments map_ok b [] = None"
| "map_segments map_ok b (seg # segs) =
     (if seg_filesz seg = 0 then map_segments map_ok b segs
      else if seg_vaddr seg mod kPageSize \<noteq> seg_offset seg mod kPageSize
        then Some (UnalignedSegment (seg_vaddr seg) (seg_offset seg))
      else if \<not> map_ok (seg_page seg + b) (seg_map_len seg) (RoundDown (seg_offset seg) kPageSize)
        then Some (CannotMapSegment (seg_vaddr seg))
      else map_segments map_ok b segs)"

subsection \<open>The section table\<close>

record Shdr =
  sh_name :: nat
  sh_type :: u32
  sh_addr :: u64
  sh_offset :: u64
  sh_size :: u64
  sh_link :: nat
  sh_entsize :: u64

definition shdr_at :: "u8 list \<Rightarrow> nat \<Rightarrow> nat \<Rightarrow> Shdr" where
  "shdr_at file shoff i =
     (let at = shoff + i * 64 in
      \<lparr>sh_name = unat (f32 file at), sh_type = f32 file (at + 4), sh_addr = f64 file (at + 16),
       sh_offset = f64 file (at + 24), sh_size = f64 file (at + 32), sh_link = unat (f32 file (at + 40)),
       sh_entsize = f64 file (at + 56)\<rparr>)"

text \<open>\<open>strnlen\<close> then a string view: the bytes up to a zero or the end of the table.\<close>

definition cstring_at :: "u8 list \<Rightarrow> nat \<Rightarrow> nat \<Rightarrow> string" where
  "cstring_at file at max_len =
     map (\<lambda>b. char_of (unat b)) (takeWhile (\<lambda>b. b \<noteq> 0) (map (fbyte file) [at..<at + max_len]))"

definition name_of :: "u8 list \<Rightarrow> Shdr \<Rightarrow> Shdr \<Rightarrow> string" where
  "name_of file shstr sh =
     (if \<not> (sh_type shstr \<noteq> 8 \<and> FitsIn (sh_offset shstr) (sh_size shstr) (of_nat (length file))) \<or>
         sh_name sh \<ge> unat (sh_size shstr) then []
      else cstring_at file (unat (sh_offset shstr) + sh_name sh) (unat (sh_size shstr) - sh_name sh))"

record section_scan =
  ss_img :: ELFImage
  symtab_idx :: nat
  dynsym_idx :: nat

definition scan_section :: "u8 list \<Rightarrow> nat \<Rightarrow> Shdr \<Rightarrow> nat \<Rightarrow> section_scan \<Rightarrow> section_scan" where
  "scan_section file shoff shstr i ss =
     (let sh = shdr_at file shoff i; name = name_of file shstr sh; img = ss_img ss in
      if name = ''.eh_frame'' \<and> sh_addr sh \<noteq> 0 \<and> sh_size sh \<noteq> 0
        then ss\<lparr>ss_img := img\<lparr>img_eh_frame_start := sh_addr sh, img_eh_frame_end := sh_addr sh + sh_size sh\<rparr>\<rparr>
      else if take 4 name = ''.plt'' \<and> sh_addr sh \<noteq> 0 \<and> sh_size sh \<noteq> 0
        then ss\<lparr>ss_img := img\<lparr>plt_ranges := plt_ranges img @ [(sh_addr sh, sh_addr sh + sh_size sh)]\<rparr>\<rparr>
      else if name = ''.debug_line'' then ss\<lparr>ss_img := img\<lparr>has_debug_line := True\<rparr>\<rparr>
      else if name = ''.gnu_debuglink'' then ss\<lparr>ss_img := img\<lparr>has_debug_link := True\<rparr>\<rparr>
      else if sh_type sh = 2 then ss\<lparr>symtab_idx := i\<rparr>
      else if sh_type sh = 11 then ss\<lparr>dynsym_idx := i\<rparr>
      else ss)"

definition func_symbol_at :: "u8 list \<Rightarrow> Shdr \<Rightarrow> nat \<Rightarrow> FuncSymbol list" where
  "func_symbol_at file str at =
     (let st_name = unat (f32 file at); st_info = fbyte file (at + 4); st_shndx = f16 file (at + 6);
          st_value = f64 file (at + 8); st_size = f64 file (at + 16)
      in if st_info AND 0xf \<noteq> 2 \<or> st_shndx = 0 \<or> st_value = 0 then []
         else if st_name \<ge> unat (sh_size str) then []
         else let name = cstring_at file (unat (sh_offset str) + st_name) (unat (sh_size str) - st_name)
              in if name = [] then [] else [\<lparr>fs_vaddr = st_value, fs_size = st_size, fs_name = name\<rparr>])"

definition read_symbols :: "u8 list \<Rightarrow> nat \<Rightarrow> nat \<Rightarrow> nat \<Rightarrow> FuncSymbol list" where
  "read_symbols file shoff shnum chosen =
     (let sym = shdr_at file shoff chosen; file_size = of_nat (length file) in
      if sh_link sym < shnum \<and> sh_entsize sym = 24 \<and> FitsIn (sh_offset sym) (sh_size sym) file_size
      then let str = shdr_at file shoff (sh_link sym) in
        if FitsIn (sh_offset str) (sh_size str) file_size
        then concat (map (\<lambda>i. func_symbol_at file str (unat (sh_offset sym) + i * 24)) [0..<unat (sh_size sym) div 24])
        else []
      else [])"

definition read_sections :: "u8 list \<Rightarrow> ELFImage \<Rightarrow> ELFImage" where
  "read_sections file img =
     (let shoff = f64 file 40; shentsize = f16 file 58; shnum = unat (f16 file 60); shstrndx = unat (f16 file 62);
          file_size = of_nat (length file)
      in if shoff \<noteq> 0 \<and> shnum \<noteq> 0 \<and> shentsize = 64 \<and> FitsIn shoff (of_nat shnum * 64) file_size \<and> shstrndx < shnum
         then let shstr = shdr_at file (unat shoff) shstrndx;
                  ss = fold (scan_section file (unat shoff) shstr) [0..<shnum]
                         \<lparr>ss_img = img, symtab_idx = 0, dynsym_idx = 0\<rparr>;
                  chosen = (if symtab_idx ss \<noteq> 0 then symtab_idx ss else dynsym_idx ss);
                  syms = (if chosen \<noteq> 0 then read_symbols file (unat shoff) shnum chosen else [])
              in (ss_img ss)\<lparr>func_symbols := sort_key fs_vaddr syms\<rparr>
         else img)"

text \<open>The fallback of a file stripped of its sections.\<close>

definition eh_frame_fallback :: "ELFImage \<Rightarrow> ELFImage" where
  "eh_frame_fallback img =
     (if \<not> has_eh_frame img \<and> img_eh_frame_hdr img \<noteq> 0
      then let hdr = BytesAt img (img_eh_frame_hdr img) 20 in
        if length hdr \<ge> 8 \<and> hdr ! 0 = 1
        then case DecodeEhPtr (drop 4 hdr) (img_eh_frame_hdr img + 4) (hdr ! 1) of
               Some ptr \<Rightarrow>
                 (case find (\<lambda>seg. Contains seg ptr 0) (segments img) of
                    Some seg \<Rightarrow> img\<lparr>img_eh_frame_start := ptr, img_eh_frame_end := seg_vaddr seg + seg_filesz seg\<rparr>
                  | None \<Rightarrow> img)
             | None \<Rightarrow> img
        else img
      else img)"

definition check_ehdr :: "u8 list \<Rightarrow> ELFError option" where
  "check_ehdr file =
     (if length file < 64 then Some TooSmall
      else if map (fbyte file) [0..<4] \<noteq> [0x7f, 0x45, 0x4c, 0x46] then Some NotELF
      else if fbyte file 4 \<noteq> 2 \<or> fbyte file 5 \<noteq> 1 then Some NotLittleEndian64
      else if f16 file 18 \<noteq> 62 then Some (UnsupportedMachine (f16 file 18))
      else if f16 file 16 \<noteq> 2 \<and> f16 file 16 \<noteq> 3 then Some (UnsupportedType (f16 file 16))
      else if f16 file 56 = 0 \<or> f16 file 54 \<noteq> 56 \<or>
              \<not> FitsIn (f64 file 32) (ucast (f16 file 56) * 56) (of_nat (length file)) then Some MalformedProgramHeaders
      else None)"

text \<open>What \<open>Open\<close> works out of the headers before it maps anything: the segments in order of their
  addresses, the start and the span of the reservation, and where the program headers place
  \<^verbatim>\<open>.eh_frame_hdr\<close>.\<close>

definition plan_image :: "u8 list \<Rightarrow> ELFError + LoadSegment list \<times> u64 \<times> u64 \<times> u64" where
  "plan_image file =
     (case check_ehdr file of
        Some e \<Rightarrow> Inl e
      | None \<Rightarrow>
          bindR (scan_phdrs file (unat (f64 file 32)) (unat (f16 file 56))
                   \<lparr>ps_segments = [], ps_min = NOT 0, ps_max = 0, ps_hdr = 0\<rparr>) (\<lambda>ps.
          if ps_segments ps = [] then Inl NoLoadSegments
          else let min_vaddr = RoundDown (ps_min ps) kPageSize;
                   span = RoundUp (ps_max ps) kPageSize - min_vaddr
               in if span > push_bit 40 1 then Inl (SpanTooLarge span)
                  else Inr (sort_key seg_vaddr (ps_segments ps), min_vaddr, span, ps_hdr ps)))"

text \<open>The object, once its segments are in place: sections, symbols and the fallback.\<close>

definition finish_image :: "u8 list \<Rightarrow> u64 \<Rightarrow> LoadSegment list \<Rightarrow> u64 \<Rightarrow> ELFImage" where
  "finish_image file b segs eh_frame_hdr_vaddr =
     eh_frame_fallback ((read_sections file
       \<lparr>img_mem = loaded_byte file b segs, img_bias = b, segments = segs, func_symbols = [],
        img_eh_frame_start = 0, img_eh_frame_end = 0, img_eh_frame_hdr = 0, plt_ranges = [],
        has_debug_line = False, has_debug_link = False\<rparr>)\<lparr>img_eh_frame_hdr := eh_frame_hdr_vaddr\<rparr>)"

definition Open :: "(u64 \<Rightarrow> u64 option) \<Rightarrow> (u64 \<Rightarrow> u64 \<Rightarrow> u64 \<Rightarrow> bool) \<Rightarrow> u8 list \<Rightarrow> ELFError + ELFImage" where
  "Open reserve map_ok file =
     bindR (plan_image file) (\<lambda>(segs, min_vaddr, span, eh_frame_hdr_vaddr).
       case reserve span of
         None \<Rightarrow> Inl (CannotReserve span)
       | Some img_addr \<Rightarrow>
           (let b = img_addr - min_vaddr in
            case map_segments map_ok b segs of
              Some e \<Rightarrow> Inl e
            | None \<Rightarrow> Inr (finish_image file b segs eh_frame_hdr_vaddr)))"

end
