(* ===== verification/Lsda_Reader.thy ===== *)
theory Lsda_Reader
  imports Elf_Image
begin

text \<open>
  \<^verbatim>\<open>lsda-reader.h\<close> and \<^verbatim>\<open>lsda-reader.cc\<close>: the call-site table of a \<open>.gcc_except_table\<close> entry.
  The cursor is the address it stands at. The loop over the call sites runs until the cursor
  passes the end of the table; an address that wraps around could keep it going, so it is a
  \<open>partial_function\<close> whose value \<open>None\<close> means that it does not return.
\<close>

record LSDACallSite =
  cs_start :: u64
  cs_end :: u64
  landing_pad :: u64

subsection \<open>The cursor\<close>

definition LSDA_ReadU8 :: "ELFImage \<Rightarrow> u64 \<Rightarrow> EHFrameError + u8 \<times> u64" where
  "LSDA_ReadU8 img v =
     (case BytesAt img v 1 of [] \<Rightarrow> Inl LSDAPastMapped | b # _ \<Rightarrow> Inr (b, v + 1))"

function LSDA_ReadUleb128_loop :: "ELFImage \<Rightarrow> u64 \<Rightarrow> nat \<Rightarrow> u64 \<Rightarrow> EHFrameError + u64 \<times> u64" where
  "LSDA_ReadUleb128_loop img acc k v =
     (if k \<ge> 64 then Inl LSDAUlebOverflow
      else bindR (LSDA_ReadU8 img v) (\<lambda>(byte, v').
        let acc' = acc OR push_bit k (ucast (byte AND 0x7f)) in
        if byte AND 0x80 = 0 then Inr (acc', v')
        else LSDA_ReadUleb128_loop img acc' (k + 7) v'))"
  by pat_completeness auto
termination
  by (relation "measure (\<lambda>(img, r, k, v). 64 - k)") auto

declare LSDA_ReadUleb128_loop.simps [simp del]

definition LSDA_ReadUleb128 :: "ELFImage \<Rightarrow> u64 \<Rightarrow> EHFrameError + u64 \<times> u64" where
  "LSDA_ReadUleb128 img v = LSDA_ReadUleb128_loop img 0 0 v"

definition ReadFixed :: "ELFImage \<Rightarrow> nat \<Rightarrow> bool \<Rightarrow> bool \<Rightarrow> u64 \<Rightarrow> EHFrameError + u64 \<times> u64" where
  "ReadFixed img n is_signed pcrel v =
     (let base = (if pcrel then v else 0); b = BytesAt img v (of_nat n) in
      if length b < n then Inl LSDATruncated
      else let raw = of_nat (le_nat (take n b)) :: u64; sign_bit = push_bit (n * 8 - 1) 1;
               raw' = (if is_signed \<and> n < 8 \<and> raw AND sign_bit \<noteq> 0 then raw OR NOT (push_bit 1 sign_bit - 1) else raw)
           in Inr (base + raw', v + of_nat n))"

definition ReadEncoded :: "ELFImage \<Rightarrow> u8 \<Rightarrow> u64 \<Rightarrow> EHFrameError + u64 \<times> u64" where
  "ReadEncoded img encoding v =
     (let lo = encoding AND 0x0f; hi = encoding AND 0xf0; pcrel = (hi = DW_EH_PE_pcrel) in
      if lo = DW_EH_PE_uleb128 then LSDA_ReadUleb128 img v
      else if \<not> pcrel \<and> hi \<noteq> 0 then Inl (LSDAUnsupportedEncoding encoding)
      else if lo = DW_EH_PE_udata2 then ReadFixed img 2 False pcrel v
      else if lo = DW_EH_PE_sdata4 then ReadFixed img 4 True pcrel v
      else if lo = DW_EH_PE_udata4 then ReadFixed img 4 False pcrel v
      else if lo = DW_EH_PE_sdata8 \<or> lo = DW_EH_PE_udata8 \<or> lo = DW_EH_PE_absptr then ReadFixed img 8 False pcrel v
      else Inl (LSDAUnsupportedEncoding encoding))"

subsection \<open>The call sites\<close>

text \<open>One record of the table: the call site it adds, if it has a landing pad.\<close>

definition read_call_site :: "ELFImage \<Rightarrow> u8 \<Rightarrow> u64 \<Rightarrow> u64 \<Rightarrow> EHFrameError + LSDACallSite list \<times> u64" where
  "read_call_site img enc lpstart v =
     bindR (ReadEncoded img enc v) (\<lambda>(start_offset, v).
     bindR (ReadEncoded img enc v) (\<lambda>(len, v).
     bindR (ReadEncoded img enc v) (\<lambda>(landing_pad_offset, v).
     bindR (LSDA_ReadUleb128 img v) (\<lambda>(_, v).
     Inr (if landing_pad_offset \<noteq> 0
          then [\<lparr>cs_start = lpstart + start_offset, cs_end = lpstart + start_offset + len,
                 landing_pad = lpstart + landing_pad_offset\<rparr>] else [], v)))))"

partial_function (option) call_site_loop ::
  "ELFImage \<Rightarrow> u8 \<Rightarrow> u64 \<Rightarrow> u64 \<Rightarrow> u64 \<Rightarrow> LSDACallSite list \<Rightarrow> (EHFrameError + LSDACallSite list) option" where
  "call_site_loop img enc lpstart table_end v call_sites =
     (if v < table_end
      then case read_call_site img enc lpstart v of
             Inl e \<Rightarrow> Some (Inl e)
           | Inr r \<Rightarrow> call_site_loop img enc lpstart table_end (snd r) (call_sites @ fst r)
      else Some (Inr call_sites))"

declare call_site_loop.simps [code]

record lsda_header =
  lpstart :: u64
  call_site_encoding :: u8
  table_start :: u64
  table_end :: u64

definition read_lsda_header :: "ELFImage \<Rightarrow> u64 \<Rightarrow> u64 \<Rightarrow> EHFrameError + lsda_header" where
  "read_lsda_header img lsda_vaddr fde_pc_begin =
     bindR (LSDA_ReadU8 img lsda_vaddr) (\<lambda>(start_encoding, v).
     bindR (if start_encoding \<noteq> DW_EH_PE_omitted then ReadEncoded img start_encoding v else Inr (fde_pc_begin, v)) (\<lambda>(lp, v).
     bindR (LSDA_ReadU8 img v) (\<lambda>(type_encoding, v).
     bindR (if type_encoding \<noteq> DW_EH_PE_omitted then LSDA_ReadUleb128 img v else Inr (0, v)) (\<lambda>(_, v).
     bindR (LSDA_ReadU8 img v) (\<lambda>(enc, v).
     bindR (LSDA_ReadUleb128 img v) (\<lambda>(len, v).
     Inr \<lparr>lpstart = lp, call_site_encoding = enc, table_start = v, table_end = v + len\<rparr>))))))"

definition ReadLSDACallSites :: "ELFImage \<Rightarrow> u64 \<Rightarrow> u64 \<Rightarrow> (EHFrameError + LSDACallSite list) option" where
  "ReadLSDACallSites img lsda_vaddr fde_pc_begin =
     (case read_lsda_header img lsda_vaddr fde_pc_begin of
        Inl e \<Rightarrow> Some (Inl e)
      | Inr h \<Rightarrow>
          map_option (\<lambda>r. bindR r (\<lambda>cs. Inr (sort_key cs_start cs)))
            (call_site_loop img (call_site_encoding h) (lpstart h) (table_end h) (table_start h) []))"

end
