(* ===== verification/Fde_Checker.thy ===== *)
theory Fde_Checker
  imports Insn_Semantics Lsda_Reader
begin

text \<open>
  \<^verbatim>\<open>fde-checker.h\<close> and \<^verbatim>\<open>fde-checker.cc\<close>: the check of one FDE. The members of
  \<open>class FDEChecker\<close> that a walk changes are the fields of the record \<open>FDEChecker\<close>, the ones it
  only reads are those of \<open>FDECheckerOptions\<close> and \<open>walk\<close>. Hash maps are association lists
  without duplicate keys (\<open>AList.update\<close>), the worklist is a list whose head is
  \<open>worklist_.back()\<close>. A pointer to a row of the table is its index. The value \<open>None\<close> of \<open>Run\<close>
  means that the call does not return: the two loops that are \<open>partial_function\<close>s may run
  forever, and \<open>FallThroughIsReal\<close> may dereference a null row.
\<close>

subsection \<open>Verdicts and findings\<close>

datatype Verdict = kBlessed | kReviewLight | kReview | kMismatch

datatype Severity = SevReview | SevMismatch

record Finding =
  f_severity :: Severity
  f_pc :: u64
  f_message :: string
  f_repeats :: nat

record GuessedJumpTable =
  gj_pc :: u64
  gj_table_addr :: u64
  gj_targets :: "u64 list"

record FDEResult =
  res_fde_addr :: u64
  res_pc_begin :: u64
  res_pc_end :: u64
  res_signal_frame :: bool
  verdict :: Verdict
  findings :: "Finding list"
  instructions_checked :: nat
  guessable_jump_pc :: "u64 option"
  guessed_jump_tables :: "GuessedJumpTable list"

record InsnTrace =
  tr_pc :: u64
  tr_state :: AbsState

record FDECheckerOptions =
  opt_image :: ELFImage
  opt_disasm :: zydis
  check_unmentioned_callee_saved :: bool
  report_coverage_gaps :: bool
  max_findings_per_fde :: nat
  max_iterations :: nat
  all_cfis :: "((u64 \<times> u64) \<times> CFI) list"

definition kCalleeSaved :: "nat list" where
  "kCalleeSaved = [kDWARFRbx, kDWARFRbp, 12, 13, 14, 15]"

definition kMaxJumpTableEntries :: nat where
  "kMaxJumpTableEntries = 512"

definition kUnresolvedIndirectJumpMsg :: string where
  "kUnresolvedIndirectJumpMsg =
     ''unresolved indirect jump; jump tables are not resolved in this version, so the code it reaches went unchecked''"

definition IsCalleeSaved :: "nat \<Rightarrow> bool" where
  "IsCalleeSaved r \<longleftrightarrow> r \<in> set kCalleeSaved"

subsection \<open>The sink\<close>

record FindingSink =
  sink_cap :: nat
  truncated :: nat
  sink_findings :: "Finding list"
  sink_index :: "(string \<times> nat) list"

definition FindingSink0 :: "nat \<Rightarrow> FindingSink" where
  "FindingSink0 c = \<lparr>sink_cap = c, truncated = 0, sink_findings = [], sink_index = []\<rparr>"

definition Add :: "Severity \<Rightarrow> u64 \<Rightarrow> string \<Rightarrow> FindingSink \<Rightarrow> FindingSink" where
  "Add sev pc msg k =
     (case map_of (sink_index k) msg of
        Some i \<Rightarrow> k\<lparr>sink_findings := (sink_findings k)[i := (sink_findings k ! i)\<lparr>f_repeats := f_repeats (sink_findings k ! i) + 1\<rparr>]\<rparr>
      | None \<Rightarrow>
          if length (sink_findings k) \<ge> sink_cap k then k\<lparr>truncated := truncated k + 1\<rparr>
          else k\<lparr>sink_index := AList.update msg (length (sink_findings k)) (sink_index k),
                 sink_findings := sink_findings k @ [\<lparr>f_severity = sev, f_pc = pc, f_message = msg, f_repeats = 0\<rparr>]\<rparr>)"

definition truncated_msg :: "nat \<Rightarrow> string" where
  "truncated_msg n = show_nat n @ '' further distinct findings not shown''"

definition Take :: "FindingSink \<Rightarrow> Finding list" where
  "Take k = sink_findings k @
     (if truncated k > 0 then [\<lparr>f_severity = SevReview, f_pc = 0, f_message = truncated_msg (truncated k), f_repeats = 0\<rparr>] else [])"

subsection \<open>Checking one row\<close>

text \<open>Each check of a row reports at most one finding; \<open>None\<close> is silence.\<close>

definition CheckCFA :: "CFARule \<Rightarrow> AbsState \<Rightarrow> (Severity \<times> string) option" where
  "CheckCFA cfa s =
     (case cfa_kind cfa of
        CFAUndefined \<Rightarrow> Some (SevReview, ''no CFA rule is in force here'')
      | CFAExpression \<Rightarrow> Some (SevReview, ''CFA is given by a DWARF expression, which this version does not evaluate'')
      | CFARegOffset \<Rightarrow>
          (let nm = DWARFRegName (int (cfa_reg cfa)); v = reg s (int (cfa_reg cfa)) in
           case v of
             CFARel d \<Rightarrow>
               if wrap64 (d + cfa_offset cfa) \<noteq> 0
               then Some (SevMismatch, ''declared CFA is '' @ CFARule_str cfa @ '', but '' @ nm @ '' is CFA'' @
                      fmt_plus_d (to_int32 d) @ '' here, so the rule yields CFA'' @ fmt_plus_d (to_int32 (d + cfa_offset cfa)) @
                      '' (should be '' @ nm @ fmt_plus_d (to_int32 (- d)) @ '')'')
               else None
           | _ \<Rightarrow> Some (SevReview, ''CFA is declared as '' @ CFARule_str cfa @ '', but '' @ nm @ '' holds '' @ AbsVal_str v @
                    '' here, so the rule cannot be verified'')))"

definition CheckSameValue :: "nat \<Rightarrow> AbsState \<Rightarrow> (Severity \<times> string) option" where
  "CheckSameValue r s =
     (let v = reg s (int r); nm = DWARFRegName (int r) in
      if is_unknown v
        then Some (SevReview, ''CFI says '' @ nm @ '' still holds its entry value, but we are not tracking it here'')
      else if \<not> IsOrigReg v r
        then Some (SevMismatch, ''CFI says '' @ nm @ '' still holds its entry value, but it holds '' @ AbsVal_str v)
      else None)"

definition CheckReg :: "bool \<Rightarrow> nat \<Rightarrow> RegRule \<Rightarrow> AbsState \<Rightarrow> (Severity \<times> string) option" where
  "CheckReg check_unset r rule s =
     (let nm = DWARFRegName (int r); off = fmt_plus_d (to_int32 (rule_offset rule)); via = DWARFRegName (int (rule_reg rule)) in
      case rule_kind rule of
        RUnset \<Rightarrow> if check_unset \<and> IsCalleeSaved r then CheckSameValue r s else None
      | RUndefined \<Rightarrow> None
      | RSameValue \<Rightarrow> CheckSameValue r s
      | RAtCFAOffset \<Rightarrow>
          (let at = Slot s (rule_offset rule) in
           if is_unknown at
             then Some (SevReview, ''CFI says '' @ nm @ '' is saved at [CFA'' @ off @ ''], but we cannot say what is stored there'')
           else if \<not> IsOrigReg at r
             then Some (SevMismatch, ''CFI says '' @ nm @ '' is saved at [CFA'' @ off @ ''], but that slot holds '' @ AbsVal_str at)
           else None)
      | RValOffset \<Rightarrow>
          (let v = reg s (int r) in
           if is_unknown v
             then Some (SevReview, ''CFI says '' @ nm @ '' is CFA'' @ off @ '', but we are not tracking it here'')
           else if \<not> IsCFARel v (rule_offset rule)
             then Some (SevMismatch, ''CFI says '' @ nm @ '' is CFA'' @ off @ '', but it holds '' @ AbsVal_str v)
           else None)
      | RInRegister \<Rightarrow>
          (let v = reg s (int (rule_reg rule)) in
           if is_unknown v
             then Some (SevReview, ''CFI says '' @ nm @ '' was moved into '' @ via @ '', but we are not tracking '' @ via @ '' here'')
           else if \<not> IsOrigReg v r
             then Some (SevMismatch, ''CFI says '' @ nm @ '' was moved into '' @ via @ '', but '' @ via @ '' holds '' @ AbsVal_str v)
           else None)
      | _ \<Rightarrow> Some (SevReview, nm @ '' is described by a DWARF expression, which this version does not evaluate''))"

text \<open>\<open>Review\<close> and \<open>Mismatch\<close>: the edge context is put before the message.\<close>

definition report :: "u64 \<Rightarrow> string \<Rightarrow> (Severity \<times> string) option \<Rightarrow> FindingSink \<Rightarrow> FindingSink" where
  "report pc edge_context r k = (case r of None \<Rightarrow> k | Some (sev, msg) \<Rightarrow> Add sev pc (edge_context @ msg) k)"

definition CheckRow :: "FDECheckerOptions \<Rightarrow> u64 \<Rightarrow> CFIRow \<Rightarrow> AbsState \<Rightarrow> string \<Rightarrow> bool \<Rightarrow> FindingSink \<Rightarrow> FindingSink" where
  "CheckRow opts pc row s edge_context force_callee_saved_same_value k =
     fold (\<lambda>r. report pc edge_context
                 (CheckReg (check_unmentioned_callee_saved opts \<or> force_callee_saved_same_value) r (row_regs row ! r) s))
       [0..<kNumDWARFRegs] (report pc edge_context (CheckCFA (row_cfa row) s) k)"

definition RowMatchesCleanly :: "FDECheckerOptions \<Rightarrow> u64 \<Rightarrow> CFIRow \<Rightarrow> AbsState \<Rightarrow> bool \<Rightarrow> bool" where
  "RowMatchesCleanly opts pc row s force \<longleftrightarrow> Take (CheckRow opts pc row s [] force (FindingSink0 1)) = []"

definition RowDependsOn :: "CFIRow \<Rightarrow> JoinConflict \<Rightarrow> bool" where
  "RowDependsOn row c =
     (if jc_reg c = kSlotConflict
      then \<exists>rule \<in> set (row_regs row). rule_kind rule = RAtCFAOffset \<and> rule_offset rule = jc_offset c
      else if cfa_kind (row_cfa row) = CFARegOffset \<and> int (cfa_reg (row_cfa row)) = jc_reg c then True
      else \<exists>r \<in> set [0..<kNumDWARFRegs].
        (let rule = row_regs row ! r in
         rule_kind rule = RInRegister \<and> int (rule_reg rule) = jc_reg c \<or>
         int r = jc_reg c \<and> (rule_kind rule = RSameValue \<or> rule_kind rule = RValOffset)))"

subsection \<open>Whether a fall-through is real\<close>

definition CFASatisfiedBy :: "CFARule \<Rightarrow> AbsVal \<Rightarrow> bool" where
  "CFASatisfiedBy cfa v \<longleftrightarrow> (case v of CFARel d \<Rightarrow> wrap64 (d + cfa_offset cfa) = 0 | _ \<Rightarrow> False)"

definition RowLooksLikeFreshBlockStart :: "CFIRow \<Rightarrow> bool" where
  "RowLooksLikeFreshBlockStart row \<longleftrightarrow>
     (\<forall>r \<in> set [0..<kNumDWARFRegs]. r = kDWARFRip \<or> rule_kind (row_regs row ! r) = RUnset)"

text \<open>The row \<open>RowAt\<close> points to, as its index.\<close>

definition RowIndexAt :: "CFI \<Rightarrow> u64 \<Rightarrow> nat option" where
  "RowIndexAt cfi pc =
     (if pc < pc_begin cfi \<or> pc \<ge> pc_end cfi \<or> rows cfi = [] then None
      else let i = upper_bound_idx pc_start pc (rows cfi) in if i = 0 then None else Some (i - 1))"

text \<open>\<open>None\<close> is the dereference of a null \<open>here\<close>.\<close>

definition FallThroughIsReal ::
  "CFI \<Rightarrow> nat option \<Rightarrow> u64 \<Rightarrow> AbsVal list \<Rightarrow> AbsState \<Rightarrow> bool \<Rightarrow> bool option" where
  "FallThroughIsReal cfi here next_pc before after after_call =
     (case RowIndexAt cfi next_pc of
        None \<Rightarrow> Some True
      | Some j \<Rightarrow>
          if here = Some j then Some True
          else let row = rows cfi ! j;
                   by_cfa = (if cfa_kind (row_cfa row) \<noteq> CFARegOffset \<or> cfa_reg (row_cfa row) \<ge> kNumGPRs then True
                             else let was = before ! cfa_reg (row_cfa row); now = reg after (int (cfa_reg (row_cfa row)))
                                  in if \<not> is_cfarel was \<or> \<not> is_cfarel now then True
                                     else CFASatisfiedBy (row_cfa row) now \<or> CFASatisfiedBy (row_cfa row) was)
               in if after_call \<and> RowLooksLikeFreshBlockStart row
                  then (case here of
                          None \<Rightarrow> None
                        | Some h \<Rightarrow> if \<not> RowLooksLikeFreshBlockStart (rows cfi ! h) then Some False else Some by_cfa)
                  else Some by_cfa)"

definition IsExitState :: "AbsState \<Rightarrow> bool" where
  "IsExitState s \<longleftrightarrow>
     IsCFARel (reg s (int kDWARFRsp)) (- 8) \<and> (\<forall>r \<in> set kCalleeSaved. IsOrigReg (reg s (int r)) r)"

subsection \<open>Jump tables\<close>

record walk =
  options :: FDECheckerOptions
  cfi :: CFI
  at_function_entry :: bool
  guessing_enabled :: bool

definition CFIContaining :: "((u64 \<times> u64) \<times> CFI) list \<Rightarrow> u64 \<Rightarrow> CFI option" where
  "CFIContaining cfi_index pc =
     (case last_le (\<lambda>e. fst (fst e)) pc cfi_index of
        None \<Rightarrow> None
      | Some e \<Rightarrow> if pc < fst (fst e) \<or> pc \<ge> snd (fst e) then None else Some (snd e))"

definition LandsInsideSomeFDE :: "((u64 \<times> u64) \<times> CFI) list \<Rightarrow> u64 \<Rightarrow> bool" where
  "LandsInsideSomeFDE cfi_index addr \<longleftrightarrow> CFIContaining cfi_index addr \<noteq> None"

definition ResolveTableEntry :: "FDECheckerOptions \<Rightarrow> u64 \<Rightarrow> nat \<Rightarrow> u64 option" where
  "ResolveTableEntry opts table_addr index =
     (let img = opt_image opts; entry_addr = table_addr + of_nat index * 4; bytes = BytesAt img entry_addr 4;
          target = table_addr + scast (of_nat (le_nat bytes) :: u32)
      in if \<not> IsFileBackedNonExecutable img entry_addr 4 then None
         else if length bytes \<noteq> 4 then None
         else if \<not> LandsInsideSomeFDE (all_cfis opts) target then None
         else if Decode (opt_disasm opts) (BytesAt img target 16) target = None then None
         else Some target)"

text \<open>The loop over the entries of a table; \<open>None\<close> when one of them is rejected.\<close>

fun resolve_entries :: "FDECheckerOptions \<Rightarrow> u64 \<Rightarrow> nat list \<Rightarrow> u64 list option" where
  "resolve_entries opts table_addr [] = Some []"
| "resolve_entries opts table_addr (i # is) =
     (case ResolveTableEntry opts table_addr i of
        None \<Rightarrow> None
      | Some target \<Rightarrow> map_option ((#) target) (resolve_entries opts table_addr is))"

definition ResolveJumpTable :: "FDECheckerOptions \<Rightarrow> u64 \<Rightarrow> u64 \<Rightarrow> u64 list" where
  "ResolveJumpTable opts table_addr entries =
     (if entries = 0 \<or> unat entries > kMaxJumpTableEntries then []
      else if \<not> IsFileBackedNonExecutable (opt_image opts) table_addr (entries * 4) then []
      else case resolve_entries opts table_addr [0..<unat entries] of None \<Rightarrow> [] | Some targets \<Rightarrow> targets)"

definition probe_compatible :: "walk \<Rightarrow> u64 \<Rightarrow> AbsState \<Rightarrow> u64 \<Rightarrow> bool" where
  "probe_compatible w jmp_pc s target =
     (let opts = options w in
      if target \<ge> pc_begin (cfi w) \<and> target < pc_end (cfi w)
      then (case RowAt (cfi w) target of
              None \<Rightarrow> False
            | Some row \<Rightarrow> RowMatchesCleanly opts jmp_pc row s False)
      else case CFIContaining (all_cfis opts) target of
             None \<Rightarrow> False
           | Some target_cfi \<Rightarrow>
               (case RowAt target_cfi target of
                  None \<Rightarrow> False
                | Some target_row \<Rightarrow>
                    RowMatchesCleanly opts jmp_pc target_row s (target = pc_begin target_cfi \<and> IsCanonicalEntry target_row)))"

fun probe_from :: "walk \<Rightarrow> u64 \<Rightarrow> u64 \<Rightarrow> AbsState \<Rightarrow> nat \<Rightarrow> nat \<Rightarrow> u64 list" where
  "probe_from w table_addr jmp_pc s index 0 = []"
| "probe_from w table_addr jmp_pc s index (Suc room) =
     (case ResolveTableEntry (options w) table_addr index of
        None \<Rightarrow> []
      | Some target \<Rightarrow>
          if probe_compatible w jmp_pc s target then target # probe_from w table_addr jmp_pc s (index + 1) room else [])"

definition ProbeJumpTable :: "walk \<Rightarrow> u64 \<Rightarrow> u64 \<Rightarrow> AbsState \<Rightarrow> u64 list" where
  "ProbeJumpTable w table_addr jmp_pc s = probe_from w table_addr jmp_pc s 0 kMaxJumpTableEntries"

end
