(* ===== verification/Fde_Walk.thy ===== *)
theory Fde_Walk
  imports Fde_Checker
begin

text \<open>
  The walk of \<^verbatim>\<open>fde-checker.cc\<close>: the forward dataflow (\<open>Propagate\<close>, \<open>Drain\<close>), the fallback for
  landing pads, the verification pass over the settled states, the coverage gaps, \<open>Run\<close>,
  \<open>Check\<close> and \<open>CheckWithGuessing\<close>. One iteration of \<open>Drain\<close> propagates a fixed list of edges,
  which \<open>flow_edges\<close> computes in the order the code visits them; the counters that are only
  logged are left out.
\<close>

subsection \<open>The state of a walk\<close>

record FDEChecker =
  sink :: FindingSink
  in_states :: "(u64 \<times> AbsState) list"
  insn_sizes :: "(u64 \<times> nat) list"
  join_conflicts :: "(u64 \<times> JoinConflict list) list"
  worklist :: "u64 list"
  pending_pushes :: "(u64 \<times> bool) list"
  call_sites :: "LSDACallSite list"
  iterations :: nat
  hit_cap :: bool
  null_deref :: bool
  is_canonical_entry :: bool
  unbounded_jump_count :: nat
  unbounded_jump_pc :: u64
  trace :: "InsnTrace list"
  checked :: nat
  guessed :: "GuessedJumpTable list"

definition FDEChecker0 :: "nat \<Rightarrow> FDEChecker" where
  "FDEChecker0 max_findings =
     \<lparr>sink = FindingSink0 max_findings, in_states = [], insn_sizes = [], join_conflicts = [], worklist = [],
      pending_pushes = [], call_sites = [], iterations = 0, hit_cap = False, null_deref = False,
      is_canonical_entry = False, unbounded_jump_count = 0, unbounded_jump_pc = 0, trace = [], checked = 0, guessed = []\<rparr>"

definition pending :: "FDEChecker \<Rightarrow> u64 \<Rightarrow> bool" where
  "pending st pc = (case map_of (pending_pushes st) pc of Some b \<Rightarrow> b | None \<Rightarrow> False)"

definition state_at :: "FDEChecker \<Rightarrow> u64 \<Rightarrow> AbsState" where
  "state_at st pc = (case map_of (in_states st) pc of Some s \<Rightarrow> s | None \<Rightarrow> AbsState0)"

definition in_fde :: "CFI \<Rightarrow> u64 \<Rightarrow> bool" where
  "in_fde c pc \<longleftrightarrow> pc \<ge> pc_begin c \<and> pc < pc_end c"

definition AddFinding :: "Severity \<Rightarrow> u64 \<Rightarrow> string \<Rightarrow> FDEChecker \<Rightarrow> FDEChecker" where
  "AddFinding sev pc msg st = st\<lparr>sink := Add sev pc msg (sink st)\<rparr>"

subsection \<open>Entry row and call sites\<close>

definition entry_row_msg :: "CFIRow \<Rightarrow> string" where
  "entry_row_msg row =
     ''a function symbol starts here and we expect canonical entry CFI but we got: '' @ CFIRow_str row"

definition CheckEntryRow :: "walk \<Rightarrow> CFIRow \<Rightarrow> FDEChecker \<Rightarrow> FDEChecker" where
  "CheckEntryRow w first_row st =
     (if at_function_entry w \<and> \<not> is_canonical_entry st
      then AddFinding SevReview (pc_begin (cfi w)) (entry_row_msg first_row) st else st)"

definition lsda_msg :: "u64 \<Rightarrow> EHFrameError \<Rightarrow> string" where
  "lsda_msg addr e =
     ''failed to parse this FDE's LSDA (.gcc_except_table) at 0x'' @ hex016 addr @ '': '' @ what e"

definition SetupCallSites :: "walk \<Rightarrow> FDEChecker \<Rightarrow> FDEChecker option" where
  "SetupCallSites w st =
     (if lsda_addr (cfi w) = 0 then Some st
      else case ReadLSDACallSites (opt_image (options w)) (lsda_addr (cfi w)) (pc_begin (cfi w)) of
             None \<Rightarrow> None
           | Some (Inl e) \<Rightarrow> Some (AddFinding SevReview (pc_begin (cfi w)) (lsda_msg (lsda_addr (cfi w)) e) st)
           | Some (Inr sites) \<Rightarrow> Some (st\<lparr>call_sites := filter (\<lambda>cs. in_fde (cfi w) (landing_pad cs)) sites\<rparr>))"

definition LandingPadForCall :: "LSDACallSite list \<Rightarrow> u64 \<Rightarrow> u64 option" where
  "LandingPadForCall sites call_pc =
     (case last_le cs_start call_pc sites of
        None \<Rightarrow> None
      | Some cs \<Rightarrow> if call_pc \<ge> cs_start cs \<and> call_pc < cs_end cs then Some (landing_pad cs) else None)"

subsection \<open>Pass 1: forward dataflow\<close>

definition Propagate :: "u64 \<Rightarrow> AbsState \<Rightarrow> FDEChecker \<Rightarrow> FDEChecker" where
  "Propagate pc s st =
     (case map_of (in_states st) pc of
        None \<Rightarrow> st\<lparr>in_states := AList.update pc s (in_states st), worklist := pc # worklist st,
                   pending_pushes := AList.update pc True (pending_pushes st)\<rparr>
      | Some old \<Rightarrow>
          (case Join s old of (changed, joined, conflicts) \<Rightarrow>
             let st1 = st\<lparr>in_states := AList.update pc joined (in_states st)\<rparr>;
                 st2 = (if conflicts \<noteq> []
                        then st1\<lparr>join_conflicts := AList.update pc
                               ((case map_of (join_conflicts st1) pc of Some l \<Rightarrow> l | None \<Rightarrow> []) @ conflicts)
                               (join_conflicts st1)\<rparr>
                        else st1)
             in if changed \<and> \<not> pending st2 pc
                then st2\<lparr>pending_pushes := AList.update pc True (pending_pushes st2), worklist := pc # worklist st2\<rparr>
                else st2))"

definition DecodeAt :: "walk \<Rightarrow> u64 \<Rightarrow> Instruction option" where
  "DecodeAt w pc =
     Decode (opt_disasm (options w)) (BytesAt (opt_image (options w)) pc (min 16 (pc_end (cfi w) - pc))) pc"

text \<open>The edges one iteration of \<open>Drain\<close> propagates along, each with the state it carries.
  \<open>None\<close> is a null dereference in \<open>FallThroughIsReal\<close>.\<close>

definition call_edges :: "LSDACallSite list \<Rightarrow> u64 \<Rightarrow> TransferOutcome \<Rightarrow> AbsState \<Rightarrow> (u64 \<times> AbsState) list" where
  "call_edges sites pc out s =
     (if is_call out then (case LandingPadForCall sites pc of Some lp \<Rightarrow> [(lp, s)] | None \<Rightarrow> []) else [])"

definition fall_through_edges ::
  "walk \<Rightarrow> u64 \<Rightarrow> Instruction \<Rightarrow> AbsVal list \<Rightarrow> TransferOutcome \<Rightarrow> AbsState \<Rightarrow> (u64 \<times> AbsState) list option" where
  "fall_through_edges w pc i before out s =
     (let next_pc = pc + of_nat (insn_size i) in
      if falls_through out \<and> next_pc < pc_end (cfi w)
      then map_option (\<lambda>real. if real then [(next_pc, TransferEdge i kFallThrough s)] else [])
             (FallThroughIsReal (cfi w) (RowIndexAt (cfi w) pc) next_pc before s (is_call out))
      else Some [])"

definition direct_edges :: "walk \<Rightarrow> Instruction \<Rightarrow> TransferOutcome \<Rightarrow> AbsState \<Rightarrow> (u64 \<times> AbsState) list" where
  "direct_edges w i out s =
     (if has_direct_target out \<and> in_fde (cfi w) (direct_target out)
      then [(direct_target out, TransferEdge i kTaken s)] else [])"

definition table_edges :: "walk \<Rightarrow> u64 \<Rightarrow> TransferOutcome \<Rightarrow> AbsState \<Rightarrow> (u64 \<times> AbsState) list" where
  "table_edges w pc out s =
     map (\<lambda>target. (target, s)) (filter (in_fde (cfi w))
       (if has_jump_table out then ResolveJumpTable (options w) (jump_table_addr out) (jump_table_entries out)
        else if guessing_enabled w \<and> has_unbounded_jump_target out
          then ProbeJumpTable w (unbounded_jump_table_addr out) pc s
        else []))"

definition flow_edges ::
  "walk \<Rightarrow> LSDACallSite list \<Rightarrow> u64 \<Rightarrow> Instruction \<Rightarrow> AbsState \<Rightarrow> (u64 \<times> AbsState) list option" where
  "flow_edges w sites pc i s0 =
     (case Transfer (opt_disasm (options w)) i s0 of (out, s) \<Rightarrow>
        map_option (\<lambda>ft. call_edges sites pc out s @ ft @ direct_edges w i out s @ table_edges w pc out s)
          (fall_through_edges w pc i (gpr s0) out s))"

definition propagate_all :: "(u64 \<times> AbsState) list \<Rightarrow> FDEChecker \<Rightarrow> FDEChecker" where
  "propagate_all edges st = fold (\<lambda>(pc, s). Propagate pc s) edges st"

text \<open>One iteration, after \<open>pc\<close> has been popped.\<close>

definition drain_step :: "walk \<Rightarrow> u64 \<Rightarrow> FDEChecker \<Rightarrow> FDEChecker" where
  "drain_step w pc st =
     (case DecodeAt w pc of
        None \<Rightarrow> st
      | Some i \<Rightarrow>
          (case flow_edges w (call_sites st) pc i (state_at st pc) of
             None \<Rightarrow> st\<lparr>null_deref := True\<rparr>
           | Some edges \<Rightarrow> propagate_all edges (st\<lparr>insn_sizes := AList.update pc (insn_size i) (insn_sizes st)\<rparr>)))"

definition pop_worklist :: "FDEChecker \<Rightarrow> FDEChecker" where
  "pop_worklist st =
     st\<lparr>worklist := tl (worklist st), pending_pushes := AList.update (hd (worklist st)) False (pending_pushes st)\<rparr>"

text \<open>
  \<open>Drain\<close> makes at most \<open>max_iterations\<close> steps in all, so the recursion is on what is left of
  them. A walk that has dereferenced null goes no further.
\<close>

function Drain :: "walk \<Rightarrow> FDEChecker \<Rightarrow> FDEChecker" where
  "Drain w st =
     (if worklist st = [] \<or> null_deref st then st
      else let st1 = st\<lparr>iterations := iterations st + 1\<rparr> in
        if iterations st1 > max_iterations (options w) then st1\<lparr>hit_cap := True\<rparr>
        else Drain w ((drain_step w (hd (worklist st)) (pop_worklist st1))\<lparr>iterations := iterations st1\<rparr>))"
  by pat_completeness auto
termination
  by (relation "measure (\<lambda>(w, st). max_iterations (options w) - iterations st)") auto

declare Drain.simps [simp del]

subsection \<open>Landing pads nothing reached\<close>

definition landing_pad_msg :: string where
  "landing_pad_msg =
     ''this landing pad's incoming state could not be derived from any call site actually walked, so it is '' @
     ''trusted from its own declared CFI row instead of independently checked''"

definition seed_landing_pad :: "walk \<Rightarrow> u64 \<Rightarrow> bool \<times> FDEChecker \<Rightarrow> bool \<times> FDEChecker" where
  "seed_landing_pad w lp p = (case p of (seeded_any, st) \<Rightarrow>
     if map_of (in_states st) lp \<noteq> None then (seeded_any, st)
     else case RowAt (cfi w) lp of
            None \<Rightarrow> (seeded_any, st)
          | Some row \<Rightarrow> (True, Propagate lp (SeedFromRow row False) (AddFinding SevReview lp landing_pad_msg st)))"

definition SeedUnreachedLandingPads :: "walk \<Rightarrow> FDEChecker \<Rightarrow> FDEChecker" where
  "SeedUnreachedLandingPads w st =
     (case fold (seed_landing_pad w) (remdups_adj (sort (map landing_pad (call_sites st)))) (False, st) of
        (seeded_any, st') \<Rightarrow> if seeded_any then Drain w st' else st')"

subsection \<open>Pass 2: verification\<close>

definition cross_edge_context :: "u64 \<Rightarrow> u64 \<Rightarrow> string" where
  "cross_edge_context target addr = ''jump to 0x'' @ fmt_x target @ '' (FDE at 0x'' @ fmt_x addr @ ''): ''"

text \<open>\<open>CheckCrossFDEEdge\<close>: \<open>None\<close> when no FDE covers the target.\<close>

definition CheckCrossFDEEdge :: "walk \<Rightarrow> u64 \<Rightarrow> u64 \<Rightarrow> AbsState \<Rightarrow> FDEChecker \<Rightarrow> FDEChecker option" where
  "CheckCrossFDEEdge w edge_pc target edge_state st =
     (case CFIContaining (all_cfis (options w)) target of
        None \<Rightarrow> None
      | Some target_cfi \<Rightarrow>
          (case RowAt target_cfi target of
             None \<Rightarrow> None
           | Some target_row \<Rightarrow>
               Some (st\<lparr>sink := CheckRow (options w) edge_pc target_row edge_state
                                  (cross_edge_context target (fde_addr target_cfi))
                                  (target = pc_begin target_cfi \<and> IsCanonicalEntry target_row) (sink st)\<rparr>)))"

definition exit_noncanonical_msg :: "string \<Rightarrow> string" where
  "exit_noncanonical_msg context = context @ '' in an FDE that did not start at a canonical function entry''"

definition exit_tail_rsp_msg :: "int64 \<Rightarrow> string" where
  "exit_tail_rsp_msg d =
     ''unconditional jump out of FDE to an address with no covering FDE, with rsp at CFA'' @ fmt_plus_d (to_int32 d) @
     '' (should be CFA-8 for a tail call; could be a branch to a noreturn call, or into code with no CFI at all)''"

definition exit_rsp :: "bool \<Rightarrow> AbsVal \<Rightarrow> string \<Rightarrow> (Severity \<times> string) option" where
  "exit_rsp is_tail_call rsp context =
     (if is_unknown rsp then Some (SevReview, context @ '' with untracked rsp ('' @ AbsVal_str rsp @ '')'')
      else if \<not> IsCFARel rsp (- 8)
        then if is_tail_call then Some (SevReview, exit_tail_rsp_msg (delta rsp))
             else Some (SevMismatch, ''return with rsp at CFA'' @ fmt_plus_d (delta rsp) @ '' (should be CFA-8)'')
      else None)"

definition exit_reg :: "AbsState \<Rightarrow> string \<Rightarrow> nat \<Rightarrow> (Severity \<times> string) option" where
  "exit_reg s context r =
     (let v = reg s (int r); nm = DWARFRegName (int r) in
      if is_unknown v
        then Some (SevReview, context @ '' with untracked callee-saved register '' @ nm @ '' ('' @ AbsVal_str v @ '')'')
      else if \<not> IsOrigReg v r
        then Some (SevMismatch, context @ '' with callee-saved register '' @ nm @ '' holding '' @ AbsVal_str v @
               '' (entry value was not restored)'')
      else None)"

definition exit_ra :: "AbsState \<Rightarrow> string \<Rightarrow> (Severity \<times> string) option" where
  "exit_ra s context =
     (let ra = Slot s (- 8) in
      if is_unknown ra
        then Some (SevReview, context @ '' with untracked return address slot at [CFA-8] ('' @ AbsVal_str ra @ '')'')
      else if \<not> IsOrigReg ra kDWARFRip
        then Some (SevMismatch, context @ '' with return address slot at [CFA-8] holding '' @ AbsVal_str ra @ '' (overwritten)'')
      else None)"

definition CheckExitState :: "u64 \<Rightarrow> AbsState \<Rightarrow> bool \<Rightarrow> FDEChecker \<Rightarrow> FDEChecker" where
  "CheckExitState pc s is_tail_call st =
     (let context = (if is_tail_call then ''tail call'' else ''return'') in
      if \<not> is_canonical_entry st then AddFinding SevReview pc (exit_noncanonical_msg context) st
      else let rsp = reg s (int kDWARFRsp);
               k1 = report pc [] (exit_rsp is_tail_call rsp context) (sink st);
               ambiguous_tail_call = is_tail_call \<and> \<not> IsCFARel rsp (- 8)
           in st\<lparr>sink := (if ambiguous_tail_call then k1
                          else report pc [] (exit_ra s context)
                                 (fold (\<lambda>r. report pc [] (exit_reg s context r)) kCalleeSaved k1))\<rparr>)"

definition disagree_msg :: "JoinConflict \<Rightarrow> string" where
  "disagree_msg c =
     ''paths into this address disagree: '' @ Describe c @
     '' -- one of them must contradict the single CFI row here, unless one of them is not really reachable''"

definition outside_msg :: "string \<Rightarrow> u64 \<Rightarrow> string" where
  "outside_msg kind target =
     kind @ '' switch-table entry at 0x'' @ fmt_x target @
     '' lands outside this FDE's range and no FDE covers it, so there is no declared row to check it against''"

definition verify_target :: "walk \<Rightarrow> u64 \<Rightarrow> AbsState \<Rightarrow> string \<Rightarrow> u64 \<Rightarrow> FDEChecker \<Rightarrow> FDEChecker" where
  "verify_target w pc s kind target st =
     (if in_fde (cfi w) target then st
      else case CheckCrossFDEEdge w pc target s st of
             Some st' \<Rightarrow> st'
           | None \<Rightarrow> AddFinding SevReview pc (outside_msg kind target) st)"

definition verify_conflicts :: "u64 \<Rightarrow> CFIRow option \<Rightarrow> FDEChecker \<Rightarrow> FDEChecker" where
  "verify_conflicts pc row st =
     (case map_of (join_conflicts st) pc of
        None \<Rightarrow> st
      | Some cs \<Rightarrow>
          fold (\<lambda>c st. case row of
                          None \<Rightarrow> st
                        | Some rw \<Rightarrow> if RowDependsOn rw c then AddFinding SevReview pc (disagree_msg c) st else st) cs st)"

definition verify_unbounded :: "walk \<Rightarrow> u64 \<Rightarrow> AbsState \<Rightarrow> TransferOutcome \<Rightarrow> FDEChecker \<Rightarrow> FDEChecker" where
  "verify_unbounded w pc s out st =
     (let st1 = st\<lparr>unbounded_jump_count := unbounded_jump_count st + 1, unbounded_jump_pc := pc\<rparr>;
          targets = (if guessing_enabled w then ProbeJumpTable w (unbounded_jump_table_addr out) pc s else [])
      in if targets \<noteq> []
         then fold (verify_target w pc s ''guessed'') targets
                (st1\<lparr>guessed := guessed st1 @ [\<lparr>gj_pc = pc, gj_table_addr = unbounded_jump_table_addr out, gj_targets = targets\<rparr>]\<rparr>)
         else AddFinding SevReview pc kUnresolvedIndirectJumpMsg st1)"

definition verify_outcome :: "walk \<Rightarrow> u64 \<Rightarrow> AbsState \<Rightarrow> TransferOutcome \<Rightarrow> FDEChecker \<Rightarrow> FDEChecker" where
  "verify_outcome w pc s out st =
     (if has_jump_table out
        then (let targets = ResolveJumpTable (options w) (jump_table_addr out) (jump_table_entries out) in
              if targets = [] then AddFinding SevReview pc kUnresolvedIndirectJumpMsg st
              else fold (verify_target w pc s ''resolved'') targets st)
      else if has_unbounded_jump_target out then verify_unbounded w pc s out st
      else if is_return out then CheckExitState pc s False st
      else if has_direct_target out \<and> \<not> in_fde (cfi w) (direct_target out)
        then (case CheckCrossFDEEdge w pc (direct_target out) s st of
                Some st' \<Rightarrow> st'
              | None \<Rightarrow> CheckExitState pc s True st)
      else if indirect_branch out
        then if is_canonical_entry st \<and> IsExitState s then st
             else AddFinding SevReview pc kUnresolvedIndirectJumpMsg st
      else st)"

definition verify_insn :: "walk \<Rightarrow> u64 \<Rightarrow> FDEChecker \<Rightarrow> FDEChecker" where
  "verify_insn w pc st0 =
     (let s = state_at st0 pc; st = st0\<lparr>trace := trace st0 @ [\<lparr>tr_pc = pc, tr_state = s\<rparr>]\<rparr> in
      case DecodeAt w pc of
        None \<Rightarrow> AddFinding SevReview pc ''cannot decode the instruction at this address'' st
      | Some i \<Rightarrow>
          if pc + of_nat (insn_size i) > pc_end (cfi w)
            then AddFinding SevReview pc ''instruction runs past the end of the FDE's PC range'' st
          else let st1 = st\<lparr>checked := checked st + 1\<rparr>;
                   row = RowAt (cfi w) pc;
                   st2 = (case row of
                            None \<Rightarrow> AddFinding SevReview pc ''no CFI row covers this address'' st1
                          | Some rw \<Rightarrow> st1\<lparr>sink := CheckRow (options w) pc rw s [] False (sink st1)\<rparr>);
                   st3 = verify_conflicts pc row st2;
                   out = fst (Transfer (opt_disasm (options w)) i s);
                   st4 = (if review_reason out \<noteq> [] then AddFinding SevReview pc (review_reason out) st3 else st3)
               in verify_outcome w pc s out st4)"

definition VerifyPass :: "walk \<Rightarrow> FDEChecker \<Rightarrow> FDEChecker" where
  "VerifyPass w st = fold (verify_insn w) (sort (map fst (in_states st))) st"

subsection \<open>Coverage gaps\<close>

partial_function (option) scan_gap :: "walk \<Rightarrow> (u64 \<times> nat) list \<Rightarrow> u64 \<Rightarrow> bool \<Rightarrow> (u64 \<times> bool) option" where
  "scan_gap w sizes pc all_padding =
     (if pc < pc_end (cfi w) \<and> map_of sizes pc = None
      then case DecodeAt w pc of
             None \<Rightarrow> scan_gap w sizes (pc + 1) False
           | Some i \<Rightarrow> scan_gap w sizes (pc + of_nat (insn_size i)) (all_padding \<and> insn_id i \<in> set [NOP, INT3])
      else Some (pc, all_padding))"

declare scan_gap.simps [code]

definition gap_msg :: "u64 \<Rightarrow> string" where
  "gap_msg n =
     show_nat (unat n) @ '' bytes from here were not reached by the control-flow walk, so their CFI went '' @
     ''unchecked (exception landing pads and jump-table targets look like this)''"

partial_function (option) gaps_loop :: "walk \<Rightarrow> (u64 \<times> nat) list \<Rightarrow> u64 \<Rightarrow> FindingSink \<Rightarrow> FindingSink option" where
  "gaps_loop w sizes pc k =
     (if pc < pc_end (cfi w)
      then case map_of sizes pc of
             Some n \<Rightarrow> gaps_loop w sizes (pc + of_nat n) k
           | None \<Rightarrow>
               Option.bind (scan_gap w sizes pc True) (\<lambda>r.
                 gaps_loop w sizes (fst r) (if snd r then k else Add SevReview pc (gap_msg (fst r - pc)) k))
      else Some k)"

declare gaps_loop.simps [code]

definition ReportCoverageGaps :: "walk \<Rightarrow> FDEChecker \<Rightarrow> FDEChecker option" where
  "ReportCoverageGaps w st =
     (if \<not> report_coverage_gaps (options w) then Some st
      else map_option (\<lambda>k. st\<lparr>sink := k\<rparr>) (gaps_loop w (insn_sizes st) (pc_begin (cfi w)) (sink st)))"

subsection \<open>Run\<close>

definition gave_up_msg :: "nat \<Rightarrow> string" where
  "gave_up_msg n = ''analysis gave up after '' @ show_nat n @ '' dataflow steps''"

fun verdict_of :: "Finding list \<Rightarrow> Verdict \<Rightarrow> Verdict" where
  "verdict_of [] v = v"
| "verdict_of (f # fs) v = (if f_severity f = SevMismatch then kMismatch else verdict_of fs kReview)"

definition result0 :: "CFI \<Rightarrow> FDEResult" where
  "result0 c =
     \<lparr>res_fde_addr = fde_addr c, res_pc_begin = pc_begin c, res_pc_end = pc_end c, res_signal_frame = signal_frame c,
      verdict = kBlessed, findings = [], instructions_checked = 0, guessable_jump_pc = None, guessed_jump_tables = []\<rparr>"

text \<open>Pass 1 from the first row on: what \<open>Run\<close> does up to the verification pass.\<close>

definition dataflow :: "walk \<Rightarrow> CFIRow \<Rightarrow> FDEChecker option" where
  "dataflow w first_row =
     (let canonical = IsCanonicalEntry first_row;
          st0 = (FDEChecker0 (max_findings_per_fde (options w)))\<lparr>is_canonical_entry := canonical\<rparr>
      in map_option (\<lambda>st. SeedUnreachedLandingPads w
                            (Drain w (Propagate (pc_begin (cfi w)) (SeedFromRow first_row canonical) st)))
           (SetupCallSites w (CheckEntryRow w first_row st0)))"

definition finish :: "walk \<Rightarrow> FDEChecker \<Rightarrow> FDEResult" where
  "finish w st =
     (let fs = Take (sink st) in
      (result0 (cfi w))\<lparr>findings := fs, verdict := verdict_of fs kBlessed, instructions_checked := checked st,
         guessable_jump_pc := (if unbounded_jump_count st = 1 then Some (unbounded_jump_pc st) else None),
         guessed_jump_tables := guessed st\<rparr>)"

definition Run :: "walk \<Rightarrow> (FDEResult \<times> InsnTrace list) option" where
  "Run w =
     (case RowAt (cfi w) (pc_begin (cfi w)) of
        None \<Rightarrow>
          Some ((result0 (cfi w))\<lparr>findings := Take (Add SevReview (pc_begin (cfi w)) ''no CFI row covers the start of this FDE''
                                                   (FindingSink0 (max_findings_per_fde (options w)))), verdict := kReview\<rparr>, [])
      | Some first_row \<Rightarrow>
          if rule_kind (row_regs first_row ! kDWARFRip) = RUndefined then Some (result0 (cfi w), [])
          else Option.bind (dataflow w first_row) (\<lambda>st.
            if null_deref st then None
            else let st1 = (if hit_cap st
                            then AddFinding SevReview (pc_begin (cfi w)) (gave_up_msg (max_iterations (options w))) st else st)
                 in map_option (\<lambda>st2. (finish w st2, trace st2)) (ReportCoverageGaps w (VerifyPass w st1))))"

definition Check :: "FDECheckerOptions \<Rightarrow> CFI \<Rightarrow> bool \<Rightarrow> bool \<Rightarrow> (FDEResult \<times> InsnTrace list) option" where
  "Check opts c at_entry guessing =
     Run \<lparr>options = opts, cfi = c, at_function_entry = at_entry, guessing_enabled = guessing\<rparr>"

definition CheckWithGuessing :: "FDECheckerOptions \<Rightarrow> CFI \<Rightarrow> bool \<Rightarrow> (FDEResult \<times> InsnTrace list) option" where
  "CheckWithGuessing opts c at_entry =
     (case Check opts c at_entry False of
        None \<Rightarrow> None
      | Some (res, tr) \<Rightarrow>
          if verdict res \<noteq> kReview \<or> guessable_jump_pc res = None then Some (res, tr)
          else case Check opts c at_entry True of
                 None \<Rightarrow> None
               | Some (retry, _) \<Rightarrow>
                   if verdict retry \<noteq> kBlessed then Some (res, tr)
                   else Some (res\<lparr>verdict := kReviewLight, guessed_jump_tables := guessed_jump_tables retry\<rparr>, tr))"

end
