(* ===== verification/Row_Props.thy ===== *)
theory Row_Props
  imports Fde_Walk
begin

text \<open>
  The finding sink and the check of one row. The sink keeps every finding apart from its cap:
  a repeated message counts as a repeat of the first, and what the cap drops is counted. The
  check of a row is silent exactly when the row holds of the abstract state.
\<close>

subsection \<open>The sink\<close>

definition sink_ok :: "FindingSink \<Rightarrow> bool" where
  "sink_ok k \<longleftrightarrow>
     (\<forall>msg i. map_of (sink_index k) msg = Some i \<longleftrightarrow> i < length (sink_findings k) \<and> f_message (sink_findings k ! i) = msg) \<and>
     distinct (map f_message (sink_findings k)) \<and> length (sink_findings k) \<le> sink_cap k"

text \<open>How many \<open>Add\<close>s a sink stands for.\<close>

definition sink_weight :: "FindingSink \<Rightarrow> nat" where
  "sink_weight k = (\<Sum>f \<leftarrow> sink_findings k. f_repeats f + 1) + truncated k"

definition add_all :: "(Severity \<times> u64 \<times> string) list \<Rightarrow> FindingSink \<Rightarrow> FindingSink" where
  "add_all fs k = fold (\<lambda>(sev, pc, msg). Add sev pc msg) fs k"

lemma sink_ok_0: "sink_ok (FindingSink0 c)"
  by (simp add: sink_ok_def FindingSink0_def)

lemma sink_index_None: "sink_ok k \<Longrightarrow> map_of (sink_index k) msg = None \<longleftrightarrow> msg \<notin> f_message ` set (sink_findings k)"
proof -
  assume "sink_ok k"
  then have "map_of (sink_index k) msg \<noteq> None \<longleftrightarrow> (\<exists>i < length (sink_findings k). f_message (sink_findings k ! i) = msg)"
    by (auto simp: sink_ok_def)
  then show ?thesis by (metis (no_types, lifting) image_iff in_set_conv_nth)
qed

lemma sink_ok_Add: 
  assumes "sink_ok k"
  shows "sink_ok (Add sev pc msg k)"
proof (cases "map_of (sink_index k) msg")
  case None
  with assms sink_index_None [OF assms, of msg] show ?thesis
    by (auto simp: Add_def sink_ok_def update_conv' nth_append less_Suc_eq image_iff)
next
  case (Some i)
  let ?fs = "(sink_findings k)[i := (sink_findings k ! i)\<lparr>f_repeats := f_repeats (sink_findings k ! i) + 1\<rparr>]"
  have msg: "f_message (?fs ! j) = f_message (sink_findings k ! j)" for j
    by (cases "i < length (sink_findings k)"; cases "i = j") (auto simp: list_update_beyond)
  then have "map f_message ?fs = map f_message (sink_findings k)"
    by (intro nth_equalityI) auto
  moreover have "Add sev pc msg k = k\<lparr>sink_findings := ?fs\<rparr>"
    using Some by (simp add: Add_def)
  ultimately show ?thesis
    using assms msg by (simp add: sink_ok_def del: One_nat_def)
qed

lemma sum_list_repeats_update:
  "i < length fs \<Longrightarrow>
   (\<Sum>f \<leftarrow> fs[i := (fs ! i)\<lparr>f_repeats := f_repeats (fs ! i) + 1\<rparr>]. f_repeats f + 1) = (\<Sum>f \<leftarrow> fs. f_repeats f + (1::nat)) + 1"
proof (induction fs arbitrary: i)
  case (Cons f fs)
  then show ?case by (cases i) auto
qed simp

lemma sink_weight_Add: "sink_ok k \<Longrightarrow> sink_weight (Add sev pc msg k) = sink_weight k + 1"
proof (cases "map_of (sink_index k) msg")
  case (Some i)
  moreover assume "sink_ok k"
  ultimately have "i < length (sink_findings k)" by (simp add: sink_ok_def)
  with Some show ?thesis
    using sum_list_repeats_update [of i "sink_findings k"] by (simp add: Add_def sink_weight_def)
qed (simp add: Add_def sink_weight_def)

lemma sink_cap_Add [simp]: "sink_cap (Add sev pc msg k) = sink_cap k"
  by (simp add: Add_def split: option.split)

lemma sink_ok_add_all: "sink_ok k \<Longrightarrow> sink_ok (add_all fs k)"
  unfolding add_all_def by (induction fs arbitrary: k) (auto simp: sink_ok_Add)

lemma sink_weight_add_all: "sink_ok k \<Longrightarrow> sink_weight (add_all fs k) = sink_weight k + length fs"
  unfolding add_all_def by (induction fs arbitrary: k) (auto simp: sink_ok_Add sink_weight_Add)

lemma Take_eq_Nil: "Take k = [] \<longleftrightarrow> sink_weight k = 0"
  by (cases "sink_findings k") (auto simp: Take_def sink_weight_def)

lemma verdict_of_Blessed: "verdict_of fs kBlessed = kBlessed \<longleftrightarrow> fs = []"
proof -
  have "verdict_of fs kReview \<noteq> kBlessed" for fs by (induction fs) auto
  then show ?thesis by (cases fs) auto
qed


lemma sink_weight_0 [simp]: "sink_weight (FindingSink0 c) = 0"
  by (simp add: sink_weight_def FindingSink0_def)

definition fired :: "'a option \<Rightarrow> nat" where
  "fired r = (case r of None \<Rightarrow> 0 | Some _ \<Rightarrow> 1)"

lemma fired_eq_0 [simp]: "fired r = 0 \<longleftrightarrow> r = None"
  by (simp add: fired_def split: option.split)

lemma sink_ok_report: "sink_ok k \<Longrightarrow> sink_ok (report pc ctx r k)"
  by (simp add: report_def sink_ok_Add split: option.split)

lemma sink_weight_report: "sink_ok k \<Longrightarrow> sink_weight (report pc ctx r k) = sink_weight k + fired r"
  by (simp add: report_def fired_def sink_weight_Add split: option.split)

lemma sink_fold_report:
  "sink_ok k \<Longrightarrow> sink_ok (fold (\<lambda>r. report pc ctx (f r)) rs k) \<and>
     sink_weight (fold (\<lambda>r. report pc ctx (f r)) rs k) = sink_weight k + (\<Sum>r \<leftarrow> rs. fired (f r))"
  by (induction rs arbitrary: k) (auto simp: sink_ok_report sink_weight_report)

subsection \<open>What a row claims\<close>

text \<open>
  The claim of one rule about a state, read off the DWARF meaning of the rule: a CFA rule must
  give back the CFA, a register rule must name a place that holds the entry value. An undefined
  register and, unless asked for, an unmentioned one claim nothing; expressions are never
  confirmed.
\<close>

definition cfa_holds :: "CFARule \<Rightarrow> AbsState \<Rightarrow> bool" where
  "cfa_holds cfa s \<longleftrightarrow> cfa_kind cfa = CFARegOffset \<and>
     (\<exists>d. reg s (int (cfa_reg cfa)) = CFARel d \<and> wrap64 (d + cfa_offset cfa) = 0)"

definition reg_holds :: "bool \<Rightarrow> nat \<Rightarrow> RegRule \<Rightarrow> AbsState \<Rightarrow> bool" where
  "reg_holds check_unset r rule s = (case rule_kind rule of
       RUnset \<Rightarrow> check_unset \<and> IsCalleeSaved r \<longrightarrow> reg s (int r) = OrigReg r
     | RUndefined \<Rightarrow> True
     | RSameValue \<Rightarrow> reg s (int r) = OrigReg r
     | RAtCFAOffset \<Rightarrow> Slot s (rule_offset rule) = OrigReg r
     | RValOffset \<Rightarrow> reg s (int r) = CFARel (rule_offset rule)
     | RInRegister \<Rightarrow> reg s (int (rule_reg rule)) = OrigReg r
     | _ \<Rightarrow> False)"

definition row_holds :: "bool \<Rightarrow> CFIRow \<Rightarrow> AbsState \<Rightarrow> bool" where
  "row_holds check_unset row s \<longleftrightarrow>
     cfa_holds (row_cfa row) s \<and> (\<forall>r < kNumDWARFRegs. reg_holds check_unset r (row_regs row ! r) s)"

lemmas val_preds = is_unknown_def IsOrigReg_def IsCFARel_def is_top_def is_bottom_def

lemma CheckCFA_None: "CheckCFA cfa s = None \<longleftrightarrow> cfa_holds cfa s"
  by (auto simp: CheckCFA_def cfa_holds_def Let_def split: CFAKind.splits AbsVal.splits if_splits)

lemma CheckSameValue_None: "CheckSameValue r s = None \<longleftrightarrow> reg s (int r) = OrigReg r"
  by (auto simp: CheckSameValue_def Let_def val_preds split: if_splits)

lemma CheckReg_None: "CheckReg u r rule s = None \<longleftrightarrow> reg_holds u r rule s"
  by (auto simp: CheckReg_def reg_holds_def Let_def val_preds CheckSameValue_None split: RegRuleKind.splits if_splits)

lemma CheckRow_sink:
  assumes "sink_ok k"
  shows "sink_ok (CheckRow opts pc row s ctx force k)"
    and "sink_weight k \<le> sink_weight (CheckRow opts pc row s ctx force k)"
    and "sink_weight (CheckRow opts pc row s ctx force k) = sink_weight k \<longleftrightarrow>
         row_holds (check_unmentioned_callee_saved opts \<or> force) row s"
proof -
  let ?u = "check_unmentioned_callee_saved opts \<or> force"
  let ?k = "report pc ctx (CheckCFA (row_cfa row) s) k"
  let ?f = "\<lambda>r. CheckReg ?u r (row_regs row ! r) s"
  have k: "sink_ok ?k" "sink_weight ?k = sink_weight k + fired (CheckCFA (row_cfa row) s)"
    using assms by (simp_all add: sink_ok_report sink_weight_report)
  note f = sink_fold_report [OF k(1), of pc ctx ?f "[0..<kNumDWARFRegs]"]
  show "sink_ok (CheckRow opts pc row s ctx force k)"
    using f by (simp add: CheckRow_def)
  have w: "sink_weight (CheckRow opts pc row s ctx force k) =
      sink_weight k + fired (CheckCFA (row_cfa row) s) + (\<Sum>r \<leftarrow> [0..<kNumDWARFRegs]. fired (?f r))"
    using f k(2) unfolding CheckRow_def by simp
  then show "sink_weight k \<le> sink_weight (CheckRow opts pc row s ctx force k)" by simp
  have "(\<Sum>r \<leftarrow> [0..<kNumDWARFRegs]. fired (?f r)) = 0 \<longleftrightarrow> (\<forall>r < kNumDWARFRegs. reg_holds ?u r (row_regs row ! r) s)"
    unfolding sum_list_eq_0_iff by (auto simp: CheckReg_None)
  with w show "sink_weight (CheckRow opts pc row s ctx force k) = sink_weight k \<longleftrightarrow> row_holds ?u row s"
    by (simp add: row_holds_def CheckCFA_None)
qed

lemma RowMatchesCleanly_row_holds:
  "RowMatchesCleanly opts pc row s force \<longleftrightarrow> row_holds (check_unmentioned_callee_saved opts \<or> force) row s"
  using CheckRow_sink(3) [OF sink_ok_0, of opts pc row s "[]" force 1]
  by (simp add: RowMatchesCleanly_def Take_eq_Nil)

end
