(* ===== verification/Insn_Props.thy ===== *)
theory Insn_Props
  imports Insn_Semantics
begin

text \<open>
  Properties of the instruction semantics: every \<open>Transfer\<close> keeps a state well formed, and the
  bounds of the table lattice are sound for the integers they talk about.
\<close>

subsection \<open>Well-formedness\<close>

lemma wf_state_upd_tbl [wf_intros]: "wf_state s \<Longrightarrow> wf_state (upd_tbl d f s)"
  by (simp add: upd_tbl_def wf_state_upd)

lemma wf_state_ClobberWrittenReg [wf_intros]: "wf_state s \<Longrightarrow> wf_state (ClobberWrittenReg Z r d s)"
  by (simp add: ClobberWrittenReg_def wf_state_upd_tbl wf_state_writes)

lemma wf_state_EraseSlots [wf_intros]: "wf_state s \<Longrightarrow> wf_state (EraseSlots a n s)"
  by (simp add: EraseSlots_def wf_state_def omap_ok_erase_range) (auto simp: omap_erase_range_def)

lemma wf_state_clobber_operand [wf_intros]: "wf_state s \<Longrightarrow> wf_state (clobber_operand Z i op s)"
  by (simp add: clobber_operand_def Let_def HandleUnplacedMemWrite_def wf_state_ClobberWrittenReg wf_state_EraseSlots
      split: ZydisOperandValue.split option.split)

lemma wf_state_ClobberWrites [wf_intros]: "wf_state s \<Longrightarrow> wf_state (ClobberWrites Z i s)"
  unfolding ClobberWrites_def by (intro wf_state_fold wf_state_clobber_operand)

lemma wf_state_TransferEdge [wf_intros]: "wf_state s \<Longrightarrow> wf_state (TransferEdge i e s)"
  by (simp add: TransferEdge_def Let_def wf_state_writes wf_state_upd split: option.split)

lemma wf_state_xfer_call [wf_intros]: "wf_state s \<Longrightarrow> wf_state (xfer_call s)"
  unfolding xfer_call_def Let_def
  by (intro wf_state_fold wf_state_writes) (simp_all add: wf_state_DropSlotsBelow split: AbsVal.split)

lemma wf_state_xfer_push [wf_intros]: "wf_state s \<Longrightarrow> wf_state (snd (xfer_push Z i s))"
  by (simp add: xfer_push_def Let_def wf_state_writes wf_state_SetSlot split: AbsVal.split)

lemma wf_state_pop_into [wf_intros]: "wf_state s \<Longrightarrow> wf_state (pop_into Z i v s)"
  by (simp add: pop_into_def Let_def wf_state_writes wf_state_SetSlot split: ZydisOperandValue.split option.split)

lemma wf_state_xfer_pop [wf_intros]: "wf_state s \<Longrightarrow> wf_state (snd (xfer_pop Z i s))"
  by (simp add: xfer_pop_def Let_def wf_state_writes wf_state_pop_into split: AbsVal.split)

lemma wf_state_xfer_leave [wf_intros]: "wf_state s \<Longrightarrow> wf_state (xfer_leave s)"
  by (simp add: xfer_leave_def Let_def wf_state_writes split: AbsVal.split)

lemma wf_state_or_clobber:
  "wf_state s \<Longrightarrow> (\<And>s'. r = Some s' \<Longrightarrow> wf_state s') \<Longrightarrow> wf_state (snd (or_clobber Z i s r))"
  by (simp add: or_clobber_def wf_state_ClobberWrites split: option.split)

lemma wf_state_xfer_lea: "wf_state s \<Longrightarrow> xfer_lea Z i s = Some s' \<Longrightarrow> wf_state s'"
  by (auto simp: xfer_lea_def Let_def split: ZydisOperandValue.splits if_splits option.splits intro: wf_intros)

lemma wf_state_mov_full [wf_intros]: "wf_state s \<Longrightarrow> wf_state (mov_full Z i d src s)"
  by (simp add: mov_full_def Let_def wf_state_writes split: ZydisOperandValue.split option.split)

lemma wf_state_mov_narrow [wf_intros]: "wf_state s \<Longrightarrow> wf_state (mov_narrow Z r d src s)"
  by (simp add: mov_narrow_def Let_def wf_state_ClobberWrittenReg wf_state_upd_tbl)

lemma wf_state_mov_store [wf_intros]: "wf_state s \<Longrightarrow> wf_state (mov_store Z i m n src s)"
  by (simp add: mov_store_def Let_def HandleUnplacedMemWrite_def wf_state_EraseSlots wf_state_SetSlot
      split: ZydisOperandValue.split option.split)

lemma wf_state_xfer_mov: "wf_state s \<Longrightarrow> xfer_mov Z i s = Some s' \<Longrightarrow> wf_state s'"
  by (auto simp: xfer_mov_def Let_def split: ZydisOperandValue.splits if_splits option.splits intro: wf_intros)

lemma wf_state_movsxd_load: "wf_state s \<Longrightarrow> movsxd_load Z d m s = Some s' \<Longrightarrow> wf_state s'"
  by (auto simp: movsxd_load_def Let_def split: if_splits TableIdent.splits intro: wf_intros)

lemma wf_state_xfer_movsxd: "wf_state s \<Longrightarrow> xfer_movsxd Z i s = Some s' \<Longrightarrow> wf_state s'"
  by (auto simp: xfer_movsxd_def Let_def split: ZydisOperandValue.splits if_splits
      intro: wf_intros wf_state_movsxd_load)

lemma wf_state_xfer_add_sub: "wf_state s \<Longrightarrow> xfer_add_sub Z i s = Some s' \<Longrightarrow> wf_state s'"
  by (auto simp: xfer_add_sub_def add_dispatch_def add_sub_imm_def Let_def
      split: ZydisOperandValue.splits if_splits option.splits AbsVal.splits intro: wf_intros)

lemma wf_state_xfer_cmp [wf_intros]: "wf_state s \<Longrightarrow> wf_state (xfer_cmp Z i s)"
  by (simp add: xfer_cmp_def Let_def wf_state_upd split: ZydisOperandValue.split)

lemma wf_state_xfer_movx: "wf_state s \<Longrightarrow> xfer_movx Z i s = Some s' \<Longrightarrow> wf_state s'"
  by (auto simp: xfer_movx_def Let_def split: ZydisOperandValue.splits if_splits intro: wf_intros)

lemma wf_state_clear_guard [wf_intros]: "wf_state s \<Longrightarrow> wf_state (clear_guard i s)"
  by (simp add: clear_guard_def wf_state_upd)

lemmas wf_xfer = wf_state_xfer_lea wf_state_xfer_mov wf_state_xfer_movsxd wf_state_xfer_add_sub wf_state_xfer_movx

lemma wf_state_transfer_switch: "wf_state s \<Longrightarrow> wf_state (snd (transfer_switch Z i s))"
  unfolding transfer_switch_def Let_def
  by (auto intro!: wf_state_or_clobber simp: wf_state_xfer_call wf_state_xfer_push wf_state_xfer_pop wf_state_xfer_leave
      wf_state_xfer_cmp intro: wf_xfer)

lemma wf_state_Transfer [wf_intros]: "wf_state s \<Longrightarrow> wf_state (snd (Transfer Z i s))"
  unfolding Transfer_def Let_def by (auto simp: wf_state_clear_guard wf_state_transfer_switch)

end
