(* ===== verification/Walk_Props.thy ===== *)
theory Walk_Props
  imports Row_Props Insn_Props
begin

text \<open>
  The dataflow of pass 1. \<open>walk_inv\<close> is the invariant of the worklist: every reached address is
  in the worklist or stable, that is, all its edges are accounted for by the states at their
  targets. It rests on the contract of the join (\<open>abs_join\<close>) alone. When the worklist runs
  empty the states are a post-fixpoint.
\<close>

subsection \<open>Stability\<close>

definition edges_at :: "walk \<Rightarrow> LSDACallSite list \<Rightarrow> u64 \<Rightarrow> AbsState \<Rightarrow> (u64 \<times> AbsState) list option" where
  "edges_at w sites pc s = (case DecodeAt w pc of None \<Rightarrow> Some [] | Some i \<Rightarrow> flow_edges w sites pc i s)"

definition covered :: "(u64 \<times> AbsState) list \<Rightarrow> u64 \<times> AbsState \<Rightarrow> bool" where
  "covered m e \<longleftrightarrow> (\<exists>u. map_of m (fst e) = Some u \<and> state_le (snd e) u)"

definition stable_at :: "walk \<Rightarrow> FDEChecker \<Rightarrow> u64 \<Rightarrow> bool" where
  "stable_at w st pc \<longleftrightarrow>
     (\<exists>es. edges_at w (call_sites st) pc (state_at st pc) = Some es \<and> (\<forall>e \<in> set es. covered (in_states st) e)) \<and>
     (\<forall>i. DecodeAt w pc = Some i \<longrightarrow> map_of (insn_sizes st) pc = Some (insn_size i))"

definition walk_wf :: "FDEChecker \<Rightarrow> bool" where
  "walk_wf st \<longleftrightarrow>
     distinct (map fst (in_states st)) \<and> (\<forall>pc s. map_of (in_states st) pc = Some s \<longrightarrow> wf_state s) \<and>
     distinct (worklist st) \<and> (\<forall>pc \<in> set (worklist st). map_of (in_states st) pc \<noteq> None) \<and>
     (\<forall>pc. pending st pc \<longleftrightarrow> pc \<in> set (worklist st))"

definition walk_inv :: "walk \<Rightarrow> u64 set \<Rightarrow> FDEChecker \<Rightarrow> bool" where
  "walk_inv w X st \<longleftrightarrow> walk_wf st \<and>
     (\<forall>pc. map_of (in_states st) pc \<noteq> None \<longrightarrow> pc \<notin> set (worklist st) \<longrightarrow> pc \<notin> X \<longrightarrow> stable_at w st pc)"

text \<open>What propagation does to a walk: states only grow, and one that changes is queued.\<close>

definition same_ctl :: "FDEChecker \<Rightarrow> FDEChecker \<Rightarrow> bool" where
  "same_ctl st st' \<longleftrightarrow>
     call_sites st' = call_sites st \<and> insn_sizes st' = insn_sizes st \<and> sink st' = sink st \<and>
     hit_cap st' = hit_cap st \<and> null_deref st' = null_deref st \<and> iterations st' = iterations st \<and>
     is_canonical_entry st' = is_canonical_entry st \<and> unbounded_jump_count st' = unbounded_jump_count st \<and>
     trace st' = trace st"

definition grows_at :: "FDEChecker \<Rightarrow> FDEChecker \<Rightarrow> u64 \<Rightarrow> bool" where
  "grows_at st st' pc =
     (case map_of (in_states st) pc of
        Some u \<Rightarrow> (\<exists>u'. map_of (in_states st') pc = Some u' \<and> state_le u u' \<and> (pc \<notin> set (worklist st') \<longrightarrow> u' = u))
      | None \<Rightarrow> map_of (in_states st') pc \<noteq> None \<longrightarrow> pc \<in> set (worklist st'))"

definition grows :: "FDEChecker \<Rightarrow> FDEChecker \<Rightarrow> bool" where
  "grows st st' \<longleftrightarrow> same_ctl st st' \<and> set (worklist st) \<subseteq> set (worklist st') \<and> (\<forall>pc. grows_at st st' pc)"

lemma grows_refl: "grows st st"
  by (simp add: grows_def same_ctl_def grows_at_def split: option.split)

lemma grows_SomeD:
  assumes "grows st st'" "map_of (in_states st) pc = Some u"
  obtains u' where "map_of (in_states st') pc = Some u'" "state_le u u'" "pc \<notin> set (worklist st') \<Longrightarrow> u' = u"
proof -
  have "grows_at st st' pc" using assms(1) by (simp add: grows_def)
  with assms(2) that show ?thesis by (auto simp: grows_at_def)
qed

lemma grows_NoneD:
  assumes "grows st st'" "map_of (in_states st) pc = None" "map_of (in_states st') pc \<noteq> None"
  shows "pc \<in> set (worklist st')"
proof -
  have "grows_at st st' pc" using assms(1) by (simp add: grows_def)
  with assms(2,3) show ?thesis by (simp add: grows_at_def)
qed

lemma grows_worklist: "grows st st' \<Longrightarrow> pc \<in> set (worklist st) \<Longrightarrow> pc \<in> set (worklist st')"
  by (auto simp: grows_def)

lemma grows_ctl: "grows st st' \<Longrightarrow> same_ctl st st'"
  by (simp add: grows_def)

lemma grows_trans:
  assumes "grows a b" "grows b c"
  shows "grows a c"
proof -
  have "grows_at a c pc" for pc
  proof (cases "map_of (in_states a) pc")
    case None
    have "pc \<in> set (worklist c)" if "map_of (in_states c) pc \<noteq> None"
    proof (cases "map_of (in_states b) pc")
      case None
      then show ?thesis using grows_NoneD [OF assms(2)] that by blast
    next
      case (Some u)
      then have "pc \<in> set (worklist b)" using grows_NoneD [OF assms(1) None] by simp
      then show ?thesis by (rule grows_worklist [OF assms(2)])
    qed
    with None show ?thesis by (simp add: grows_at_def)
  next
    case (Some u)
    obtain u' where u': "map_of (in_states b) pc = Some u'" "state_le u u'" "pc \<notin> set (worklist b) \<Longrightarrow> u' = u"
      using grows_SomeD [OF assms(1) Some] by blast
    obtain u'' where u'': "map_of (in_states c) pc = Some u''" "state_le u' u''" "pc \<notin> set (worklist c) \<Longrightarrow> u'' = u'"
      using grows_SomeD [OF assms(2) u'(1)] by blast
    then show ?thesis
      using Some u' grows_worklist [OF assms(2), of pc] state_le_trans [OF u'(2) u''(2)] by (auto simp: grows_at_def)
  qed
  moreover have "same_ctl a c" using grows_ctl [OF assms(1)] grows_ctl [OF assms(2)] by (simp add: same_ctl_def)
  moreover have "set (worklist a) \<subseteq> set (worklist c)" using assms by (auto simp: grows_def)
  ultimately show ?thesis by (simp add: grows_def)
qed

lemma covered_grows: "covered (in_states st) e \<Longrightarrow> grows st st' \<Longrightarrow> covered (in_states st') e"
  unfolding covered_def by (meson grows_SomeD state_le_trans)

lemma stable_grows:
  assumes "stable_at w st pc" "grows st st'" "map_of (in_states st) pc \<noteq> None" "pc \<notin> set (worklist st')"
  shows "stable_at w st' pc"
proof -
  obtain u where u: "map_of (in_states st) pc = Some u" using assms(3) by blast
  then have "map_of (in_states st') pc = Some u" using grows_SomeD [OF assms(2) u] assms(4) by metis
  with u have same: "state_at st' pc = state_at st pc" "call_sites st' = call_sites st" "insn_sizes st' = insn_sizes st"
    using grows_ctl [OF assms(2)] by (simp_all add: same_ctl_def state_at_def)
  show ?thesis
    using assms(1) covered_grows [OF _ assms(2)] unfolding stable_at_def same by blast
qed

lemma walk_inv_grows:
  assumes "walk_inv w X st" "grows st st'" "walk_wf st'"
  shows "walk_inv w X st'"
  unfolding walk_inv_def
proof (intro conjI allI impI)
  fix pc
  assume a: "map_of (in_states st') pc \<noteq> None" "pc \<notin> set (worklist st')" "pc \<notin> X"
  then have "map_of (in_states st) pc \<noteq> None" "pc \<notin> set (worklist st)"
    using grows_NoneD [OF assms(2)] grows_worklist [OF assms(2)] by auto
  with a assms(1) have "stable_at w st pc" by (simp add: walk_inv_def)
  then show "stable_at w st' pc" by (rule stable_grows [OF _ assms(2) \<open>map_of (in_states st) pc \<noteq> None\<close> a(2)])
qed (rule assms(3))

subsection \<open>Propagate\<close>

lemma Propagate_cases:
  obtains (New) "map_of (in_states st) pc = None"
      "Propagate pc s st = st\<lparr>in_states := AList.update pc s (in_states st), worklist := pc # worklist st,
         pending_pushes := AList.update pc True (pending_pushes st)\<rparr>"
    | (Old) old jc wl pp where "map_of (in_states st) pc = Some old"
      "Propagate pc s st = st\<lparr>in_states := AList.update pc (join_state s old) (in_states st), join_conflicts := jc,
         worklist := wl, pending_pushes := pp\<rparr>"
      "fst (Join s old) \<and> \<not> pending st pc \<Longrightarrow> wl = pc # worklist st \<and> pp = AList.update pc True (pending_pushes st)"
      "\<not> (fst (Join s old) \<and> \<not> pending st pc) \<Longrightarrow> wl = worklist st \<and> pp = pending_pushes st"
proof (cases "map_of (in_states st) pc")
  case None
  then show ?thesis by (intro New) (simp_all add: Propagate_def)
next
  case (Some old)
  obtain ch j cs where J: "Join s old = (ch, j, cs)" by (metis prod_cases3)
  let ?jc = "if cs \<noteq> [] then AList.update pc ((case map_of (join_conflicts st) pc of Some l \<Rightarrow> l | None \<Rightarrow> []) @ cs)
      (join_conflicts st) else join_conflicts st"
  have "Propagate pc s st = st\<lparr>in_states := AList.update pc j (in_states st), join_conflicts := ?jc,
      worklist := (if ch \<and> \<not> pending st pc then pc # worklist st else worklist st),
      pending_pushes := (if ch \<and> \<not> pending st pc then AList.update pc True (pending_pushes st) else pending_pushes st)\<rparr>"
    by (rule FDEChecker.equality) (auto simp: Propagate_def Some J Let_def pending_def)
  then show ?thesis
    using J by (intro Old [OF Some, where jc = ?jc and wl = "if ch \<and> \<not> pending st pc then pc # worklist st else worklist st"
          and pp = "if ch \<and> \<not> pending st pc then AList.update pc True (pending_pushes st) else pending_pushes st"]) simp_all
qed

lemma pending_update: "pending (st\<lparr>pending_pushes := AList.update pc b (pending_pushes st)\<rparr>) q \<longleftrightarrow> (if q = pc then b else pending st q)"
  by (simp add: pending_def update_conv')

lemma pending_simps [simp]:
  "pending (st\<lparr>in_states := a\<rparr>) pc = pending st pc" "pending (st\<lparr>worklist := b\<rparr>) pc = pending st pc"
  "pending (st\<lparr>join_conflicts := c\<rparr>) pc = pending st pc"
  by (simp_all add: pending_def)

lemma walk_wf_Propagate:
  assumes "walk_wf st" "wf_state s"
  shows "walk_wf (Propagate pc s st)"
proof (cases rule: Propagate_cases [where st = st and pc = pc and s = s])
  case New
  then show ?thesis
    using assms by (auto simp: walk_wf_def update_conv' distinct_update pending_def split: if_splits)
next
  case (Old old jc wl pp)
  have "wf_state (join_state s old)"
    using assms Old(1) by (intro wf_state_Join) (auto simp: walk_wf_def)
  then show ?thesis
    using assms Old by (cases "fst (Join s old) \<and> \<not> pending st pc")
      (auto simp: walk_wf_def update_conv' distinct_update pending_def split: if_splits)
qed

lemma grows_Propagate:
  assumes "walk_wf st" "wf_state s"
  shows "grows st (Propagate pc s st) \<and> covered (in_states (Propagate pc s st)) (pc, s)"
proof (cases rule: Propagate_cases [where st = st and pc = pc and s = s])
  case New
  then show ?thesis by (auto simp: grows_def grows_at_def same_ctl_def covered_def update_conv' split: option.split)
next
  case (Old old jc wl pp)
  have wf: "wf_state old" using assms Old(1) by (simp add: walk_wf_def)
  note ub = abs_join.join_ub1 [OF assms(2) wf] abs_join.join_ub2 [OF assms(2) wf]
  have "join_state s old = old" if "\<not> fst (Join s old)"
    using abs_join.join_unchanged_id [OF assms(2) wf that] .
  moreover have "pc \<in> set wl" if "fst (Join s old)"
    using Old(3,4) that assms(1) by (cases "pending st pc") (auto simp: walk_wf_def)
  moreover have "set (worklist st) \<subseteq> set wl"
    using Old(3,4) by (cases "fst (Join s old) \<and> \<not> pending st pc") auto
  ultimately show ?thesis
    using Old(1,2) ub by (auto simp: grows_def grows_at_def same_ctl_def covered_def update_conv' split: option.split)
qed

lemma propagate_all_grows:
  assumes "walk_wf st" "\<forall>e \<in> set es. wf_state (snd e)"
  shows "walk_wf (propagate_all es st) \<and> grows st (propagate_all es st) \<and>
         (\<forall>e \<in> set es. covered (in_states (propagate_all es st)) e)"
  using assms
proof (induction es arbitrary: st)
  case Nil
  then show ?case by (simp add: propagate_all_def grows_refl)
next
  case (Cons e es)
  let ?st = "Propagate (fst e) (snd e) st"
  have eq: "propagate_all (e # es) st = propagate_all es ?st"
    by (simp add: propagate_all_def split_def)
  have wf: "walk_wf ?st" using Cons.prems by (simp add: walk_wf_Propagate)
  note ih = Cons.IH [OF wf] and g = grows_Propagate [OF Cons.prems(1), of "snd e" "fst e"]
  show ?case
    unfolding eq using ih g Cons.prems(2) by (auto intro: grows_trans covered_grows)
qed


subsection \<open>Drain\<close>

lemma wf_flow_edges:
  assumes "wf_state s" "flow_edges w sites pc i s = Some es" "e \<in> set es"
  shows "wf_state (snd e)"
proof -
  obtain out s' where T: "Transfer (opt_disasm (options w)) i s = (out, s')" by fastforce
  then have "wf_state s'" using wf_state_Transfer [OF assms(1)] by (metis snd_conv)
  with assms(2,3) T show ?thesis
    by (auto simp: flow_edges_def call_edges_def fall_through_edges_def direct_edges_def table_edges_def Let_def
        wf_state_TransferEdge split: if_splits option.splits)
qed

lemma walk_inv_pop:
  assumes "walk_inv w {} st" "worklist st \<noteq> []"
  shows "walk_inv w {hd (worklist st)} (pop_worklist (st\<lparr>iterations := n\<rparr>))"
proof -
  obtain pc wl where wl: "worklist st = pc # wl" using assms(2) by (cases "worklist st") auto
  have "walk_wf (pop_worklist (st\<lparr>iterations := n\<rparr>))"
    using assms(1) wl by (auto simp: walk_inv_def walk_wf_def pop_worklist_def pending_def update_conv' split: if_splits)
  then show ?thesis
    using assms(1) wl by (auto simp: walk_inv_def pop_worklist_def stable_at_def state_at_def)
qed

lemma walk_wf_worklist: "walk_wf st \<Longrightarrow> pc \<in> set (worklist st) \<Longrightarrow> map_of (in_states st) pc \<noteq> None"
  unfolding walk_wf_def by blast

lemma walk_wf_sizes [simp]: "walk_wf (st\<lparr>insn_sizes := x\<rparr>) = walk_wf st"
  by (simp add: walk_wf_def pending_def)

lemma drain_step_inv:
  assumes inv: "walk_inv w {pc} st" and dom: "map_of (in_states st) pc \<noteq> None"
    and ok: "\<not> null_deref (drain_step w pc st)"
  shows "walk_inv w {} (drain_step w pc st)"
proof (cases "DecodeAt w pc")
  case None
  have "stable_at w st pc" using None by (simp add: stable_at_def edges_at_def)
  then show ?thesis using inv None by (auto simp: walk_inv_def drain_step_def)
next
  case (Some i)
  obtain s where s: "map_of (in_states st) pc = Some s" using dom by blast
  have wf: "walk_wf st" "wf_state s" using inv s by (auto simp: walk_inv_def walk_wf_def)
  obtain es where es: "flow_edges w (call_sites st) pc i s = Some es"
    using ok Some s by (auto simp: drain_step_def state_at_def split: option.splits)
  let ?st1 = "st\<lparr>insn_sizes := AList.update pc (insn_size i) (insn_sizes st)\<rparr>"
  have eq: "drain_step w pc st = propagate_all es ?st1"
    using Some s es by (simp add: drain_step_def state_at_def)
  have "\<forall>e \<in> set es. wf_state (snd e)" using wf_flow_edges [OF wf(2) es] by blast
  from propagate_all_grows [OF walk_wf_sizes [THEN iffD2, OF wf(1)] this]
  have pr: "walk_wf (drain_step w pc st)" "grows ?st1 (drain_step w pc st)"
    "\<forall>e \<in> set es. covered (in_states (drain_step w pc st)) e" unfolding eq by blast+
  have "walk_inv w {pc} ?st1"
    using inv by (auto simp: walk_inv_def stable_at_def state_at_def walk_wf_sizes update_conv')
  then have inv': "walk_inv w {pc} (drain_step w pc st)" using pr(2,1) by (rule walk_inv_grows)
  have "stable_at w (drain_step w pc st) pc" if "pc \<notin> set (worklist (drain_step w pc st))"
  proof -
    have "map_of (in_states ?st1) pc = Some s" using s by simp
    then have "map_of (in_states (drain_step w pc st)) pc = Some s"
      using that by (metis grows_SomeD [OF pr(2)])
    then show ?thesis
      using pr(3) grows_ctl [OF pr(2)] es Some
      by (simp add: stable_at_def edges_at_def state_at_def same_ctl_def update_conv')
  qed
  with inv' show ?thesis by (auto simp: walk_inv_def)
qed

lemma walk_inv_cong:
  assumes "in_states st' = in_states st" "worklist st' = worklist st" "pending_pushes st' = pending_pushes st"
    "call_sites st' = call_sites st" "insn_sizes st' = insn_sizes st"
  shows "walk_inv w X st' = walk_inv w X st"
  by (simp add: walk_inv_def walk_wf_def stable_at_def state_at_def pending_def assms)

lemma walk_inv_simps [simp]:
  "walk_inv w X (st\<lparr>iterations := n\<rparr>) = walk_inv w X st" "walk_inv w X (st\<lparr>hit_cap := b\<rparr>) = walk_inv w X st"
  by (rule walk_inv_cong; simp)+

lemma Drain_induct [case_names stop cap step]:
  assumes "\<And>st. worklist st = [] \<or> null_deref st \<Longrightarrow> P st st"
    and "\<And>st. worklist st \<noteq> [] \<Longrightarrow> \<not> null_deref st \<Longrightarrow> P st (st\<lparr>iterations := iterations st + 1, hit_cap := True\<rparr>)"
    and "\<And>st st' r. worklist st \<noteq> [] \<Longrightarrow> \<not> null_deref st \<Longrightarrow>
           st' = (drain_step w (hd (worklist st)) (pop_worklist (st\<lparr>iterations := iterations st + 1\<rparr>)))
                   \<lparr>iterations := iterations st + 1\<rparr> \<Longrightarrow> P st' r \<Longrightarrow> P st r"
  shows "P st (Drain w st)"
proof (induction "max_iterations (options w) - iterations st" arbitrary: st rule: less_induct)
  case less
  let ?st' = "(drain_step w (hd (worklist st)) (pop_worklist (st\<lparr>iterations := iterations st + 1\<rparr>)))
                \<lparr>iterations := iterations st + 1\<rparr>"
  consider "worklist st = [] \<or> null_deref st"
    | "worklist st \<noteq> []" "\<not> null_deref st" "iterations st + 1 > max_iterations (options w)"
    | "worklist st \<noteq> []" "\<not> null_deref st" "iterations st < max_iterations (options w)" by linarith
  then show ?case
  proof cases
    case 3
    have "P ?st' (Drain w ?st')" by (rule less.hyps) (use 3 in simp)
    then have "P st (Drain w ?st')" by (rule assms(3) [OF 3(1,2) refl])
    with 3 show ?thesis by (subst Drain.simps) (simp add: Let_def)
  next
    case 1
    then show ?thesis using assms(1) [of st] by (subst Drain.simps) simp
  next
    case 2
    then show ?thesis using assms(2) [of st] by (subst Drain.simps) (simp add: Let_def)
  qed
qed

lemma Propagate_ctl: "same_ctl st (Propagate pc s st)"
  by (cases rule: Propagate_cases [where st = st and pc = pc and s = s]) (auto simp: same_ctl_def)

lemma same_ctl_trans: "same_ctl a b \<Longrightarrow> same_ctl b c \<Longrightarrow> same_ctl a c"
  by (simp add: same_ctl_def)

lemma propagate_all_ctl: "same_ctl st (propagate_all es st)"
proof (induction es arbitrary: st)
  case (Cons e es)
  show ?case
    using same_ctl_trans [OF Propagate_ctl Cons.IH] by (simp add: propagate_all_def split_def)
qed (simp add: propagate_all_def same_ctl_def)

text \<open>What \<open>Drain\<close> leaves alone: everything but the states, the worklist, the instruction sizes, the
  conflicts, the step counter and the two flags.\<close>

definition same_report :: "FDEChecker \<Rightarrow> FDEChecker \<Rightarrow> bool" where
  "same_report st st' \<longleftrightarrow>
     call_sites st' = call_sites st \<and> sink st' = sink st \<and> is_canonical_entry st' = is_canonical_entry st \<and>
     unbounded_jump_count st' = unbounded_jump_count st \<and> trace st' = trace st \<and>
     (hit_cap st \<longrightarrow> hit_cap st') \<and> (null_deref st \<longrightarrow> null_deref st')"

lemma same_report_refl: "same_report st st"
  by (simp add: same_report_def)

lemma same_report_trans: "same_report a b \<Longrightarrow> same_report b c \<Longrightarrow> same_report a c"
  by (simp add: same_report_def)

lemma drain_step_report: "same_report st (drain_step w pc st)"
proof (cases "DecodeAt w pc")
  case (Some i)
  show ?thesis
  proof (cases "flow_edges w (call_sites st) pc i (state_at st pc)")
    case None
    with Some show ?thesis by (simp add: drain_step_def same_report_def)
  next
    case (Some es)
    with \<open>DecodeAt w pc = Some i\<close> show ?thesis
      using propagate_all_ctl [of "st\<lparr>insn_sizes := AList.update pc (insn_size i) (insn_sizes st)\<rparr>" es]
      by (simp add: drain_step_def same_report_def same_ctl_def)
  qed
qed (simp add: drain_step_def same_report_def)

lemma Drain_report: "same_report st (Drain w st)"
proof (induction rule: Drain_induct)
  case (step st st' r)
  have "same_report st st'"
    using drain_step_report [of "pop_worklist (st\<lparr>iterations := iterations st + 1\<rparr>)" w "hd (worklist st)"] step(3)
    by (simp add: same_report_def pop_worklist_def)
  then show ?case using step(4) by (rule same_report_trans)
qed (simp_all add: same_report_def)

text \<open>The main invariant of pass 1: unless a null row was dereferenced, \<open>Drain\<close> keeps \<open>walk_inv\<close>, covers
  what was covered, and ends with an empty worklist or with the cap hit.\<close>

lemma covered_pop [simp]: "in_states (pop_worklist st) = in_states st"
  by (simp add: pop_worklist_def)

lemma drain_step_covers:
  assumes "walk_wf st" "covered (in_states st) e"
  shows "covered (in_states (drain_step w pc st)) e"
proof (cases "DecodeAt w pc")
  case None
  then show ?thesis using assms by (simp add: drain_step_def)
next
  case (Some i)
  show ?thesis
  proof (cases "flow_edges w (call_sites st) pc i (state_at st pc)")
    case None
    then show ?thesis using Some assms by (simp add: drain_step_def)
  next
    case (Some es)
    let ?st1 = "st\<lparr>insn_sizes := AList.update pc (insn_size i) (insn_sizes st)\<rparr>"
    have "wf_state (state_at st pc)"
      using assms(1) wf_state_AbsState0 by (auto simp: state_at_def walk_wf_def split: option.split)
    then have "\<forall>e \<in> set es. wf_state (snd e)" using wf_flow_edges Some by blast
    from propagate_all_grows [OF walk_wf_sizes [THEN iffD2, OF assms(1)] this] have "grows ?st1 (propagate_all es ?st1)" by blast
    then have "covered (in_states (propagate_all es ?st1)) e"
      by (rule covered_grows [rotated]) (use assms(2) in simp)
    with Some \<open>DecodeAt w pc = Some i\<close> show ?thesis by (simp add: drain_step_def)
  qed
qed

definition drain_post :: "walk \<Rightarrow> FDEChecker \<Rightarrow> FDEChecker \<Rightarrow> bool" where
  "drain_post w st r \<longleftrightarrow> (null_deref st \<longrightarrow> null_deref r) \<and>
     (walk_inv w {} st \<longrightarrow> \<not> null_deref r \<longrightarrow>
        walk_inv w {} r \<and> (\<forall>e. covered (in_states st) e \<longrightarrow> covered (in_states r) e) \<and> (worklist r = [] \<or> hit_cap r))"

lemma Drain_post: "drain_post w st (Drain w st)"
proof (induction rule: Drain_induct)
  case (cap st)
  then show ?case
    by (simp add: drain_post_def)
next
  case (step st st' r)
  let ?p = "pop_worklist (st\<lparr>iterations := iterations st + 1\<rparr>)" and ?pc = "hd (worklist st)"
  show ?case
    unfolding drain_post_def
  proof (rule conjI; intro impI)
    assume a: "walk_inv w {} st" "\<not> null_deref r"
    have inv: "walk_inv w {?pc} ?p" using a(1) step(1) by (rule walk_inv_pop)
    have "map_of (in_states ?p) ?pc \<noteq> None"
      using a(1) step(1) walk_wf_worklist [of st ?pc] by (simp add: walk_inv_def)
    moreover have "\<not> null_deref (drain_step w ?pc ?p)"
      using step(3,4) a(2) by (auto simp: drain_post_def)
    ultimately have "walk_inv w {} st'"
      using drain_step_inv [OF inv] step(3) by simp
    moreover have "covered (in_states st') e" if "covered (in_states st) e" for e
      using drain_step_covers [of ?p e w ?pc] inv that step(3) by (simp add: walk_inv_def)
    ultimately show "walk_inv w {} r \<and> (\<forall>e. covered (in_states st) e \<longrightarrow> covered (in_states r) e) \<and> (worklist r = [] \<or> hit_cap r)"
      using step(4) a(2) by (auto simp: drain_post_def)
  qed (use step(2) in simp)
qed (auto simp: drain_post_def)

end
