(* ===== verification/Verify_Props.thy ===== *)
theory Verify_Props
  imports Walk_Props
begin

text \<open>
  Pass 2 and the verdict. \<open>insn_clean\<close> says declaratively what it means that the verification
  of one instruction has nothing to report; the lemmas show that a pass that adds no finding
  has seen only clean instructions.
\<close>

subsection \<open>What a clean instruction is\<close>

definition exit_ok :: "AbsState \<Rightarrow> bool" where
  "exit_ok s \<longleftrightarrow> reg s (int kDWARFRsp) = CFARel (- 8) \<and> (\<forall>r \<in> set kCalleeSaved. reg s (int r) = OrigReg r) \<and>
     Slot s (- 8) = OrigReg kDWARFRip"

text \<open>The row some FDE declares at a target, with the callee-saved convention at its entry.\<close>

definition target_row :: "walk \<Rightarrow> u64 \<Rightarrow> (CFIRow \<times> bool) option" where
  "target_row w target =
     (case CFIContaining (all_cfis (options w)) target of
        None \<Rightarrow> None
      | Some c \<Rightarrow> (case RowAt c target of
                    None \<Rightarrow> None
                  | Some row \<Rightarrow> Some (row, target = pc_begin c \<and> IsCanonicalEntry row)))"

definition cross_ok :: "walk \<Rightarrow> u64 \<Rightarrow> AbsState \<Rightarrow> bool" where
  "cross_ok w target s \<longleftrightarrow>
     (\<exists>row entry. target_row w target = Some (row, entry) \<and>
        row_holds (check_unmentioned_callee_saved (options w) \<or> entry) row s)"

definition targets_ok :: "walk \<Rightarrow> u64 list \<Rightarrow> AbsState \<Rightarrow> bool" where
  "targets_ok w targets s \<longleftrightarrow> targets \<noteq> [] \<and> (\<forall>t \<in> set targets. in_fde (cfi w) t \<or> cross_ok w t s)"

definition outcome_clean :: "walk \<Rightarrow> bool \<Rightarrow> u64 \<Rightarrow> AbsState \<Rightarrow> TransferOutcome \<Rightarrow> bool" where
  "outcome_clean w canonical pc s out \<longleftrightarrow> review_reason out = [] \<and>
     (if has_jump_table out then targets_ok w (ResolveJumpTable (options w) (jump_table_addr out) (jump_table_entries out)) s
      else if has_unbounded_jump_target out
        then guessing_enabled w \<and> targets_ok w (ProbeJumpTable w (unbounded_jump_table_addr out) pc s) s
      else if is_return out then canonical \<and> exit_ok s
      else if has_direct_target out \<and> \<not> in_fde (cfi w) (direct_target out)
        then (if target_row w (direct_target out) \<noteq> None then cross_ok w (direct_target out) s else canonical \<and> exit_ok s)
      else if indirect_branch out then canonical \<and> IsExitState s
      else True)"

definition insn_clean :: "walk \<Rightarrow> bool \<Rightarrow> u64 \<Rightarrow> AbsState \<Rightarrow> bool" where
  "insn_clean w canonical pc s \<longleftrightarrow>
     (\<exists>i row. DecodeAt w pc = Some i \<and> pc + of_nat (insn_size i) \<le> pc_end (cfi w) \<and>
        RowAt (cfi w) pc = Some row \<and> row_holds (check_unmentioned_callee_saved (options w)) row s \<and>
        outcome_clean w canonical pc s (fst (Transfer (opt_disasm (options w)) i s)))"

subsection \<open>Adding findings\<close>

text \<open>\<open>adds st st' P\<close>: from \<open>st\<close> to \<open>st'\<close> the sink only gained findings, the settled states are the
  same, and if it gained none then \<open>P\<close>.\<close>

definition adds :: "FDEChecker \<Rightarrow> FDEChecker \<Rightarrow> bool \<Rightarrow> bool" where
  "adds st st' P \<longleftrightarrow> sink_ok (sink st') \<and> sink_weight (sink st) \<le> sink_weight (sink st') \<and>
     in_states st' = in_states st \<and> insn_sizes st' = insn_sizes st \<and> is_canonical_entry st' = is_canonical_entry st \<and>
     (sink_weight (sink st') = sink_weight (sink st) \<longrightarrow> P)"

lemma addsI_refl: "sink_ok (sink st) \<Longrightarrow> P \<Longrightarrow> adds st st P"
  by (simp add: adds_def)

lemma adds_trans: "adds a b P \<Longrightarrow> adds b c Q \<Longrightarrow> adds a c (P \<and> Q)"
  unfolding adds_def by auto

lemma adds_mono: "adds a b P \<Longrightarrow> (P \<Longrightarrow> Q) \<Longrightarrow> adds a b Q"
  unfolding adds_def by auto

lemma adds_False: "adds a b False \<Longrightarrow> adds a b P"
  unfolding adds_def by auto

lemma adds_ok: "adds a b P \<Longrightarrow> sink_ok (sink b)"
  by (simp add: adds_def)

lemma adds_AddFinding: "sink_ok (sink st) \<Longrightarrow> adds st (AddFinding sev pc msg st) P"
  by (simp add: adds_def AddFinding_def sink_ok_Add sink_weight_Add)

lemma adds_CheckRow:
  "sink_ok (sink st) \<Longrightarrow>
   adds st (st\<lparr>sink := CheckRow opts pc row s ctx force (sink st)\<rparr>)
     (row_holds (check_unmentioned_callee_saved opts \<or> force) row s)"
  using CheckRow_sink [of "sink st" opts pc row s ctx force] by (simp add: adds_def)

lemma adds_report:
  "sink_ok (sink st) \<Longrightarrow> adds st (st\<lparr>sink := report pc ctx r (sink st)\<rparr>) (r = None)"
  by (simp add: adds_def sink_ok_report sink_weight_report)

lemma adds_fold_report:
  "sink_ok (sink st) \<Longrightarrow> adds st (st\<lparr>sink := fold (\<lambda>r. report pc ctx (f r)) rs (sink st)\<rparr>) (\<forall>r \<in> set rs. f r = None)"
  using sink_fold_report [of "sink st" pc ctx f rs] by (auto simp: adds_def sum_list_eq_0_iff)

lemma adds_fold:
  assumes "\<And>x st. sink_ok (sink st) \<Longrightarrow> adds st (f x st) (P x)" "sink_ok (sink st)"
  shows "adds st (fold f xs st) (\<forall>x \<in> set xs. P x)"
  using assms(2)
proof (induction xs arbitrary: st)
  case (Cons x xs)
  have 1: "adds st (f x st) (P x)" by (rule assms(1) [OF Cons.prems])
  then show ?case using adds_trans [OF 1 Cons.IH [OF adds_ok [OF 1]]] by simp
qed (simp add: addsI_refl)

subsection \<open>The checks of pass 2\<close>


lemma CheckCrossFDEEdge_None: "CheckCrossFDEEdge w pc t s st = None \<longleftrightarrow> target_row w t = None"
  by (auto simp: CheckCrossFDEEdge_def target_row_def split: option.splits)

lemma adds_CheckCrossFDEEdge:
  assumes "sink_ok (sink st)" "CheckCrossFDEEdge w pc t s st = Some st'"
  shows "adds st st' (cross_ok w t s)"
proof -
  obtain c row where c: "CFIContaining (all_cfis (options w)) t = Some c" "RowAt c t = Some row"
    using assms(2) by (auto simp: CheckCrossFDEEdge_def split: option.splits)
  then have "st' = st\<lparr>sink := CheckRow (options w) pc row s (cross_edge_context t (fde_addr c))
      (t = pc_begin c \<and> IsCanonicalEntry row) (sink st)\<rparr>"
    using assms(2) by (simp add: CheckCrossFDEEdge_def)
  with adds_CheckRow [OF assms(1)] show ?thesis
    using c by (auto simp: cross_ok_def target_row_def intro: adds_mono)
qed

lemma exit_checks_None:
  "exit_rsp tail v ctx = None \<longleftrightarrow> v = CFARel (- 8)"
  "exit_reg s ctx r = None \<longleftrightarrow> reg s (int r) = OrigReg r"
  "exit_ra s ctx = None \<longleftrightarrow> Slot s (- 8) = OrigReg kDWARFRip"
  by (auto simp: exit_rsp_def exit_reg_def exit_ra_def Let_def val_preds split: if_splits)

lemma adds_CheckExitState:
  assumes "sink_ok (sink st)"
  shows "adds st (CheckExitState pc s tail st) (is_canonical_entry st \<and> exit_ok s)"
proof (cases "is_canonical_entry st")
  case False
  then show ?thesis by (simp add: CheckExitState_def Let_def adds_AddFinding assms)
next
  case True
  let ?ctx = "if tail then ''tail call'' else ''return''" and ?rsp = "reg s (int kDWARFRsp)"
  let ?st1 = "st\<lparr>sink := report pc [] (exit_rsp tail ?rsp ?ctx) (sink st)\<rparr>"
  let ?st2 = "?st1\<lparr>sink := fold (\<lambda>r. report pc [] (exit_reg s ?ctx r)) kCalleeSaved (sink ?st1)\<rparr>"
  let ?st3 = "?st2\<lparr>sink := report pc [] (exit_ra s ?ctx) (sink ?st2)\<rparr>"
  have 1: "adds st ?st1 (?rsp = CFARel (- 8))"
    using adds_report [OF assms, of pc "[]" "exit_rsp tail ?rsp ?ctx"] by (simp only: exit_checks_None)
  have 2: "adds ?st1 ?st2 (\<forall>r \<in> set kCalleeSaved. reg s (int r) = OrigReg r)"
    using adds_fold_report [OF adds_ok [OF 1], of pc "[]" "exit_reg s ?ctx" kCalleeSaved] by (simp only: exit_checks_None)
  have 3: "adds ?st2 ?st3 (Slot s (- 8) = OrigReg kDWARFRip)"
    using adds_report [OF adds_ok [OF 2], of pc "[]" "exit_ra s ?ctx"] by (simp only: exit_checks_None)
  show ?thesis
  proof (cases "tail \<and> \<not> IsCFARel ?rsp (- 8)")
    case amb: True
    have "CheckExitState pc s tail st = ?st1" using True amb by (simp add: CheckExitState_def Let_def)
    moreover have "adds st ?st1 False" using 1 amb by (auto simp: IsCFARel_def intro: adds_mono)
    ultimately show ?thesis by (auto intro: adds_mono)
  next
    case False
    have "CheckExitState pc s tail st = ?st3" using True False by (auto simp: CheckExitState_def Let_def)
    moreover have "adds st ?st3 (?rsp = CFARel (- 8) \<and> (\<forall>r \<in> set kCalleeSaved. reg s (int r) = OrigReg r) \<and>
        Slot s (- 8) = OrigReg kDWARFRip)"
      using adds_trans [OF 1 adds_trans [OF 2 3]] .
    ultimately show ?thesis using True by (simp add: exit_ok_def)
  qed
qed

lemma adds_verify_target:
  assumes "sink_ok (sink st)"
  shows "adds st (verify_target w pc s kind t st) (in_fde (cfi w) t \<or> cross_ok w t s)"
  using assms adds_CheckCrossFDEEdge [OF assms, of w pc t s]
  by (auto simp: verify_target_def addsI_refl adds_AddFinding split: option.split intro: adds_mono)

lemma adds_verify_conflicts: "sink_ok (sink st) \<Longrightarrow> adds st (verify_conflicts pc row st) True"
  unfolding verify_conflicts_def
  by (auto simp: addsI_refl adds_AddFinding split: option.split
      intro!: adds_mono [OF adds_fold [where P = "\<lambda>_. True"]])

lemma adds_verify_unbounded:
  assumes "sink_ok (sink st)"
  shows "adds st (verify_unbounded w pc s out st)
           (guessing_enabled w \<and> targets_ok w (ProbeJumpTable w (unbounded_jump_table_addr out) pc s) s)"
proof -
  let ?t = "if guessing_enabled w then ProbeJumpTable w (unbounded_jump_table_addr out) pc s else []"
  let ?st1 = "st\<lparr>unbounded_jump_count := unbounded_jump_count st + 1, unbounded_jump_pc := pc\<rparr>"
  let ?st2 = "?st1\<lparr>guessed := guessed ?st1 @ [\<lparr>gj_pc = pc, gj_table_addr = unbounded_jump_table_addr out, gj_targets = ?t\<rparr>]\<rparr>"
  have frame: "adds st ?st1 True" "adds st ?st2 True" using assms by (simp_all add: adds_def)
  show ?thesis
  proof (cases "?t = []")
    case True
    then have "verify_unbounded w pc s out st = AddFinding SevReview pc kUnresolvedIndirectJumpMsg ?st1"
      by (auto simp: verify_unbounded_def Let_def)
    then show ?thesis
      using adds_trans [OF frame(1) adds_AddFinding [OF adds_ok [OF frame(1)]], of _ _ _ False] by (auto intro: adds_mono)
  next
    case False
    then have "verify_unbounded w pc s out st = fold (verify_target w pc s ''guessed'') ?t ?st2"
      by (auto simp: verify_unbounded_def Let_def)
    moreover have "adds ?st2 (fold (verify_target w pc s ''guessed'') ?t ?st2) (\<forall>t \<in> set ?t. in_fde (cfi w) t \<or> cross_ok w t s)"
      by (rule adds_fold [OF adds_verify_target adds_ok [OF frame(2)]])
    ultimately show ?thesis
      using adds_trans [OF frame(2)] False by (auto simp: targets_ok_def split: if_splits intro: adds_mono)
  qed
qed

lemma adds_verify_direct:
  assumes "sink_ok (sink st)"
  shows "adds st (case CheckCrossFDEEdge w pc t s st of Some st' \<Rightarrow> st' | None \<Rightarrow> CheckExitState pc s True st)
           (if target_row w t \<noteq> None then cross_ok w t s else is_canonical_entry st \<and> exit_ok s)"
proof (cases "CheckCrossFDEEdge w pc t s st")
  case None
  then have "target_row w t = None" by (simp only: CheckCrossFDEEdge_None)
  with None adds_CheckExitState [OF assms, of pc s True] show ?thesis by simp
next
  case (Some st')
  then have "target_row w t \<noteq> None" using CheckCrossFDEEdge_None [of w pc t s st] by auto
  with Some adds_CheckCrossFDEEdge [OF assms Some] show ?thesis by simp
qed

lemma adds_verify_outcome:
  assumes ok: "sink_ok (sink st)"
  shows "adds st (verify_outcome w pc s out st) (review_reason out = [] \<longrightarrow> outcome_clean w (is_canonical_entry st) pc s out)"
proof -
  let ?ts = "ResolveJumpTable (options w) (jump_table_addr out) (jump_table_entries out)"
  have tab: "adds st (fold (verify_target w pc s ''resolved'') ?ts st) (\<forall>t \<in> set ?ts. in_fde (cfi w) t \<or> cross_ok w t s)"
    by (rule adds_fold [OF adds_verify_target ok])
  consider "has_jump_table out" "?ts = []" | "has_jump_table out" "?ts \<noteq> []"
    | "\<not> has_jump_table out" "has_unbounded_jump_target out"
    | "\<not> has_jump_table out" "\<not> has_unbounded_jump_target out" by blast
  then show ?thesis
  proof cases
    case 1
    then show ?thesis by (simp add: verify_outcome_def Let_def adds_AddFinding ok)
  next
    case 2
    then show ?thesis
      using adds_mono [OF tab] by (simp add: verify_outcome_def Let_def outcome_clean_def targets_ok_def)
  next
    case 3
    then show ?thesis
      using adds_mono [OF adds_verify_unbounded [OF ok, of w pc s out]] by (simp add: verify_outcome_def outcome_clean_def)
  next
    case 4
    then show ?thesis
      using adds_mono [OF adds_verify_direct [OF ok, where w = w and pc = pc and t = "direct_target out" and s = s]]
        adds_mono [OF adds_CheckExitState [OF ok, of pc s False]]
      by (simp add: verify_outcome_def outcome_clean_def adds_AddFinding ok addsI_refl)
  qed
qed

lemma adds_verify_insn:
  assumes "sink_ok (sink st0)"
  shows "adds st0 (verify_insn w pc st0) (insn_clean w (is_canonical_entry st0) pc (state_at st0 pc))"
proof -
  let ?s = "state_at st0 pc"
  let ?st = "st0\<lparr>trace := trace st0 @ [\<lparr>tr_pc = pc, tr_state = ?s\<rparr>]\<rparr>"
  have 0: "adds st0 ?st True" using assms by (simp add: adds_def)
  show ?thesis
  proof (cases "\<exists>i. DecodeAt w pc = Some i \<and> pc + of_nat (insn_size i) \<le> pc_end (cfi w)")
    case False
    then have "\<exists>msg. verify_insn w pc st0 = AddFinding SevReview pc msg ?st"
      by (auto simp: verify_insn_def Let_def split: option.split)
    then show ?thesis
      using adds_trans [OF 0 adds_AddFinding [OF adds_ok [OF 0], where P = False]] by (auto intro: adds_False)
  next
    case True
    then obtain i where i: "DecodeAt w pc = Some i" "\<not> pc + of_nat (insn_size i) > pc_end (cfi w)" by auto
    let ?row = "RowAt (cfi w) pc" and ?out = "fst (Transfer (opt_disasm (options w)) i ?s)"
    define st1 where "st1 = ?st\<lparr>checked := checked ?st + 1\<rparr>"
    define st2 where "st2 = (case ?row of
        None \<Rightarrow> AddFinding SevReview pc ''no CFI row covers this address'' st1
      | Some rw \<Rightarrow> st1\<lparr>sink := CheckRow (options w) pc rw ?s [] False (sink st1)\<rparr>)"
    define st3 where "st3 = verify_conflicts pc ?row st2"
    define st4 where "st4 = (if review_reason ?out \<noteq> [] then AddFinding SevReview pc (review_reason ?out) st3 else st3)"
    have eq: "verify_insn w pc st0 = verify_outcome w pc ?s ?out st4"
      by (simp only: verify_insn_def Let_def st4_def st3_def st2_def st1_def i option.case if_False)
    have 1: "adds st0 st1 True" using assms by (simp add: adds_def st1_def)
    have 2: "adds st1 st2 (\<exists>row. ?row = Some row \<and> row_holds (check_unmentioned_callee_saved (options w)) row ?s)"
      using adds_CheckRow [OF adds_ok [OF 1], of "options w" pc _ ?s "[]" False] adds_AddFinding [OF adds_ok [OF 1]]
      by (auto simp: st2_def split: option.split)
    have 3: "adds st2 st3 True" unfolding st3_def by (rule adds_verify_conflicts [OF adds_ok [OF 2]])
    have 4: "adds st3 st4 (review_reason ?out = [])"
      using adds_ok [OF 3] by (simp add: st4_def adds_AddFinding addsI_refl)
    note upto = adds_trans [OF 1 adds_trans [OF 2 adds_trans [OF 3 4]]]
    have can: "is_canonical_entry st4 = is_canonical_entry st0" using upto by (simp add: adds_def)
    from adds_trans [OF upto adds_verify_outcome [OF adds_ok [OF 4], of w pc ?s ?out]] show ?thesis
      unfolding eq by (rule adds_mono) (use i can in \<open>auto simp: insn_clean_def\<close>)
  qed
qed


subsection \<open>The trace and the whole pass\<close>

lemma trace_AddFinding [simp]: "trace (AddFinding sev pc msg st) = trace st"
  by (simp add: AddFinding_def)

lemma trace_CheckExitState [simp]: "trace (CheckExitState pc s t st) = trace st"
  by (simp add: CheckExitState_def Let_def)

lemma trace_CheckCrossFDEEdge: "CheckCrossFDEEdge w pc t s st = Some st' \<Longrightarrow> trace st' = trace st"
  by (auto simp: CheckCrossFDEEdge_def split: option.splits)

lemma trace_verify_target [simp]: "trace (verify_target w pc s kind t st) = trace st"
  by (auto simp: verify_target_def trace_CheckCrossFDEEdge split: option.split)

lemma trace_fold_target [simp]: "trace (fold (verify_target w pc s kind) ts st) = trace st"
  by (induction ts arbitrary: st) simp_all

lemma trace_verify_conflicts [simp]: "trace (verify_conflicts pc row st) = trace st"
proof -
  have "trace (fold (\<lambda>c st. case row of None \<Rightarrow> st
      | Some rw \<Rightarrow> if RowDependsOn rw c then AddFinding SevReview pc (disagree_msg c) st else st) cs st) = trace st" for cs st
    by (induction cs arbitrary: st) (simp_all split: option.split)
  then show ?thesis by (simp add: verify_conflicts_def split: option.split)
qed

lemma trace_verify_outcome [simp]: "trace (verify_outcome w pc s out st) = trace st"
  by (auto simp: verify_outcome_def verify_unbounded_def Let_def trace_CheckCrossFDEEdge split: option.split)

lemma trace_verify_insn: "trace (verify_insn w pc st) = trace st @ [\<lparr>tr_pc = pc, tr_state = state_at st pc\<rparr>]"
  by (simp add: verify_insn_def Let_def split: option.split)

lemma fold_verify_insn:
  assumes "sink_ok (sink st)"
  shows "adds st (fold (verify_insn w) pcs st) (\<forall>pc \<in> set pcs. insn_clean w (is_canonical_entry st) pc (state_at st pc)) \<and>
         trace (fold (verify_insn w) pcs st) = trace st @ map (\<lambda>pc. \<lparr>tr_pc = pc, tr_state = state_at st pc\<rparr>) pcs"
  using assms
proof (induction pcs arbitrary: st)
  case (Cons pc pcs)
  have 1: "adds st (verify_insn w pc st) (insn_clean w (is_canonical_entry st) pc (state_at st pc))"
    by (rule adds_verify_insn [OF Cons.prems])
  then have same: "is_canonical_entry (verify_insn w pc st) = is_canonical_entry st"
    "state_at (verify_insn w pc st) q = state_at st q" for q
    by (simp_all add: adds_def state_at_def)
  note ih = Cons.IH [OF adds_ok [OF 1]]
  have "adds st (fold (verify_insn w) (pc # pcs) st)
      (insn_clean w (is_canonical_entry st) pc (state_at st pc) \<and>
       (\<forall>pc \<in> set pcs. insn_clean w (is_canonical_entry st) pc (state_at st pc)))"
    using adds_trans [OF 1 ih [THEN conjunct1]] by (simp add: same)
  with ih show ?case by (simp add: same trace_verify_insn)
qed (simp add: addsI_refl)

lemma VerifyPass_adds:
  "sink_ok (sink st) \<Longrightarrow>
   adds st (VerifyPass w st) (\<forall>pc \<in> fst ` set (in_states st). insn_clean w (is_canonical_entry st) pc (state_at st pc)) \<and>
   trace (VerifyPass w st) = trace st @ map (\<lambda>pc. \<lparr>tr_pc = pc, tr_state = state_at st pc\<rparr>) (sort (map fst (in_states st)))"
  using fold_verify_insn [of st w "sort (map fst (in_states st))"] by (simp add: VerifyPass_def)

lemma gaps_loop_sink:
  assumes "gaps_loop w sizes pc k = Some k'"
  shows "sink_ok k \<longrightarrow> sink_ok k' \<and> sink_weight k \<le> sink_weight k'"
proof (rule gaps_loop.raw_induct [OF _ assms])
  fix loop w sizes pc k k'
  assume 1: "\<And>w sizes pc k k'. loop w sizes pc k = Some k' \<Longrightarrow> sink_ok k \<longrightarrow> sink_ok k' \<and> sink_weight k \<le> sink_weight k'"
    "(if pc < pc_end (cfi w)
      then case map_of sizes pc of
             None \<Rightarrow> Option.bind (scan_gap w sizes pc True) (\<lambda>r. loop w sizes (fst r)
                       (if snd r then k else Add SevReview pc (gap_msg (fst r - pc)) k))
           | Some n \<Rightarrow> loop w sizes (pc + of_nat n) k
      else Some k) = Some k'"
  show "sink_ok k \<longrightarrow> sink_ok k' \<and> sink_weight k \<le> sink_weight k'"
  proof (cases "pc < pc_end (cfi w)")
    case False
    with 1(2) show ?thesis by simp
  next
    case lt: True
    show ?thesis
    proof (cases "map_of sizes pc")
      case (Some n)
      with lt 1(2) have "loop w sizes (pc + of_nat n) k = Some k'" by simp
      then show ?thesis by (rule 1(1))
    next
      case None
      with lt 1(2) obtain r where
        r: "loop w sizes (fst r) (if snd r then k else Add SevReview pc (gap_msg (fst r - pc)) k) = Some k'"
        by (auto split: bind_splits)
      show ?thesis
        using 1(1) [OF r] by (auto simp: sink_ok_Add sink_weight_Add split: if_splits)
    qed
  qed
qed

lemma ReportCoverageGaps_adds:
  "sink_ok (sink st) \<Longrightarrow> ReportCoverageGaps w st = Some st' \<Longrightarrow> adds st st' True \<and> trace st' = trace st"
  using gaps_loop_sink by (auto simp: ReportCoverageGaps_def adds_def split: if_splits)


subsection \<open>Pass 1 as a whole\<close>

text \<open>The call sites a walk works with: those whose landing pad lies in the FDE.\<close>

definition walk_sites :: "walk \<Rightarrow> LSDACallSite list" where
  "walk_sites w =
     (if lsda_addr (cfi w) = 0 then []
      else case ReadLSDACallSites (opt_image (options w)) (lsda_addr (cfi w)) (pc_begin (cfi w)) of
             Some (Inr sites) \<Rightarrow> filter (\<lambda>cs. in_fde (cfi w) (landing_pad cs)) sites
           | _ \<Rightarrow> [])"

definition settled :: "walk \<Rightarrow> CFIRow \<Rightarrow> FDEChecker \<Rightarrow> bool" where
  "settled w first_row st \<longleftrightarrow>
     walk_inv w {} st \<and> (worklist st = [] \<or> hit_cap st) \<and>
     covered (in_states st) (pc_begin (cfi w), SeedFromRow first_row (IsCanonicalEntry first_row)) \<and>
     sink_ok (sink st) \<and> trace st = [] \<and> is_canonical_entry st = IsCanonicalEntry first_row \<and> call_sites st = walk_sites w"

lemma seed_landing_pad_inv:
  assumes "walk_inv w {} st" "sink_ok (sink st)"
    and "seed_landing_pad w lp (b, st) = (b', st')"
  shows "walk_inv w {} st' \<and> sink_ok (sink st') \<and> (\<forall>e. covered (in_states st) e \<longrightarrow> covered (in_states st') e) \<and>
     (\<not> b' \<longrightarrow> st' = st \<and> \<not> b) \<and> trace st' = trace st \<and> is_canonical_entry st' = is_canonical_entry st \<and> call_sites st' = call_sites st"
proof (cases "map_of (in_states st) lp \<noteq> None \<or> RowAt (cfi w) lp = None")
  case True
  then have "b' = b" "st' = st" using assms(3) by (auto simp: seed_landing_pad_def split: if_splits option.splits)
  then show ?thesis using assms(1,2) by simp
next
  case False
  then obtain row where row: "RowAt (cfi w) lp = Some row" "map_of (in_states st) lp = None" by auto
  let ?st1 = "AddFinding SevReview lp landing_pad_msg st"
  have st': "b'" "st' = Propagate lp (SeedFromRow row False) ?st1"
    using row assms(3) by (simp_all add: seed_landing_pad_def)
  have inv1: "walk_inv w {} ?st1"
    using assms(1) walk_inv_cong [of ?st1 st w "{}"] by (simp add: AddFinding_def)
  then have wf1: "walk_wf ?st1" by (simp add: walk_inv_def)
  have g: "grows ?st1 st'" using grows_Propagate [OF wf1 wf_state_SeedFromRow] st' by simp
  have "walk_inv w {} st'"
    using walk_inv_grows [OF inv1 g] walk_wf_Propagate [OF wf1 wf_state_SeedFromRow] st' by simp
  moreover have "covered (in_states st') e" if "covered (in_states st) e" for e
    using covered_grows [OF _ g, of e] that by (simp add: AddFinding_def)
  ultimately show ?thesis
    using grows_ctl [OF g] st'(1) assms(2) by (simp add: same_ctl_def AddFinding_def sink_ok_Add)
qed

lemma fold_seed_landing_pad:
  assumes "walk_inv w {} st" "sink_ok (sink st)"
    and "fold (seed_landing_pad w) lps (b, st) = (b', st')"
  shows "walk_inv w {} st' \<and> sink_ok (sink st') \<and> (\<forall>e. covered (in_states st) e \<longrightarrow> covered (in_states st') e) \<and>
     (\<not> b' \<longrightarrow> st' = st \<and> \<not> b) \<and> trace st' = trace st \<and> is_canonical_entry st' = is_canonical_entry st \<and> call_sites st' = call_sites st"
  using assms
proof (induction lps arbitrary: b st)
  case (Cons lp lps)
  obtain b1 st1 where 1: "seed_landing_pad w lp (b, st) = (b1, st1)" by fastforce
  note inv1 = seed_landing_pad_inv [OF Cons.prems(1,2) 1]
  have "fold (seed_landing_pad w) lps (b1, st1) = (b', st')" using Cons.prems(3) 1 by simp
  with Cons.IH [of st1 b1] inv1 show ?case by auto
qed simp

lemma SeedUnreached_settled:
  assumes "settled w first_row st" "\<not> null_deref (SeedUnreachedLandingPads w st)"
  shows "settled w first_row (SeedUnreachedLandingPads w st)"
proof -
  let ?lps = "remdups_adj (sort (map landing_pad (call_sites st)))"
  obtain b st' where f: "fold (seed_landing_pad w) ?lps (False, st) = (b, st')" by fastforce
  have inv: "walk_inv w {} st" "sink_ok (sink st)" using assms(1) by (simp_all add: settled_def)
  note fs = fold_seed_landing_pad [OF inv f]
  show ?thesis
  proof (cases b)
    case False
    then show ?thesis using fs f assms(1) by (simp add: SeedUnreachedLandingPads_def)
  next
    case True
    then have eq: "SeedUnreachedLandingPads w st = Drain w st'" using f by (simp add: SeedUnreachedLandingPads_def)
    show ?thesis
      using assms fs Drain_post [of w st'] Drain_report [of st' w] unfolding eq
      by (auto simp: settled_def drain_post_def same_report_def)
  qed
qed

lemma dataflow_settled:
  assumes "dataflow w first_row = Some st" "\<not> null_deref st"
  shows "settled w first_row st"
proof -
  let ?can = "IsCanonicalEntry first_row"
  let ?st0 = "(FDEChecker0 (max_findings_per_fde (options w)))\<lparr>is_canonical_entry := ?can\<rparr>"
  obtain st1 where s1: "SetupCallSites w (CheckEntryRow w first_row ?st0) = Some st1"
    using assms(1) by (auto simp: dataflow_def Let_def)
  let ?st2 = "Propagate (pc_begin (cfi w)) (SeedFromRow first_row ?can) st1"
  have st: "st = SeedUnreachedLandingPads w (Drain w ?st2)"
    using assms(1) s1 by (simp add: dataflow_def Let_def)
  have base: "walk_inv w {} st1 \<and> sink_ok (sink st1) \<and> trace st1 = [] \<and> is_canonical_entry st1 = ?can \<and> call_sites st1 = walk_sites w"
    using s1 by (auto simp: walk_sites_def SetupCallSites_def CheckEntryRow_def AddFinding_def FDEChecker0_def walk_inv_def walk_wf_def
        pending_def sink_ok_0 sink_ok_Add split: if_splits option.splits sum.splits)
  then have wf1: "walk_wf st1" by (simp add: walk_inv_def)
  note g = grows_Propagate [OF wf1 wf_state_SeedFromRow, of "pc_begin (cfi w)" first_row ?can]
  have inv2: "walk_inv w {} ?st2"
    using walk_inv_grows [of w "{}" st1 ?st2] base g walk_wf_Propagate [OF wf1 wf_state_SeedFromRow] by blast
  have nd: "\<not> null_deref (Drain w ?st2)"
  proof
    assume n: "null_deref (Drain w ?st2)"
    have "null_deref (snd (fold (seed_landing_pad w) lps (b, s)))" if "null_deref s" for lps b s
      using that
    proof (induction lps arbitrary: b s)
      case (Cons lp lps)
      have "null_deref (snd (seed_landing_pad w lp (b, s)))"
        using Cons.prems Propagate_ctl [of "AddFinding SevReview lp landing_pad_msg s" lp]
        by (auto simp: seed_landing_pad_def same_ctl_def AddFinding_def split: option.split)
      then show ?case using Cons.IH by (metis fold_simps(2) prod.collapse)
    qed simp
    from this [OF n] have "null_deref st"
      unfolding st SeedUnreachedLandingPads_def
      using Drain_report by (auto simp: same_report_def split: prod.split) (metis snd_conv)+
    with assms(2) show False by simp
  qed
  have "settled w first_row (Drain w ?st2)"
    using base g inv2 nd Drain_post [of w ?st2] Drain_report [of ?st2 w] grows_ctl [of st1 ?st2]
    by (auto simp: settled_def drain_post_def same_report_def same_ctl_def)
  then show ?thesis using SeedUnreached_settled assms(2) unfolding st by blast
qed

end
