(* ===== verification/Reach_Props.thy ===== *)
theory Reach_Props
  imports Verify_Props
begin

text \<open>
  Where the walk goes and that it ends. What is assumed of the disassembler is what Zydis
  documents: the length of a decoded instruction is at least one and at most the bytes it was
  given (\<open>decoder_ok\<close>). Under that, and once a row covers the start of the FDE, every reached
  address lies in the FDE, no null row is dereferenced and every loop ends.
\<close>

definition decoder_ok :: "zydis \<Rightarrow> bool" where
  "decoder_ok Z \<longleftrightarrow> (\<forall>bytes di ops. zy_DecodeFull Z bytes = Some (di, ops) \<longrightarrow>
     1 \<le> insn_length di \<and> insn_length di \<le> length bytes)"

definition first_row_ok :: "CFI \<Rightarrow> bool" where
  "first_row_ok c \<longleftrightarrow> rows c \<noteq> [] \<and> pc_start (hd (rows c)) \<le> pc_begin c"

text \<open>No segment of the image reaches the end of the address space.\<close>

definition image_ok :: "ELFImage \<Rightarrow> bool" where
  "image_ok img \<longleftrightarrow> (\<forall>seg \<in> set (segments img). unat (seg_vaddr seg) + unat (seg_filesz seg) < 2 ^ 64)"

subsection \<open>Bytes and instructions\<close>

lemma bytes_in_bound:
  "length (bytes_in img v sz segs) \<le> unat sz \<and>
   (bytes_in img v sz segs \<noteq> [] \<longrightarrow> (\<exists>seg \<in> set segs. seg_vaddr seg \<le> v \<and>
      unat v + length (bytes_in img v sz segs) \<le> unat (seg_vaddr seg) + unat (seg_filesz seg)))"
proof (induction segs)
  case (Cons seg segs)
  show ?case
  proof (cases "v < seg_vaddr seg \<or> v - seg_vaddr seg \<ge> seg_filesz seg")
    case True
    with Cons show ?thesis by (auto simp: Let_def)
  next
    case False
    then have ge: "seg_vaddr seg \<le> v" and lt: "v - seg_vaddr seg < seg_filesz seg" by auto
    have len: "length (bytes_in img v sz (seg # segs)) = unat (min sz (seg_filesz seg - (v - seg_vaddr seg)))"
      using False by (simp add: Let_def)
    have off: "unat (v - seg_vaddr seg) = unat v - unat (seg_vaddr seg)"
      using ge by (simp add: unat_sub)
    have "unat (seg_filesz seg - (v - seg_vaddr seg)) = unat (seg_filesz seg) - unat (v - seg_vaddr seg)"
      using lt by (simp add: unat_sub)
    moreover have "unat (v - seg_vaddr seg) < unat (seg_filesz seg)" using lt by (simp add: word_less_nat_alt)
    moreover have "unat (seg_vaddr seg) \<le> unat v" using ge by (simp add: word_le_nat_alt)
    ultimately have "unat v + unat (seg_filesz seg - (v - seg_vaddr seg)) = unat (seg_vaddr seg) + unat (seg_filesz seg)"
      using off by simp
    moreover have "unat (min sz (seg_filesz seg - (v - seg_vaddr seg))) \<le> unat sz"
      "unat (min sz (seg_filesz seg - (v - seg_vaddr seg))) \<le> unat (seg_filesz seg - (v - seg_vaddr seg))"
      by (simp_all add: word_le_nat_alt min_def)
    ultimately show ?thesis unfolding len using ge by fastforce
  qed
qed simp

lemma BytesAt_length: "length (BytesAt img v sz) \<le> unat sz"
  using bytes_in_bound [of img v sz "segments img"] by (simp add: BytesAt_def)

lemma BytesAt_no_wrap:
  assumes "image_ok img" "BytesAt img v sz \<noteq> []"
  shows "unat v + length (BytesAt img v sz) < 2 ^ 64"
  using assms bytes_in_bound [of img v sz "segments img"] unfolding BytesAt_def image_ok_def
  by (meson le_less_trans)

lemma Decode_size:
  assumes "decoder_ok Z" "Decode Z bytes pc = Some i"
  shows "1 \<le> insn_size i" "insn_size i \<le> length bytes"
proof -
  obtain di ops where "zy_DecodeFull Z bytes = Some (di, ops)" "insn_size i = insn_length di"
    using assms(2) by (auto simp: Decode_def split: option.splits)
  with assms(1) show "1 \<le> insn_size i" "insn_size i \<le> length bytes" by (auto simp: decoder_ok_def)
qed

lemma DecodeAt_size:
  assumes "decoder_ok (opt_disasm (options w))" "DecodeAt w pc = Some i" "pc < pc_end (cfi w)"
  shows "1 \<le> insn_size i" "unat pc + insn_size i \<le> unat (pc_end (cfi w))"
    "unat (pc + of_nat (insn_size i)) = unat pc + insn_size i"
proof -
  let ?sz = "min 16 (pc_end (cfi w) - pc)"
  note d = Decode_size [OF assms(1) assms(2) [unfolded DecodeAt_def]]
  have "insn_size i \<le> unat ?sz" using d(2) BytesAt_length le_trans by blast
  also have "\<dots> \<le> unat (pc_end (cfi w) - pc)" by (simp add: word_le_nat_alt [symmetric])
  also have "\<dots> = unat (pc_end (cfi w)) - unat pc" using assms(3) by (simp add: unat_sub)
  finally show le: "unat pc + insn_size i \<le> unat (pc_end (cfi w))"
    using assms(3) by (simp add: word_less_nat_alt)
  show "1 \<le> insn_size i" by (rule d(1))
  have "unat (pc_end (cfi w)) < 2 ^ 64" using unsigned_less [of "pc_end (cfi w)", where 'a = nat] by simp
  with le have "insn_size i < 2 ^ 64" "unat pc + insn_size i < 2 ^ 64" by linarith+
  then show "unat (pc + of_nat (insn_size i)) = unat pc + insn_size i"
    by (simp add: unat_word_ariths unat_of_nat)
qed

subsection \<open>Edges stay in the FDE\<close>

lemma LandingPadForCall_mem: "LandingPadForCall sites pc = Some lp \<Longrightarrow> \<exists>cs \<in> set sites. landing_pad cs = lp"
  by (auto simp: LandingPadForCall_def split: option.splits if_splits dest: last_le_SomeD)

lemma call_edges_mem: "e \<in> set (call_edges sites pc out s) \<Longrightarrow> LandingPadForCall sites pc = Some (fst e)"
  unfolding call_edges_def by (cases "LandingPadForCall sites pc"; cases "is_call out") simp_all

lemma flow_edgesE:
  assumes "flow_edges w sites pc i s = Some es"
  obtains out s' ft where "fall_through_edges w pc i (gpr s) out s' = Some ft"
    "es = call_edges sites pc out s' @ ft @ direct_edges w i out s' @ table_edges w pc out s'"
proof (cases "Transfer (opt_disasm (options w)) i s")
  case (Pair out s')
  with assms that show ?thesis by (auto simp only: flow_edges_def split_conv map_option_eq_Some)
qed

lemma flow_edges_in_fde:
  assumes "decoder_ok (opt_disasm (options w))" "DecodeAt w pc = Some i" "in_fde (cfi w) pc"
    and "\<forall>cs \<in> set sites. in_fde (cfi w) (landing_pad cs)"
    and "flow_edges w sites pc i s = Some es" "e \<in> set es"
  shows "in_fde (cfi w) (fst e)"
proof -
  have pc: "pc_begin (cfi w) \<le> pc" "pc < pc_end (cfi w)" using assms(3) by (simp_all add: in_fde_def)
  note sz = DecodeAt_size [OF assms(1,2) pc(2)]
  have "pc \<le> pc + of_nat (insn_size i)" using sz(3) by (simp add: word_le_nat_alt)
  then have le: "pc_begin (cfi w) \<le> pc + of_nat (insn_size i)" using pc(1) by order
  obtain out s' ft where ft: "fall_through_edges w pc i (gpr s) out s' = Some ft"
    and es: "es = call_edges sites pc out s' @ ft @ direct_edges w i out s' @ table_edges w pc out s'"
    using assms(5) by (rule flow_edgesE)
  have "in_fde (cfi w) (fst e)" if "e \<in> set (call_edges sites pc out s')"
    using LandingPadForCall_mem [OF call_edges_mem [OF that]] assms(4) by fastforce
  moreover have "in_fde (cfi w) (fst e)" if "e \<in> set ft"
    using that ft le by (auto simp: fall_through_edges_def Let_def in_fde_def split: if_splits)
  moreover have "in_fde (cfi w) (fst e)" if "e \<in> set (direct_edges w i out s')"
    using that by (auto simp: direct_edges_def split: if_splits)
  moreover have "in_fde (cfi w) (fst e)" if "e \<in> set (table_edges w pc out s')"
    using that by (simp only: table_edges_def) auto
  ultimately show ?thesis using assms(6) es by auto
qed

lemma RowIndexAt_Some:
  assumes "first_row_ok c" "in_fde c pc"
  shows "RowIndexAt c pc \<noteq> None"
proof -
  obtain r rs where "rows c = r # rs" using assms(1) by (cases "rows c") (auto simp: first_row_ok_def)
  moreover have "\<not> pc < pc_start (hd (rows c))" using assms by (auto simp: first_row_ok_def in_fde_def)
  ultimately show ?thesis
    using assms(2) by (auto simp: RowIndexAt_def in_fde_def Let_def upper_bound_idx_def)
qed

lemma RowAt_start:
  assumes "RowAt c (pc_begin c) = Some row"
  shows "first_row_ok c" "in_fde c (pc_begin c)"
proof -
  have r: "rows c \<noteq> []" "pc_begin c < pc_end c" "last_le pc_start (pc_begin c) (rows c) = Some row"
    using assms by (auto simp: RowAt_def split: if_splits)
  then show "in_fde c (pc_begin c)" by (simp add: in_fde_def)
  from r show "first_row_ok c"
    by (cases "rows c") (auto simp: first_row_ok_def last_le_Cons split: if_splits)
qed

lemma flow_edges_Some:
  assumes "first_row_ok (cfi w)" "in_fde (cfi w) pc"
  shows "flow_edges w sites pc i s \<noteq> None"
proof -
  obtain j where "RowIndexAt (cfi w) pc = Some j" using RowIndexAt_Some [OF assms] by blast
  then have "FallThroughIsReal (cfi w) (RowIndexAt (cfi w) pc) next_pc before after c \<noteq> None" for next_pc before after c
    by (auto simp: FallThroughIsReal_def Let_def split: option.split)
  then show ?thesis
    by (auto simp: flow_edges_def fall_through_edges_def Let_def split: prod.split)
qed

subsection \<open>The reach invariant\<close>

definition reach_inv :: "walk \<Rightarrow> FDEChecker \<Rightarrow> bool" where
  "reach_inv w st \<longleftrightarrow>
     (\<forall>pc. map_of (in_states st) pc \<noteq> None \<longrightarrow> in_fde (cfi w) pc) \<and> (\<forall>pc \<in> set (worklist st). map_of (in_states st) pc \<noteq> None) \<and>
     (\<forall>pc n. map_of (insn_sizes st) pc = Some n \<longrightarrow>
        (\<exists>i. DecodeAt w pc = Some i \<and> insn_size i = n) \<and> map_of (in_states st) pc \<noteq> None) \<and>
     (\<forall>cs \<in> set (call_sites st). in_fde (cfi w) (landing_pad cs)) \<and> \<not> null_deref st"

lemma reach_inv_Propagate:
  assumes "reach_inv w st" "in_fde (cfi w) pc"
  shows "reach_inv w (Propagate pc s st)"
proof (cases rule: Propagate_cases [where st = st and pc = pc and s = s])
  case New
  then show ?thesis using assms by (auto simp: reach_inv_def update_conv' split: if_splits)
next
  case (Old old jc wl pp)
  then have "set wl \<subseteq> insert pc (set (worklist st))" by (cases "fst (Join s old) \<and> \<not> pending st pc") auto
  then show ?thesis using assms Old(1,2) by (auto simp: reach_inv_def update_conv' split: if_splits)
qed

lemma reach_inv_propagate_all:
  "reach_inv w st \<Longrightarrow> \<forall>e \<in> set es. in_fde (cfi w) (fst e) \<Longrightarrow> reach_inv w (propagate_all es st)"
  unfolding propagate_all_def by (induction es arbitrary: st) (auto simp: reach_inv_Propagate)

lemma reach_inv_drain_step:
  assumes "decoder_ok (opt_disasm (options w))" "first_row_ok (cfi w)" "reach_inv w st" "in_fde (cfi w) pc"
    and "map_of (in_states st) pc \<noteq> None"
  shows "reach_inv w (drain_step w pc st)"
proof (cases "DecodeAt w pc")
  case None
  then show ?thesis using assms(3) by (simp add: drain_step_def)
next
  case (Some i)
  obtain es where es: "flow_edges w (call_sites st) pc i (state_at st pc) = Some es"
    using flow_edges_Some [OF assms(2,4)] by blast
  have "\<forall>e \<in> set es. in_fde (cfi w) (fst e)"
    using flow_edges_in_fde [OF assms(1) Some assms(4) _ es] assms(3) by (auto simp: reach_inv_def)
  moreover have "reach_inv w (st\<lparr>insn_sizes := AList.update pc (insn_size i) (insn_sizes st)\<rparr>)"
    using assms(3,5) Some by (auto simp: reach_inv_def update_conv' split: if_splits)
  ultimately show ?thesis using Some es reach_inv_propagate_all by (simp add: drain_step_def)
qed

lemma reach_inv_Drain:
  assumes "decoder_ok (opt_disasm (options w))" "first_row_ok (cfi w)"
  shows "reach_inv w st \<longrightarrow> reach_inv w (Drain w st)"
proof (induction rule: Drain_induct)
  case (cap st)
  then show ?case by (simp add: reach_inv_def)
next
  case (step st st' r)
  let ?p = "pop_worklist (st\<lparr>iterations := iterations st + 1\<rparr>)" and ?pc = "hd (worklist st)"
  have "reach_inv w st'" if "reach_inv w st"
  proof -
    have "map_of (in_states st) ?pc \<noteq> None" using that step(1) by (simp add: reach_inv_def)
    moreover from this have "in_fde (cfi w) ?pc" using that by (simp add: reach_inv_def)
    moreover have "reach_inv w ?p"
      using that step(1) by (cases "worklist st") (auto simp: reach_inv_def pop_worklist_def)
    ultimately have "reach_inv w (drain_step w ?pc ?p)" using reach_inv_drain_step [OF assms] by simp
    then show ?thesis by (simp add: step(3) reach_inv_def)
  qed
  with step(4) show ?case by blast
qed simp


subsection \<open>The loops end\<close>

lemma unat_add_small: "unat v + n < 2 ^ 64 \<Longrightarrow> unat (v + of_nat n :: u64) = unat v + n"
  by (simp add: unat_word_ariths unat_of_nat)

lemma LSDA_ReadU8_adv:
  assumes "image_ok img" "LSDA_ReadU8 img v = Inr (b, v')"
  shows "unat v' = unat v + 1"
proof -
  have ne: "BytesAt img v 1 \<noteq> []" "v' = v + 1" using assms(2) by (auto simp: LSDA_ReadU8_def split: list.splits)
  then have "unat v + length (BytesAt img v 1) < 2 ^ 64" by (intro BytesAt_no_wrap assms(1))
  moreover have "1 \<le> length (BytesAt img v 1)" using ne(1) by (simp add: Suc_le_eq)
  ultimately have "unat v + 1 < 2 ^ 64" by linarith
  with ne(2) unat_add_small [of v 1] show ?thesis by simp
qed

lemma LSDA_ReadUleb128_adv:
  assumes "image_ok img"
  shows "LSDA_ReadUleb128_loop img r k v = Inr (x, v') \<Longrightarrow> unat v < unat v'"
proof (induction "64 - k" arbitrary: r k v rule: less_induct)
  case less
  obtain b v1 where b: "k < 64" "LSDA_ReadU8 img v = Inr (b, v1)"
    using less.prems by (subst (asm) LSDA_ReadUleb128_loop.simps) (auto simp: bindR_eq_Inr split: if_splits)
  have v1: "unat v1 = unat v + 1" by (rule LSDA_ReadU8_adv [OF assms b(2)])
  show ?case
  proof (cases "b AND 0x80 = 0")
    case True
    then show ?thesis using less.prems b v1 by (subst (asm) LSDA_ReadUleb128_loop.simps) (simp add: Let_def)
  next
    case False
    then have "LSDA_ReadUleb128_loop img (r OR push_bit k (ucast (b AND 0x7f))) (k + 7) v1 = Inr (x, v')"
      using less.prems b by (subst (asm) LSDA_ReadUleb128_loop.simps) (simp add: Let_def)
    moreover have "64 - (k + 7) < 64 - k" using b(1) by linarith
    ultimately have "unat v1 < unat v'" using less.hyps by blast
    with v1 show ?thesis by simp
  qed
qed

lemma ReadFixed_adv:
  assumes "image_ok img" "1 \<le> n" "ReadFixed img n sg pcrel v = Inr (x, v')"
  shows "unat v < unat v'"
proof -
  have b: "n \<le> length (BytesAt img v (of_nat n))" "v' = v + of_nat n"
    using assms(3) by (auto simp: ReadFixed_def Let_def split: if_splits)
  then have "BytesAt img v (of_nat n) \<noteq> []" using assms(2) by auto
  then have "unat v + length (BytesAt img v (of_nat n)) < 2 ^ 64" by (rule BytesAt_no_wrap [OF assms(1)])
  with b(1) have "unat v + n < 2 ^ 64" by linarith
  with b(2) assms(2) show ?thesis by (simp add: unat_add_small)
qed

lemma ReadEncoded_adv:
  assumes "image_ok img" "ReadEncoded img enc v = Inr (x, v')"
  shows "unat v < unat v'"
  using assms(2) LSDA_ReadUleb128_adv [OF assms(1)]
  by (auto simp: ReadEncoded_def LSDA_ReadUleb128_def Let_def split: if_splits dest: ReadFixed_adv [OF assms(1), rotated])

lemma read_call_site_adv:
  assumes "image_ok img" "read_call_site img enc lp v = Inr (cs, v')"
  shows "unat v < unat v'"
proof -
  obtain v1 v2 v3 x1 x2 x3 x4 where r: "ReadEncoded img enc v = Inr (x1, v1)" "ReadEncoded img enc v1 = Inr (x2, v2)"
    "ReadEncoded img enc v2 = Inr (x3, v3)" "LSDA_ReadUleb128 img v3 = Inr (x4, v')"
    using assms(2) by (auto simp: read_call_site_def bindR_eq_Inr)
  note adv = r(1-3) [THEN ReadEncoded_adv [OF assms(1)]] LSDA_ReadUleb128_adv [OF assms(1) r(4) [unfolded LSDA_ReadUleb128_def]]
  from adv show ?thesis by linarith
qed

lemma call_site_loop_ends:
  assumes "image_ok img"
  shows "call_site_loop img enc lp e v cs \<noteq> None"
proof (induction "2 ^ 64 - unat v" arbitrary: v cs rule: less_induct)
  case less
  show ?case
  proof (cases "read_call_site img enc lp v")
    case (Inl e)
    then show ?thesis by (subst call_site_loop.simps) simp
  next
    case (Inr r)
    obtain c v' where r: "r = (c, v')" by (cases r)
    have "unat v < unat v'" using read_call_site_adv [OF assms] Inr r by blast
    moreover have "unat v' < 2 ^ 64" using unsigned_less [of v', where 'a = nat] by simp
    ultimately have "call_site_loop img enc lp e v' (cs @ c) \<noteq> None" by (intro less.hyps) linarith
    with Inr r show ?thesis by (subst call_site_loop.simps) simp
  qed
qed

lemma ReadLSDACallSites_ends: "image_ok img \<Longrightarrow> ReadLSDACallSites img a b \<noteq> None"
  using call_site_loop_ends by (auto simp: ReadLSDACallSites_def split: sum.split)

lemma scan_gap_ends:
  assumes "decoder_ok (opt_disasm (options w))"
  shows "\<exists>pc' b'. scan_gap w sizes pc b = Some (pc', b') \<and> unat pc \<le> unat pc' \<and>
           (pc < pc_end (cfi w) \<and> map_of sizes pc = None \<longrightarrow> unat pc < unat pc')"
proof (induction "unat (pc_end (cfi w)) - unat pc" arbitrary: pc b rule: less_induct)
  case less
  show ?case
  proof (cases "pc < pc_end (cfi w) \<and> map_of sizes pc = None")
    case False
    then show ?thesis by (subst scan_gap.simps) auto
  next
    case True
    then have lt: "unat pc < unat (pc_end (cfi w))" by (simp add: word_less_nat_alt)
    show ?thesis
    proof (cases "DecodeAt w pc")
      case None
      have "unat (pc_end (cfi w)) < 2 ^ 64" using unsigned_less [of "pc_end (cfi w)", where 'a = nat] by simp
      then have s: "unat (pc + 1) = unat pc + 1" using lt unat_add_small [of pc 1] by simp
      obtain pc' b' where "scan_gap w sizes (pc + 1) False = Some (pc', b')" "unat (pc + 1) \<le> unat pc'"
        using less.hyps [of "pc + 1" False] s lt by (metis Suc_eq_plus1 diff_less_mono2 lessI)
      with True None s show ?thesis by (subst scan_gap.simps) simp
    next
      case (Some i)
      note sz = DecodeAt_size [OF assms Some] 
      let ?n = "pc + of_nat (insn_size i)" and ?b = "b \<and> insn_id i \<in> set [NOP, INT3]"
      obtain pc' b' where "scan_gap w sizes ?n ?b = Some (pc', b')" "unat ?n \<le> unat pc'"
        using less.hyps [of ?n ?b] sz True lt by fastforce
      with True Some sz show ?thesis by (subst scan_gap.simps) simp
    qed
  qed
qed

lemma gaps_loop_ends:
  assumes "decoder_ok (opt_disasm (options w))"
    and "\<forall>pc n. map_of sizes pc = Some n \<longrightarrow> (\<exists>i. DecodeAt w pc = Some i \<and> insn_size i = n)"
  shows "gaps_loop w sizes pc k \<noteq> None"
proof (induction "2 ^ 64 - unat pc" arbitrary: pc k rule: less_induct)
  case less
  have step: "gaps_loop w sizes pc' k' \<noteq> None" if "unat pc < unat pc'" for pc' k'
  proof -
    have "unat pc' < 2 ^ 64" using unsigned_less [of pc', where 'a = nat] by simp
    with that show ?thesis by (intro less.hyps) linarith
  qed
  show ?case
  proof (cases "pc < pc_end (cfi w)")
    case False
    then show ?thesis by (subst gaps_loop.simps) simp
  next
    case lt: True
    show ?thesis
    proof (cases "map_of sizes pc")
      case (Some n)
      then obtain i where i: "DecodeAt w pc = Some i" "insn_size i = n" using assms(2) by blast
      then have "unat pc < unat (pc + of_nat n)" using DecodeAt_size [OF assms(1) i(1) lt] by simp
      from step [OF this] lt Some show ?thesis by (subst gaps_loop.simps) simp
    next
      case None
      obtain pc' b' where "scan_gap w sizes pc True = Some (pc', b')" "unat pc < unat pc'"
        using scan_gap_ends [OF assms(1), of sizes pc True] lt None by blast
      with step [of pc'] lt None show ?thesis by (subst gaps_loop.simps) simp
    qed
  qed
qed

subsection \<open>The whole check\<close>

lemma reach_inv_cong:
  assumes "in_states st' = in_states st" "worklist st' = worklist st" "insn_sizes st' = insn_sizes st"
    "call_sites st' = call_sites st" "null_deref st' = null_deref st"
  shows "reach_inv w st' = reach_inv w st"
  by (simp add: reach_inv_def assms)

lemma reach_inv_AddFinding [simp]: "reach_inv w (AddFinding sev pc msg st) = reach_inv w st"
  by (rule reach_inv_cong) (simp_all add: AddFinding_def)

lemma reach_inv_fold_seed:
  "reach_inv w st \<Longrightarrow> \<forall>lp \<in> set lps. in_fde (cfi w) lp \<Longrightarrow> reach_inv w (snd (fold (seed_landing_pad w) lps (b, st)))"
proof (induction lps arbitrary: b st)
  case (Cons lp lps)
  obtain b1 st1 where 1: "seed_landing_pad w lp (b, st) = (b1, st1)" by fastforce
  have "reach_inv w st1"
    using 1 Cons.prems by (auto simp: seed_landing_pad_def reach_inv_Propagate split: if_splits option.splits)
  then show ?case using Cons 1 by simp
qed simp

lemma reach_inv_SeedUnreached:
  assumes "decoder_ok (opt_disasm (options w))" "first_row_ok (cfi w)" "reach_inv w st"
  shows "reach_inv w (SeedUnreachedLandingPads w st)"
proof -
  have "\<forall>lp \<in> set (remdups_adj (sort (map landing_pad (call_sites st)))). in_fde (cfi w) lp"
    using assms(3) by (auto simp: reach_inv_def)
  from reach_inv_fold_seed [OF assms(3) this, of False] show ?thesis
    using reach_inv_Drain [OF assms(1,2)] by (auto simp: SeedUnreachedLandingPads_def split: prod.split)
qed

lemma dataflow_reach:
  assumes "decoder_ok (opt_disasm (options w))" "RowAt (cfi w) (pc_begin (cfi w)) = Some first_row"
    and "dataflow w first_row = Some st"
  shows "reach_inv w st"
proof -
  let ?can = "IsCanonicalEntry first_row"
  let ?st0 = "CheckEntryRow w first_row ((FDEChecker0 (max_findings_per_fde (options w)))\<lparr>is_canonical_entry := ?can\<rparr>)"
  note start = RowAt_start [OF assms(2)]
  have 0: "reach_inv w ?st0" "call_sites ?st0 = []"
    by (simp_all add: CheckEntryRow_def) (simp_all add: reach_inv_def FDEChecker0_def AddFinding_def)
  obtain st1 where s1: "SetupCallSites w ?st0 = Some st1"
    and st: "st = SeedUnreachedLandingPads w (Drain w (Propagate (pc_begin (cfi w)) (SeedFromRow first_row ?can) st1))"
    using assms(3) by (auto simp: dataflow_def Let_def)
  have 1: "reach_inv w st1"
    using s1 0 by (auto simp: SetupCallSites_def split: if_splits option.splits sum.splits) (auto simp: reach_inv_def)
  show ?thesis
    unfolding st using reach_inv_SeedUnreached [OF assms(1) start(1)]
      reach_inv_Drain [OF assms(1) start(1)] reach_inv_Propagate [OF 1 start(2)] by blast
qed

lemma dataflow_ends: "image_ok (opt_image (options w)) \<Longrightarrow> dataflow w first_row \<noteq> None"
  using ReadLSDACallSites_ends [of "opt_image (options w)" "lsda_addr (cfi w)" "pc_begin (cfi w)"]
  by (auto simp: dataflow_def Let_def SetupCallSites_def split: option.splits sum.splits)

end
