(* ===== verification/Sample.thy ===== *)
theory Sample
  imports Fde_Walk
begin

text \<open>
  A concrete instance of the disassembler interface and a small image, on which the properties
  are instantiated: a decoder for \<open>nop\<close>, \<open>ret\<close>, \<open>push %rbp\<close> and \<open>pop %rbp\<close>, and an FDE for
  the function \<open>push %rbp; pop %rbp; ret\<close> with the three rows a compiler emits for it.
\<close>

definition sample_flags :: ZydisAccessedFlags where
  "sample_flags = \<lparr>fl_modified = 0, fl_set_0 = 0, fl_set_1 = 0, fl_undefined = 0\<rparr>"

definition sample_insn :: "ZydisMnemonic \<Rightarrow> nat \<Rightarrow> ZydisDecodedInstruction" where
  "sample_insn m n =
     \<lparr>mnemonic = m, insn_length = 1, operand_count = n, operand_count_visible = n, category = CATEGORY_OTHER,
      operand_width = 64, has_segment = False, cpu_flags = Some sample_flags\<rparr>"

definition sample_rbp :: "bool \<Rightarrow> ZydisDecodedOperand" where
  "sample_rbp wr = \<lparr>op_value = TypeRegister ZYDIS_REGISTER_RBP, op_size = 64, op_writes = wr\<rparr>"

definition sample_decode :: "u8 list \<Rightarrow> (ZydisDecodedInstruction \<times> ZydisDecodedOperand list) option" where
  "sample_decode bytes =
     (case bytes of
        [] \<Rightarrow> None
      | b # _ \<Rightarrow>
          if b = 0x90 then Some (sample_insn NOP 0, [])
          else if b = 0xc3 then Some (sample_insn RET 0, [])
          else if b = 0x55 then Some (sample_insn PUSH 1, [sample_rbp False])
          else if b = 0x5d then Some (sample_insn POP 1, [sample_rbp True])
          else None)"

definition sample_zydis :: zydis where
  "sample_zydis =
     \<lparr>zy_reg_valid = (\<lambda>r. True), zy_GetLargestEnclosing = (\<lambda>r. r), zy_GetWidth = (\<lambda>r. 64),
      zy_CalcAbsoluteAddress = (\<lambda>i op a. None), zy_DecodeFull = sample_decode, zy_Format = (\<lambda>i ops a. None)\<rparr>"

definition sample_image :: ELFImage where
  "sample_image =
     \<lparr>img_mem = (\<lambda>a. if a = 0x1000 then 0x55 else if a = 0x1001 then 0x5d else if a = 0x1002 then 0xc3 else 0),
      img_bias = 0,
      segments = [\<lparr>seg_vaddr = 0x1000, seg_memsz = 3, seg_filesz = 3, seg_offset = 0x1000, seg_flags = 5\<rparr>],
      func_symbols = [], img_eh_frame_start = 0, img_eh_frame_end = 0, img_eh_frame_hdr = 0, plt_ranges = [],
      has_debug_line = False, has_debug_link = False\<rparr>"

definition sample_row :: "u64 \<Rightarrow> int \<Rightarrow> RegRule \<Rightarrow> CFIRow" where
  "sample_row pc off rbp =
     \<lparr>pc_start = pc, row_cfa = RegOffset 7 off,
      row_regs = (replicate 17 RegRule0)[6 := rbp, 16 := \<lparr>rule_kind = RAtCFAOffset, rule_reg = 0, rule_offset = - 8\<rparr>]\<rparr>"

definition sample_cfi :: CFI where
  "sample_cfi =
     \<lparr>fde_addr = 0x2000, pc_begin = 0x1000, pc_end = 0x1003, return_reg = 16, signal_frame = False, lsda_addr = 0,
      has_exotic_regs = False,
      rows = [sample_row 0x1000 8 RegRule0,
              sample_row 0x1001 16 \<lparr>rule_kind = RAtCFAOffset, rule_reg = 0, rule_offset = - 16\<rparr>,
              sample_row 0x1002 8 \<lparr>rule_kind = RSameValue, rule_reg = 0, rule_offset = 0\<rparr>]\<rparr>"

definition sample_options :: FDECheckerOptions where
  "sample_options =
     \<lparr>opt_image = sample_image, opt_disasm = sample_zydis, check_unmentioned_callee_saved = False,
      report_coverage_gaps = True, max_findings_per_fde = 8, max_iterations = 10,
      all_cfis = [((0x1000, 0x1003), sample_cfi)]\<rparr>"

definition sample_walk :: walk where
  "sample_walk = \<lparr>options = sample_options, cfi = sample_cfi, at_function_entry = True, guessing_enabled = False\<rparr>"

lemma sample_blessed:
  "map_option (\<lambda>(res, tr). (verdict res, map tr_pc tr)) (Check sample_options sample_cfi True False) =
     Some (kBlessed, [0x1000, 0x1001, 0x1002])"
  by code_simp

end
