(* ===== verification/Check_Props.thy ===== *)
theory Check_Props
  imports Reach_Props Sample
begin

text \<open>
  The check of one FDE as a whole: it returns, and a BLESSED verdict carries a certificate. The
  certificate is the trace itself: a set of states, one per reached address, that contains the
  entry state, is closed under the control-flow edges of the function, and in every one of which
  the instruction's row holds and its outcome needs no further check.
\<close>

subsection \<open>The sink over pass 1\<close>

lemma sink_Drain [simp]: "sink (Drain w st) = sink st"
  using Drain_report [of st w] by (simp add: same_report_def)

lemma call_sites_Drain [simp]: "call_sites (Drain w st) = call_sites st"
  using Drain_report [of st w] by (simp add: same_report_def)

lemma sink_Propagate [simp]: "sink (Propagate pc s st) = sink st"
  using Propagate_ctl [of st pc s] by (simp add: same_ctl_def)

lemma fold_seed_silent:
  assumes "sink_ok (sink st)" "fold (seed_landing_pad w) lps (b, st) = (b', st')"
  shows "sink_weight (sink st) \<le> sink_weight (sink st') \<and> sink_ok (sink st') \<and>
     (sink_weight (sink st') = sink_weight (sink st) \<longrightarrow> st' = st \<and> b' = b \<and>
        (\<forall>lp \<in> set lps. map_of (in_states st) lp \<noteq> None \<or> RowAt (cfi w) lp = None))"
  using assms
proof (induction lps arbitrary: b st)
  case (Cons lp lps)
  show ?case
  proof (cases "map_of (in_states st) lp \<noteq> None \<or> RowAt (cfi w) lp = None")
    case True
    then have "seed_landing_pad w lp (b, st) = (b, st)" by (auto simp: seed_landing_pad_def split: option.split)
    then have "fold (seed_landing_pad w) lps (b, st) = (b', st')" using Cons.prems(2) by simp
    from Cons.IH [OF Cons.prems(1) this] True show ?thesis by auto
  next
    case False
    then obtain row where "RowAt (cfi w) lp = Some row" "map_of (in_states st) lp = None" by auto
    then have eq: "seed_landing_pad w lp (b, st) = (True, Propagate lp (SeedFromRow row False) (AddFinding SevReview lp landing_pad_msg st))"
      by (simp add: seed_landing_pad_def)
    let ?st1 = "Propagate lp (SeedFromRow row False) (AddFinding SevReview lp landing_pad_msg st)"
    have w: "sink_ok (sink ?st1)" "sink_weight (sink ?st1) = sink_weight (sink st) + 1"
      using Cons.prems(1) by (simp_all add: AddFinding_def sink_ok_Add sink_weight_Add)
    have "fold (seed_landing_pad w) lps (True, ?st1) = (b', st')" using Cons.prems(2) eq by simp
    from Cons.IH [OF w(1) this] w show ?thesis by auto
  qed
qed simp

text \<open>What a silent pass 1 tells: the entry row is canonical where a symbol says so, the LSDA could
  be read, and every landing pad was reached.\<close>

lemma dataflow_silent:
  assumes "dataflow w first_row = Some st" "sink_weight (sink st) = 0"
  shows "at_function_entry w \<longrightarrow> IsCanonicalEntry first_row"
    and "lsda_addr (cfi w) \<noteq> 0 \<longrightarrow>
           (\<exists>sites. ReadLSDACallSites (opt_image (options w)) (lsda_addr (cfi w)) (pc_begin (cfi w)) = Some (Inr sites))"
    and "\<forall>cs \<in> set (call_sites st). map_of (in_states st) (landing_pad cs) \<noteq> None \<or> RowAt (cfi w) (landing_pad cs) = None"
proof -
  let ?can = "IsCanonicalEntry first_row"
  let ?st0 = "(FDEChecker0 (max_findings_per_fde (options w)))\<lparr>is_canonical_entry := ?can\<rparr>"
  let ?e = "CheckEntryRow w first_row ?st0"
  obtain st1 where s1: "SetupCallSites w ?e = Some st1" using assms(1) by (auto simp: dataflow_def Let_def)
  let ?d = "Drain w (Propagate (pc_begin (cfi w)) (SeedFromRow first_row ?can) st1)"
  let ?lps = "remdups_adj (sort (map landing_pad (call_sites ?d)))"
  have st: "st = SeedUnreachedLandingPads w ?d" using assms(1) s1 by (simp add: dataflow_def Let_def)
  obtain b st' where f: "fold (seed_landing_pad w) ?lps (False, ?d) = (b, st')" by fastforce
  have e: "sink_ok (sink ?e)" "sink_weight (sink ?e) = 0 \<longrightarrow> (at_function_entry w \<longrightarrow> ?can)"
    by (auto simp: CheckEntryRow_def AddFinding_def FDEChecker0_def sink_ok_0 sink_ok_Add sink_weight_Add)
  have ok: "sink_ok (sink st1)" "sink_weight (sink ?e) \<le> sink_weight (sink st1)"
    using s1 e(1) by (auto simp: SetupCallSites_def AddFinding_def sink_ok_Add sink_weight_Add
        split: if_splits option.splits sum.splits)
  have fs: "sink_weight (sink ?d) \<le> sink_weight (sink st')"
    "sink_weight (sink st') = sink_weight (sink ?d) \<longrightarrow> st' = ?d \<and> \<not> b \<and>
       (\<forall>lp \<in> set ?lps. map_of (in_states ?d) lp \<noteq> None \<or> RowAt (cfi w) lp = None)"
    using fold_seed_silent [OF _ f] ok(1) by auto
  have "sink_weight (sink st') = 0" using assms(2) st f by (auto simp: SeedUnreachedLandingPads_def split: if_splits)
  with fs have 0: "st' = ?d" "\<not> b" "sink_weight (sink st1) = 0"
    "\<forall>lp \<in> set ?lps. map_of (in_states ?d) lp \<noteq> None \<or> RowAt (cfi w) lp = None" by simp_all
  then have "st = ?d" using st f by (simp add: SeedUnreachedLandingPads_def)
  with 0(4) show "\<forall>cs \<in> set (call_sites st). map_of (in_states st) (landing_pad cs) \<noteq> None \<or> RowAt (cfi w) (landing_pad cs) = None"
    by simp
  show "at_function_entry w \<longrightarrow> ?can" using e(2) ok(2) 0(3) by simp
  show "lsda_addr (cfi w) \<noteq> 0 \<longrightarrow>
      (\<exists>sites. ReadLSDACallSites (opt_image (options w)) (lsda_addr (cfi w)) (pc_begin (cfi w)) = Some (Inr sites))"
    using s1 0(3) e(1) by (auto simp: SetupCallSites_def AddFinding_def sink_weight_Add split: if_splits option.splits sum.splits)
qed

subsection \<open>The stages of a run\<close>

lemma Run_stages:
  assumes "Run w = Some (res, tr)" "RowAt (cfi w) (pc_begin (cfi w)) = Some row"
    and "rule_kind (row_regs row ! kDWARFRip) \<noteq> RUndefined"
  obtains st st1 st2 where "dataflow w row = Some st" "\<not> null_deref st"
    "st1 = (if hit_cap st then AddFinding SevReview (pc_begin (cfi w)) (gave_up_msg (max_iterations (options w))) st else st)"
    "ReportCoverageGaps w (VerifyPass w st1) = Some st2" "res = finish w st2" "tr = trace st2"
  using assms by (auto simp: Run_def Let_def split: bind_splits if_splits)

lemma finish_Blessed: "verdict (finish w st) = kBlessed \<longleftrightarrow> sink_weight (sink st) = 0"
  by (simp add: finish_def Let_def verdict_of_Blessed Take_eq_Nil)

text \<open>The states a trace stands for.\<close>

definition trace_states :: "InsnTrace list \<Rightarrow> (u64 \<times> AbsState) list" where
  "trace_states tr = map (\<lambda>t. (tr_pc t, tr_state t)) tr"

lemma map_of_trace:
  assumes "distinct (map fst m)"
  shows "map_of (trace_states (map (\<lambda>pc. \<lparr>tr_pc = pc, tr_state = (case map_of m pc of Some s \<Rightarrow> s | None \<Rightarrow> d)\<rparr>)
           (sort (map fst m)))) pc = map_of m pc"
proof -
  have "map_of (map (\<lambda>pc. (pc, f pc)) ks) pc = (if pc \<in> set ks then Some (f pc) else None)" for f :: "u64 \<Rightarrow> AbsState" and ks
    by (induction ks) auto
  then show ?thesis
    using map_of_eq_None_iff [of m pc]
    by (cases "map_of m pc") (auto simp: trace_states_def comp_def dest: map_of_SomeD intro: rev_image_eqI)
qed

lemma Run_Blessed:
  assumes "Run w = Some (res, tr)" "verdict res = kBlessed" "RowAt (cfi w) (pc_begin (cfi w)) = Some row"
    and "rule_kind (row_regs row ! kDWARFRip) \<noteq> RUndefined"
  obtains st where "dataflow w row = Some st" "settled w row st" "worklist st = []" "sink_weight (sink st) = 0"
    "\<forall>pc. map_of (trace_states tr) pc = map_of (in_states st) pc" "sorted (map tr_pc tr)" "distinct (map tr_pc tr)"
    "\<forall>pc s. map_of (in_states st) pc = Some s \<longrightarrow> insn_clean w (IsCanonicalEntry row) pc s"
    "report_coverage_gaps (options w) \<longrightarrow>
       (\<exists>k k'. gaps_loop w (insn_sizes st) (pc_begin (cfi w)) k = Some k' \<and> sink_ok k \<and> sink_weight k' = sink_weight k)"
proof -
  obtain st st1 st2 where s: "dataflow w row = Some st" "\<not> null_deref st"
    "st1 = (if hit_cap st then AddFinding SevReview (pc_begin (cfi w)) (gave_up_msg (max_iterations (options w))) st else st)"
    "ReportCoverageGaps w (VerifyPass w st1) = Some st2" "res = finish w st2" "tr = trace st2"
    by (rule Run_stages [OF assms(1,3,4)])
  have set: "settled w row st" by (rule dataflow_settled [OF s(1,2)])
  then have ok: "sink_ok (sink st)" "walk_wf st" by (simp_all add: settled_def walk_inv_def)
  have 1: "adds st st1 (\<not> hit_cap st)" using ok by (simp add: s(3) adds_AddFinding addsI_refl)
  note v = VerifyPass_adds [OF adds_ok [OF 1], of w]
  note g = ReportCoverageGaps_adds [OF adds_ok [OF v [THEN conjunct1]] s(4)]
  note all = adds_trans [OF 1 adds_trans [OF v [THEN conjunct1] g [THEN conjunct1]]]
  have w0: "sink_weight (sink st2) = 0" using assms(2) s(5) by (simp add: finish_Blessed)
  with all have w1: "sink_weight (sink st) = 0" "\<not> hit_cap st" by (simp_all add: adds_def)
  have clean: "\<forall>pc \<in> fst ` set (in_states st1). insn_clean w (is_canonical_entry st1) pc (state_at st1 pc)"
    using all w0 w1 by (simp add: adds_def)
  have st1: "st1 = st" using w1 s(3) by simp
  have tr: "tr = map (\<lambda>pc. \<lparr>tr_pc = pc, tr_state = state_at st pc\<rparr>) (sort (map fst (in_states st)))"
    using g v set unfolding s(6) st1 by (simp add: settled_def)
  have d: "distinct (map fst (in_states st))" using ok(2) by (simp add: walk_wf_def)
  show ?thesis
  proof (rule that)
    show "\<forall>pc. map_of (trace_states tr) pc = map_of (in_states st) pc"
      using map_of_trace [OF d] unfolding tr state_at_def by simp
    show "sorted (map tr_pc tr)" "distinct (map tr_pc tr)" using d by (simp_all add: tr comp_def)
    show "worklist st = []" using set w1 by (simp add: settled_def)
    show "\<forall>pc s. map_of (in_states st) pc = Some s \<longrightarrow> insn_clean w (IsCanonicalEntry row) pc s"
    proof (intro allI impI)
      fix pc s
      assume s: "map_of (in_states st) pc = Some s"
      then have "pc \<in> fst ` set (in_states st)" by (force dest: map_of_SomeD)
      with clean set s show "insn_clean w (IsCanonicalEntry row) pc s"
        unfolding st1 by (auto simp: settled_def state_at_def)
    qed
    let ?k = "sink (VerifyPass w st)"
    have k: "sink_weight ?k = 0" "sink_ok ?k" "insn_sizes (VerifyPass w st) = insn_sizes st"
      using v g w0 w1 unfolding st1 by (simp_all add: adds_def)
    have "\<exists>k'. gaps_loop w (insn_sizes st) (pc_begin (cfi w)) ?k = Some k' \<and> sink_weight k' = 0"
      if "report_coverage_gaps (options w)"
      using that s(4) w0 k(3) unfolding st1 by (auto simp: ReportCoverageGaps_def)
    then show "report_coverage_gaps (options w) \<longrightarrow>
       (\<exists>k k'. gaps_loop w (insn_sizes st) (pc_begin (cfi w)) k = Some k' \<and> sink_ok k \<and> sink_weight k' = sink_weight k)"
      using k(1,2) by metis
  qed (fact s(1) set w1(1))+
qed

subsection \<open>Every byte is code that was checked, or padding\<close>

inductive tiled :: "walk \<Rightarrow> u64 set \<Rightarrow> u64 \<Rightarrow> bool" for w R where
  tiled_end: "\<not> pc < pc_end (cfi w) \<Longrightarrow> tiled w R pc"
| tiled_checked: "pc \<in> R \<Longrightarrow> DecodeAt w pc = Some i \<Longrightarrow> tiled w R (pc + of_nat (insn_size i)) \<Longrightarrow> tiled w R pc"
| tiled_padding: "DecodeAt w pc = Some i \<Longrightarrow> insn_id i \<in> {NOP, INT3} \<Longrightarrow>
    tiled w R (pc + of_nat (insn_size i)) \<Longrightarrow> tiled w R pc"

lemma scan_gap_padding:
  assumes "scan_gap w sizes pc b = Some (pc', True)"
  shows "b \<and> (tiled w R pc' \<longrightarrow> tiled w R pc)"
proof -
  have "r = (pc', True) \<longrightarrow> b \<and> (tiled w R pc' \<longrightarrow> tiled w R pc)" if "scan_gap w sizes pc b = Some r" for r
  proof (rule scan_gap.raw_induct [OF _ that])
    fix scan w sizes pc b r
    assume 1: "\<And>w sizes pc b r. scan w sizes pc b = Some r \<Longrightarrow> r = (pc', True) \<longrightarrow> b \<and> (tiled w R pc' \<longrightarrow> tiled w R pc)"
      "(if pc < pc_end (cfi w) \<and> map_of sizes pc = None
        then case DecodeAt w pc of None \<Rightarrow> scan w sizes (pc + 1) False
             | Some i \<Rightarrow> scan w sizes (pc + of_nat (insn_size i)) (b \<and> insn_id i \<in> set [NOP, INT3])
        else Some (pc, b)) = Some r"
    show "r = (pc', True) \<longrightarrow> b \<and> (tiled w R pc' \<longrightarrow> tiled w R pc)"
    proof (cases "pc < pc_end (cfi w) \<and> map_of sizes pc = None")
      case True
      show ?thesis
      proof (cases "DecodeAt w pc")
        case None
        with True 1(2) have "scan w sizes (pc + 1) False = Some r" by simp
        from 1(1) [OF this] show ?thesis by simp
      next
        case (Some i)
        with True 1(2) have "scan w sizes (pc + of_nat (insn_size i)) (b \<and> insn_id i \<in> set [NOP, INT3]) = Some r" by simp
        from 1(1) [OF this] Some show ?thesis by (auto intro: tiled_padding)
      qed
    qed (use 1(2) in auto)
  qed
  with assms show ?thesis by blast
qed

definition gap_free :: "walk \<Rightarrow> (u64 \<times> nat) list \<Rightarrow> u64 set \<Rightarrow> u64 \<Rightarrow> FindingSink \<Rightarrow> FindingSink \<Rightarrow> bool" where
  "gap_free w sizes R pc k k' \<longleftrightarrow>
     (\<forall>pc n. map_of sizes pc = Some n \<longrightarrow> pc \<in> R \<and> (\<exists>i. DecodeAt w pc = Some i \<and> insn_size i = n)) \<longrightarrow> sink_ok k \<longrightarrow>
     sink_weight k \<le> sink_weight k' \<and> (sink_weight k' = sink_weight k \<longrightarrow> tiled w R pc)"

lemma gap_free_checked: "map_of sizes pc = Some n \<Longrightarrow> pc < pc_end (cfi w) \<Longrightarrow> gap_free w sizes R (pc + of_nat n) k k' \<Longrightarrow> gap_free w sizes R pc k k'"
  by (auto simp: gap_free_def intro: tiled_checked)

lemma gap_free_gap:
  assumes "scan_gap w sizes pc True = Some (pc', b)"
    and "gap_free w sizes R pc' (if b then k else Add SevReview pc (gap_msg (pc' - pc)) k) k'"
  shows "gap_free w sizes R pc k k'"
proof (cases b)
  case True
  with assms scan_gap_padding [of w sizes pc True pc' R] show ?thesis by (simp add: gap_free_def)
next
  case False
  with assms(2) sink_ok_Add [of k SevReview pc "gap_msg (pc' - pc)"] sink_weight_Add [of k SevReview pc "gap_msg (pc' - pc)"]
  show ?thesis by (auto simp: gap_free_def)
qed

lemma gaps_loop_silent:
  assumes "gaps_loop w sizes pc k = Some k'"
    and "\<And>pc n. map_of sizes pc = Some n \<Longrightarrow> pc \<in> R \<and> (\<exists>i. DecodeAt w pc = Some i \<and> insn_size i = n)"
    and "sink_ok k" "sink_weight k' = sink_weight k"
  shows "tiled w R pc"
proof -
  have "gap_free w sizes R pc k k'"
  proof (rule gaps_loop.raw_induct [OF _ assms(1)])
    fix loop w sizes pc k k'
    assume IH: "\<And>w sizes pc k k'. loop w sizes pc k = Some k' \<Longrightarrow> gap_free w sizes R pc k k'"
      and run: "(if pc < pc_end (cfi w)
        then case map_of sizes pc of
               None \<Rightarrow> Option.bind (scan_gap w sizes pc True) (\<lambda>r. loop w sizes (fst r)
                         (if snd r then k else Add SevReview pc (gap_msg (fst r - pc)) k))
             | Some n \<Rightarrow> loop w sizes (pc + of_nat n) k
        else Some k) = Some k'"
    consider "\<not> pc < pc_end (cfi w)" "k' = k"
      | n where "pc < pc_end (cfi w)" "map_of sizes pc = Some n" "loop w sizes (pc + of_nat n) k = Some k'"
      | pc' b where "scan_gap w sizes pc True = Some (pc', b)"
          "loop w sizes pc' (if b then k else Add SevReview pc (gap_msg (pc' - pc)) k) = Some k'"
      using run by (fastforce split: if_splits option.splits bind_splits)
    then show "gap_free w sizes R pc k k'"
    proof cases
      case 1
      then show ?thesis by (auto simp: gap_free_def intro: tiled_end)
    qed (auto intro: gap_free_checked gap_free_gap IH)
  qed
  with assms(2-4) show ?thesis by (auto simp: gap_free_def)
qed

subsection \<open>The properties\<close>

lemma Run_returns:
  assumes "decoder_ok (opt_disasm (options w))" "image_ok (opt_image (options w))"
  shows "\<exists>res tr. Run w = Some (res, tr) \<and> (\<forall>t \<in> set tr. in_fde (cfi w) (tr_pc t))"
proof (cases "\<exists>row. RowAt (cfi w) (pc_begin (cfi w)) = Some row \<and> rule_kind (row_regs row ! kDWARFRip) \<noteq> RUndefined")
  case False
  then show ?thesis by (auto simp: Run_def split: option.split)
next
  case True
  then obtain row where row: "RowAt (cfi w) (pc_begin (cfi w)) = Some row" "rule_kind (row_regs row ! kDWARFRip) \<noteq> RUndefined"
    by blast
  obtain st where st: "dataflow w row = Some st" using dataflow_ends [OF assms(2)] by blast
  have reach: "reach_inv w st" by (rule dataflow_reach [OF assms(1) row(1) st])
  then have nd: "\<not> null_deref st" by (simp add: reach_inv_def)
  then have ok: "settled w row st" by (rule dataflow_settled [OF st])
  define st1 where
    "st1 = (if hit_cap st then AddFinding SevReview (pc_begin (cfi w)) (gave_up_msg (max_iterations (options w))) st else st)"
  have 1: "adds st st1 True" "trace st1 = trace st" using ok by (simp_all add: st1_def settled_def adds_AddFinding addsI_refl)
  note v = VerifyPass_adds [OF adds_ok [OF 1(1)], of w]
  have gaps: "\<exists>k'. gaps_loop w (insn_sizes st) pc k = Some k'" for pc k
    using gaps_loop_ends [OF assms(1), of "insn_sizes st"] reach by (auto simp: reach_inv_def)
  have "insn_sizes (VerifyPass w st1) = insn_sizes st" "in_states st1 = in_states st" using 1 v by (auto simp: adds_def)
  then obtain st2 where st2: "ReportCoverageGaps w (VerifyPass w st1) = Some st2"
    using gaps [of "pc_begin (cfi w)" "sink (VerifyPass w st1)"]
    by (cases "report_coverage_gaps (options w)") (auto simp: ReportCoverageGaps_def)
  have "trace st2 = map (\<lambda>pc. \<lparr>tr_pc = pc, tr_state = state_at st1 pc\<rparr>) (sort (map fst (in_states st)))"
    using ReportCoverageGaps_adds [OF adds_ok [OF v [THEN conjunct1]] st2] v 1(2) ok \<open>in_states st1 = in_states st\<close>
    by (simp add: settled_def)
  then have "\<forall>t \<in> set (trace st2). in_fde (cfi w) (tr_pc t)"
    using reach by (auto simp: reach_inv_def) (metis map_of_eq_None_iff fst_conv image_eqI not_None_eq)
  moreover have "Run w = Some (finish w st2, trace st2)"
    using row st nd st2 by (simp add: Run_def Let_def st1_def)
  ultimately show ?thesis by blast
qed

text \<open>C5. The check of an FDE always returns: no null row is dereferenced, and the loops over the LSDA,
  the worklist and the coverage gaps end, whatever the bytes of the image. Every address it
  walks lies in the FDE. This holds for every image and every CFI table, if the disassembler
  consumes between one byte and the bytes it is given, and if no segment wraps around the
  address space.\<close>

theorem CheckWithGuessing_returns:
  assumes "decoder_ok (opt_disasm opts)" "image_ok (opt_image opts)"
  shows "\<exists>res tr. CheckWithGuessing opts c at_entry = Some (res, tr) \<and> (\<forall>t \<in> set tr. in_fde c (tr_pc t))"
proof -
  have R: "\<exists>res tr. Check opts c at_entry g = Some (res, tr) \<and> (\<forall>t \<in> set tr. in_fde c (tr_pc t))" for g
    using Run_returns [of "\<lparr>options = opts, cfi = c, at_function_entry = at_entry, guessing_enabled = g\<rparr>"] assms
    by (simp add: Check_def)
  obtain res tr where "Check opts c at_entry False = Some (res, tr)" "\<forall>t \<in> set tr. in_fde c (tr_pc t)" using R by blast
  moreover obtain res' tr' where "Check opts c at_entry True = Some (res', tr')" using R by blast
  ultimately show ?thesis by (auto simp: CheckWithGuessing_def)
qed

lemma sample_decoder_ok: "decoder_ok sample_zydis"
  by (auto simp: decoder_ok_def sample_zydis_def sample_decode_def sample_insn_def split: list.splits if_splits)

lemma sample_image_ok: "image_ok sample_image"
  by (simp add: image_ok_def sample_image_def)

theorem CheckWithGuessing_returns_witness:
  "\<exists>res tr. CheckWithGuessing sample_options sample_cfi True = Some (res, tr) \<and> (\<forall>t \<in> set tr. in_fde sample_cfi (tr_pc t))"
  by (rule CheckWithGuessing_returns) (simp_all add: sample_options_def sample_decoder_ok sample_image_ok)

text \<open>C3. What BLESSED means. If the check of an FDE whose entry row is ordinary ends BLESSED, its
  trace is a certificate: the state the entry row describes is covered by the traced state at the
  start; at every traced address the bytes decode to an instruction inside the FDE, the row in
  force holds of the traced state, and what the instruction does next needs no check that was not
  made; and every control-flow edge out of a traced state arrives at a traced address in a state
  that the one traced there covers. The LSDA was readable, all its landing pads are traced, and an
  FDE that starts at a function symbol has the canonical entry row.\<close>

theorem Blessed_certificate:
  assumes "Check opts c at_entry g = Some (res, tr)" "verdict res = kBlessed"
    and "RowAt c (pc_begin c) = Some row" "rule_kind (row_regs row ! kDWARFRip) \<noteq> RUndefined"
    and "w = \<lparr>options = opts, cfi = c, at_function_entry = at_entry, guessing_enabled = g\<rparr>"
  shows "covered (trace_states tr) (pc_begin c, SeedFromRow row (IsCanonicalEntry row)) \<and>
    (\<forall>t \<in> set tr. insn_clean w (IsCanonicalEntry row) (tr_pc t) (tr_state t) \<and>
       (\<exists>es. edges_at w (walk_sites w) (tr_pc t) (tr_state t) = Some es \<and> (\<forall>e \<in> set es. covered (trace_states tr) e))) \<and>
    (lsda_addr c \<noteq> 0 \<longrightarrow> (\<exists>sites. ReadLSDACallSites (opt_image opts) (lsda_addr c) (pc_begin c) = Some (Inr sites))) \<and>
    (\<forall>cs \<in> set (walk_sites w). landing_pad cs \<in> tr_pc ` set tr) \<and>
    (at_entry \<longrightarrow> IsCanonicalEntry row)"
proof -
  have w: "Run w = Some (res, tr)" "cfi w = c" "options w = opts" "at_function_entry w = at_entry"
    using assms(1,5) by (simp_all add: Check_def)
  obtain st where st: "dataflow w row = Some st" "settled w row st" "worklist st = []" "sink_weight (sink st) = 0"
    "\<forall>pc. map_of (trace_states tr) pc = map_of (in_states st) pc" "distinct (map tr_pc tr)"
    "\<forall>pc s. map_of (in_states st) pc = Some s \<longrightarrow> insn_clean w (IsCanonicalEntry row) pc s"
    using Run_Blessed [OF w(1) assms(2)] assms(3,4) w(2) by metis
  note silent = dataflow_silent [OF st(1,4)]
  have cov: "covered (trace_states tr) e = covered (in_states st) e" for e using st(5) by (simp add: covered_def)
  have in_tr: "map_of (in_states st) (tr_pc t) = Some (tr_state t)" if "t \<in> set tr" for t
    using that st(5,6) by (force simp: trace_states_def comp_def intro!: map_of_is_SomeI simp flip: st(5) [rule_format])
  have edges: "\<exists>es. edges_at w (walk_sites w) (tr_pc t) (tr_state t) = Some es \<and> (\<forall>e \<in> set es. covered (in_states st) e)"
    if "t \<in> set tr" for t
    using in_tr [OF that] st(2,3) by (auto simp: settled_def walk_inv_def stable_at_def state_at_def)
  have "landing_pad cs \<in> tr_pc ` set tr" if "cs \<in> set (walk_sites w)" for cs
  proof -
    have "in_fde c (landing_pad cs)" using that w(2) by (auto simp: walk_sites_def split: if_splits option.splits sum.splits)
    then have "RowIndexAt c (landing_pad cs) \<noteq> None" by (rule RowIndexAt_Some [OF RowAt_start(1) [OF assms(3)]])
    then have "RowAt c (landing_pad cs) \<noteq> None" by (auto simp: RowIndexAt_def RowAt_def last_le_def Let_def split: if_splits)
    then have "map_of (trace_states tr) (landing_pad cs) \<noteq> None"
      using silent(3) that st(2,5) w(2) by (auto simp: settled_def)
    then show ?thesis by (auto simp: trace_states_def dest!: map_of_SomeD)
  qed
  then show ?thesis
    using st(2,7) in_tr edges silent(1,2) w(2-4) unfolding cov by (auto simp: settled_def)
qed

lemma sample_Check:
  obtains res tr where "Check sample_options sample_cfi True False = Some (res, tr)" "verdict res = kBlessed"
    "map tr_pc tr = [0x1000, 0x1001, 0x1002]"
  using sample_blessed by (auto split: prod.splits)

lemma sample_start:
  "RowAt sample_cfi (pc_begin sample_cfi) = Some (sample_row 0x1000 8 RegRule0)"
  "rule_kind (row_regs (sample_row 0x1000 8 RegRule0) ! kDWARFRip) \<noteq> RUndefined"
  by code_simp+

theorem Blessed_certificate_witness:
  "\<exists>res tr. Check sample_options sample_cfi True False = Some (res, tr) \<and> verdict res = kBlessed \<and>
     map tr_pc tr = [0x1000, 0x1001, 0x1002] \<and>
     covered (trace_states tr) (0x1000, SeedFromRow (sample_row 0x1000 8 RegRule0) (IsCanonicalEntry (sample_row 0x1000 8 RegRule0))) \<and>
     (\<forall>t \<in> set tr. insn_clean sample_walk (IsCanonicalEntry (sample_row 0x1000 8 RegRule0)) (tr_pc t) (tr_state t)) \<and>
     IsCanonicalEntry (sample_row 0x1000 8 RegRule0)"
proof -
  obtain res tr where c: "Check sample_options sample_cfi True False = Some (res, tr)" "verdict res = kBlessed"
    "map tr_pc tr = [0x1000, 0x1001, 0x1002]" by (rule sample_Check)
  have "pc_begin sample_cfi = 0x1000" by (simp add: sample_cfi_def)
  with Blessed_certificate [OF c(1,2) sample_start sample_walk_def] c show ?thesis by auto
qed



lemma verdict_of_eq:
  "verdict_of fs v = (if \<exists>f \<in> set fs. f_severity f = SevMismatch then kMismatch else if fs = [] then v else kReview)"
  by (induction fs arbitrary: v) auto

lemma Run_answers:
  assumes "Run w = Some (res, tr)"
  obtains "res = result0 (cfi w)"
  | cap where "res = (result0 (cfi w))\<lparr>findings := Take (Add SevReview (pc_begin (cfi w)) ''no CFI row covers the start of this FDE''
      (FindingSink0 cap)), verdict := kReview\<rparr>"
  | st where "res = finish w st"
  using assms by (auto simp: Run_def Let_def split: option.splits bind_splits if_splits)

definition findings_verdict :: "Finding list \<Rightarrow> Verdict" where
  "findings_verdict fs = (if \<exists>f \<in> set fs. f_severity f = SevMismatch then kMismatch
     else if fs = [] then kBlessed else kReview)"

lemma verdict_finish: "verdict (finish w st) = findings_verdict (findings (finish w st))"
  by (simp add: finish_def verdict_of_eq findings_verdict_def Let_def)

lemma verdict_Run:
  assumes "Run w = Some (res, tr)"
  shows "verdict res = findings_verdict (findings res)"
  using assms
proof (cases rule: Run_answers)
  case (3 st)
  then show ?thesis by (simp add: verdict_finish)
qed (simp_all add: findings_verdict_def result0_def Take_def Add_def FindingSink0_def)

text \<open>C16. The verdict is read off the findings: MISMATCH exactly when one of them is a mismatch,
  BLESSED exactly when there is none at all, REVIEW otherwise. (The check itself never answers
  REVIEW-LIGHT.)\<close>

theorem Check_verdict:
  "case Check opts c at_entry g of None \<Rightarrow> True
   | Some (res, tr) \<Rightarrow> verdict res = (if \<exists>f \<in> set (findings res). f_severity f = SevMismatch then kMismatch
                        else if findings res = [] then kBlessed else kReview)"
  by (auto simp: Check_def findings_verdict_def dest!: verdict_Run split: option.split)



end
