(* ===== verification/Leb_Props.thy ===== *)
theory Leb_Props
  imports Eh_Frame_Reader
begin

text \<open>
  The LEB128 readers of the \<^verbatim>\<open>.eh_frame\<close> decoder against reference encoders: \<open>uleb\<close> and \<open>sleb\<close>
  are the encodings the DWARF standard defines, and reading one back yields the number and
  leaves the slice just after it.
\<close>

fun uleb :: "nat \<Rightarrow> u8 list" where
  "uleb n = (if n < 128 then [of_nat n] else of_nat (n mod 128 + 128) # uleb (n div 128))"

function sleb :: "int \<Rightarrow> u8 list" where
  "sleb i =
     (if - 64 \<le> i \<and> i < 64 then [word_of_int (i mod 128)]
      else word_of_int (i mod 128 + 128) # sleb (i div 128))"
  by pat_completeness auto
termination
  by (relation "measure (\<lambda>i. nat (if i < 0 then - i else i))") auto

declare uleb.simps [simp del] sleb.simps [simp del]

subsection \<open>Bytes of a slice\<close>

lemma mem_bytes_Suc: "mem_bytes mem a (Suc n) = mem a # mem_bytes mem (a + 1) n"
proof (rule nth_equalityI)
  fix i
  assume "i < length (mem_bytes mem a (Suc n))"
  then show "mem_bytes mem a (Suc n) ! i = (mem a # mem_bytes mem (a + 1) n) ! i"
    by (cases i) (simp_all add: mem_bytes_def add.assoc del: upt_Suc)
qed simp

lemma ReadU8_cons:
  assumes "length (b # bs) \<le> sl_size sl" "mem_bytes mem (sl_data sl) (length (b # bs)) = b # bs"
  shows "ReadU8 mem sl = Inr (b, subspan 1 sl)"
    and "length bs \<le> sl_size (subspan 1 sl)" "mem_bytes mem (sl_data (subspan 1 sl)) (length bs) = bs"
  using assms mem_bytes_Suc [of mem "sl_data sl" "length bs"] mem_bytes_Suc [of mem "sl_data sl" 0]
  by (simp_all add: ReadU8_def ReadObject_def mem_bytes_def)

text \<open>The payload and the continuation bit of a byte.\<close>

lemma leb_byte:
  assumes "n < 128"
  shows "(of_nat n :: u8) AND 0x7f = of_nat n" "(of_nat n :: u8) AND 0x80 = 0"
    "(of_nat (n + 128) :: u8) AND 0x7f = of_nat n" "(of_nat (n + 128) :: u8) AND 0x80 \<noteq> 0"
proof -
  have *: "\<forall>n < 128. (of_nat n :: u8) AND 0x7f = of_nat n \<and> (of_nat n :: u8) AND 0x80 = 0 \<and>
      (of_nat (n + 128) :: u8) AND 0x7f = of_nat n \<and> (of_nat (n + 128) :: u8) AND 0x80 \<noteq> 0"
    by code_simp
  from * assms show "(of_nat n :: u8) AND 0x7f = of_nat n" "(of_nat n :: u8) AND 0x80 = 0"
    "(of_nat (n + 128) :: u8) AND 0x7f = of_nat n" "(of_nat (n + 128) :: u8) AND 0x80 \<noteq> 0" by blast+
qed

lemma or_above:
  assumes "q < 2 ^ k"
  shows "(of_nat q :: u64) OR push_bit k x = of_nat q + push_bit k x"
proof (rule disjunctive_add [symmetric])
  fix n
  have "bit (of_nat q :: u64) n \<longrightarrow> bit q n"
    using bit_unsigned_iff [of "of_nat q :: u64" n, where 'a = nat]
    by (auto simp: bit_take_bit_iff unsigned_of_nat dest: bit_imp_le_length)
  moreover have "\<not> bit q n" if "k \<le> n"
  proof -
    have "q < 2 ^ n" using assms that by (meson less_le_trans power_increasing one_le_numeral)
    then show ?thesis by (simp add: bit_iff_odd)
  qed
  ultimately show "\<not> bit (of_nat q :: u64) n \<or> \<not> bit (push_bit k x) n"
    by (auto simp: bit_push_bit_iff not_le)
qed

lemma or_payload:
  assumes "q < 2 ^ k" "b < 128"
  shows "(of_nat q :: u64) OR push_bit k (ucast (of_nat b :: u8)) = of_nat (q + b * 2 ^ k)"
proof -
  have "ucast (of_nat b :: u8) = (of_nat b :: u64)"
    using assms(2) by (simp add: unsigned_of_nat take_bit_nat_eq_self)
  then show ?thesis using or_above [OF assms(1), of "of_nat b"] by (simp add: push_bit_eq_mult)
qed

lemma payload_bound:
  assumes "q < 2 ^ k" "b < 128"
  shows "q + b * 2 ^ k < (2 ^ (k + 7) :: nat)"
proof -
  have "b * 2 ^ k \<le> 127 * 2 ^ k" using assms(2) by (intro mult_right_mono) linarith+
  then have "q + b * 2 ^ k < 2 ^ k + 127 * 2 ^ k" using assms(1) by linarith
  then show ?thesis by (simp add: power_add)
qed

text \<open>The loops look at shifts that are multiples of seven.\<close>

lemma shift_63:
  assumes "7 dvd k" "k < 64" "\<not> k \<le> (56 :: nat)"
  shows "k = 63"
  using assms by presburger

subsection \<open>Unsigned\<close>

lemma ReadUleb128_loop_uleb:
  assumes "7 dvd k" "k < 64" "q < 2 ^ k" "n < 2 ^ (64 - k)"
    and "length (uleb n) \<le> sl_size sl" "mem_bytes mem (sl_data sl) (length (uleb n)) = uleb n"
  shows "ReadUleb128_loop mem (of_nat q) k sl = Inr (of_nat (q + n * 2 ^ k), subspan (length (uleb n)) sl)"
  using assms
proof (induction n arbitrary: q k sl rule: less_induct)
  case (less n)
  show ?case
  proof (cases "n < 128")
    case True
    then have u: "uleb n = [of_nat n]" by (simp add: uleb.simps)
    note rd = ReadU8_cons(1) [of "of_nat n" "[]" sl mem, folded u, OF less.prems(5,6)]
    have "drop_bit (64 - k) ((of_nat n :: u8) AND 0x7f) = 0" if "k > 57"
    proof -
      have "k = 63" using shift_63 [OF less.prems(1,2)] that by simp
      then have "n = 0 \<or> n = 1" using less.prems(4) by auto
      with \<open>k = 63\<close> show ?thesis by auto
    qed
    then show ?thesis
      using less.prems(2,3) True by (subst ReadUleb128_loop.simps) (simp add: rd u leb_byte or_payload Let_def)
  next
    case False
    let ?b = "n mod 128"
    have u: "uleb n = of_nat (?b + 128) # uleb (n div 128)" using False by (subst uleb.simps) simp
    note rd = ReadU8_cons [of "of_nat (?b + 128)" "uleb (n div 128)" sl mem, folded u, OF less.prems(5,6)]
    have "k \<le> 56"
    proof (rule ccontr)
      assume "\<not> k \<le> 56"
      then have "k = 63" by (rule shift_63 [OF less.prems(1,2)])
      with less.prems(4) False show False by simp
    qed
    moreover have "k \<noteq> 57" using less.prems(1) by presburger
    ultimately have k: "k + 7 < 64" "64 - k = (64 - (k + 7)) + 7" by auto
    have b: "?b < 128" by simp
    note q = payload_bound [OF less.prems(3) b]
    have n: "n div 128 < 2 ^ (64 - (k + 7))"
      using less.prems(4) by (subst (asm) k(2)) (simp add: power_add less_mult_imp_div_less)
    have "7 dvd k + 7" using less.prems(1) by simp
    note IH = less.IH [OF _ this k(1) q n rd(2,3)]
    have "?b * 2 ^ k + n div 128 * 2 ^ (k + 7) = (?b + n div 128 * 128) * 2 ^ k"
      unfolding power_add distrib_right by simp
    then have val: "q + ?b * 2 ^ k + n div 128 * 2 ^ (k + 7) = q + n * 2 ^ k" by (simp only: mod_div_mult_eq add.assoc)
    show ?thesis
      using less.prems(2,3) False k(1) IH
      by (subst ReadUleb128_loop.simps) (simp add: rd(1) u leb_byte(3,4) [OF b] or_payload [OF less.prems(3) b] Let_def val subspan_subspan
          del: of_nat_add of_nat_mult)
  qed
qed

text \<open>C28. Reading an unsigned LEB128 number back: if the slice starts with the encoding of a number
  below \<open>2^64\<close>, \<open>ReadUleb128\<close> returns that number and the slice after the encoding.\<close>

theorem ReadUleb128_roundtrip:
  assumes "n < 2 ^ 64" "length (uleb n) \<le> sl_size sl" "mem_bytes mem (sl_data sl) (length (uleb n)) = uleb n"
  shows "ReadUleb128 mem sl = Inr (of_nat n, subspan (length (uleb n)) sl)"
  using ReadUleb128_loop_uleb [of 0 0 n sl mem] assms by (simp add: ReadUleb128_def)

theorem ReadUleb128_roundtrip_witness:
  "ReadUleb128 (\<lambda>a. if a = 0 then 0xe5 else if a = 1 then 0x8e else 0x26) \<lparr>sl_data = 0, sl_size = 5\<rparr> =
     Inr (624485, \<lparr>sl_data = 3, sl_size = 2\<rparr>)"
proof -
  have "uleb 624485 = [0xe5, 0x8e, 0x26]" by (simp add: uleb.simps)
  then show ?thesis
    using ReadUleb128_roundtrip [of 624485 "\<lparr>sl_data = 0, sl_size = 5\<rparr>" "\<lambda>a. if a = 0 then 0xe5 else if a = 1 then 0x8e else 0x26"]
    by (simp add: mem_bytes_def subspan_def upt_rec)
qed


subsection \<open>Signed\<close>

lemma leb_sign:
  assumes "b < 128"
  shows "(of_nat b :: u8) AND 0x40 = 0 \<longleftrightarrow> b < 64"
proof -
  have "(of_nat b :: u8) AND 2 ^ 6 = 0 \<longleftrightarrow> \<not> bit (of_nat b :: u8) 6" by (rule and_exp_eq_0_iff_not_bit)
  moreover have "bit (of_nat b :: u8) 6 = bit b 6"
    using bit_unsigned_iff [of "of_nat b :: u8" 6, where 'a = nat] assms by (simp add: unsigned_of_nat take_bit_nat_eq_self)
  moreover have "bit b 6 \<longleftrightarrow> \<not> b < 64"
  proof -
    have "b div 64 = (if b < 64 then 0 else 1)" using assms by auto
    then show ?thesis by (simp add: bit_iff_odd)
  qed
  ultimately show ?thesis by simp
qed

lemma sleb_no_overflow_63: "\<not> sleb_overflow 63 0" "\<not> sleb_overflow 63 127"
  by (simp_all add: sleb_overflow_def Let_def)

lemma div_128_range: "- (c * 128) \<le> i \<Longrightarrow> i < c * 128 \<Longrightarrow> - c \<le> i div 128 \<and> i div 128 < (c :: int)"
  by linarith

text \<open>The payload of the last byte, sign-extended.\<close>

lemma sleb_last:
  assumes "- 64 \<le> i" "i < 64"
  obtains b where "b < 128" "sleb i = [of_nat b]" "i = (if b < 64 then int b else int b - 128)"
proof -
  have "0 \<le> i mod 128" "i mod 128 < 128" by simp_all
  then obtain b where b: "i mod 128 = int b" "b < 128" by (metis nonneg_int_cases of_nat_less_iff of_nat_numeral)
  have "sleb i = [word_of_int (i mod 128)]" using assms by (subst sleb.simps) simp
  moreover have "i = (if b < 64 then int b else int b - 128)"
    using assms b by (cases "b < 64") presburger+
  ultimately show ?thesis using that b by simp
qed

lemma sleb_last_value:
  assumes "7 dvd k" "k < 64" "q < 2 ^ k" "b < 128" "i = (if b < 64 then int b else int b - 128)"
    and "k = 63 \<Longrightarrow> b = 0 \<or> b = 127"
  shows "(word_of_int (int q + i * 2 ^ k) :: u64) =
      (if k + 7 < 64 \<and> \<not> b < 64 then of_nat (q + b * 2 ^ k) OR push_bit (k + 7) (- 1) else of_nat (q + b * 2 ^ k))"
proof (cases "k + 7 < 64")
  case True
  have sx: "of_nat (q + b * 2 ^ k) OR push_bit (k + 7) (- 1) = (of_nat (q + b * 2 ^ k) - 2 ^ (k + 7) :: u64)"
    using or_above [OF payload_bound [OF assms(3,4)], of "- 1"] unfolding push_bit_eq_mult by simp
  have "(word_of_int (int q + i * 2 ^ k) :: u64) = of_nat (q + b * 2 ^ k) - (if b < 64 then 0 else 2 ^ (k + 7))"
    unfolding assms(5) by (cases "b < 64") (simp_all add: power_add algebra_simps)
  then show ?thesis unfolding sx using True by simp
next
  case False
  then have "k = 63" using shift_63 [OF assms(1,2)] by simp
  with assms(5,6) show ?thesis by auto
qed

lemma ReadSleb128_loop_last:
  assumes "7 dvd k" "k < 64" "q < 2 ^ k" "- (2 ^ (63 - k)) \<le> i" "i < 2 ^ (63 - k)" "- 64 \<le> i" "i < 64"
    and "length (sleb i) \<le> sl_size sl" "mem_bytes mem (sl_data sl) (length (sleb i)) = sleb i"
  shows "ReadSleb128_loop mem (of_nat q) k sl = Inr (word_of_int (int q + i * 2 ^ k), subspan (length (sleb i)) sl)"
proof -
  obtain b where b: "b < 128" "sleb i = [of_nat b]" "i = (if b < 64 then int b else int b - 128)"
    by (rule sleb_last [OF assms(6,7)])
  note rd = ReadU8_cons(1) [of "of_nat b" "[]" sl mem, folded b(2), OF assms(8,9)]
  have 63: "b = 0 \<or> b = 127" if "k = 63" using that assms(4,5) b(1,3) by (auto split: if_splits)
  have 1: "\<not> (64 - 7 < k \<and> sleb_overflow k (of_nat b))"
    using shift_63 [OF assms(1,2)] 63 sleb_no_overflow_63 by auto
  have "ReadSleb128_loop mem (of_nat q) k sl = Inr (if k + 7 < 64 \<and> \<not> b < 64
      then of_nat (q + b * 2 ^ k) OR push_bit (k + 7) (- 1) else of_nat (q + b * 2 ^ k), subspan 1 sl)"
    using assms(2) 1
    by (subst ReadSleb128_loop.simps) (simp add: rd leb_byte [OF b(1)] leb_sign [OF b(1)] or_payload [OF assms(3) b(1)] Let_def
        del: of_nat_add of_nat_mult)
  with sleb_last_value [OF assms(1-3) b(1,3) 63] b(2) show ?thesis by (simp only: list.size One_nat_def add_0)
qed

lemma sleb_more:
  assumes "\<not> (- 64 \<le> i \<and> i < 64)"
  obtains b where "b < 128" "sleb i = of_nat (b + 128) # sleb (i div 128)" "i = int b + i div 128 * 128"
proof -
  have "0 \<le> i mod 128" "i mod 128 < 128" by simp_all
  then obtain b where b: "i mod 128 = int b" "b < 128" by (metis nonneg_int_cases of_nat_less_iff of_nat_numeral)
  have "sleb i = word_of_int (i mod 128 + 128) # sleb (i div 128)" using assms by (subst sleb.simps) auto
  moreover have "i = int b + i div 128 * 128" using mod_div_mult_eq [of i 128] b(1) by simp
  ultimately show ?thesis using that b by simp
qed


lemma ReadSleb128_loop_sleb:
  assumes "7 dvd k" "k < 64" "q < 2 ^ k" "- (2 ^ (63 - k)) \<le> i" "i < 2 ^ (63 - k)"
    and "length (sleb i) \<le> sl_size sl" "mem_bytes mem (sl_data sl) (length (sleb i)) = sleb i"
  shows "ReadSleb128_loop mem (of_nat q) k sl = Inr (word_of_int (int q + i * 2 ^ k), subspan (length (sleb i)) sl)"
  using assms
proof (induction "nat (if i < 0 then - i else i)" arbitrary: i q k sl rule: less_induct)
  case less
  show ?case
  proof (cases "- 64 \<le> i \<and> i < 64")
    case True
    then show ?thesis using less.prems by (intro ReadSleb128_loop_last) simp_all
  next
    case False
    obtain b where b: "b < 128" "sleb i = of_nat (b + 128) # sleb (i div 128)" "i = int b + i div 128 * 128"
      by (rule sleb_more [OF False])
    note rd = ReadU8_cons [of "of_nat (b + 128)" "sleb (i div 128)" sl mem, folded b(2), OF less.prems(6,7)]
    have "k \<le> 56"
    proof (rule ccontr)
      assume "\<not> k \<le> 56"
      then have "k = 63" by (rule shift_63 [OF less.prems(1,2)])
      with less.prems(4,5) False show False by simp
    qed
    then have k: "7 dvd k + 7" "k + 7 < 64" "63 - k = (63 - (k + 7)) + 7" using less.prems(1) by presburger+
    have i: "- (2 ^ (63 - (k + 7))) \<le> i div 128" "i div 128 < 2 ^ (63 - (k + 7))"
      using less.prems(4,5) div_128_range [of "2 ^ (63 - (k + 7))" i] unfolding k(3) power_add by simp_all
    have dec: "nat (if i div 128 < 0 then - (i div 128) else i div 128) < nat (if i < 0 then - i else i)"
      using False by (cases "i < 0"; simp; linarith)
    note IH = less.hyps [OF dec k(1,2) payload_bound [OF less.prems(3) b(1)] i rd(2,3)]
    have val: "int (q + b * 2 ^ k) + i div 128 * 2 ^ (k + 7) = int q + i * 2 ^ k"
      by (subst (2) b(3)) (simp add: power_add algebra_simps)
    have "ReadSleb128_loop mem (of_nat q) k sl = ReadSleb128_loop mem (of_nat (q + b * 2 ^ k)) (k + 7) (subspan 1 sl)"
      using less.prems(2) k(2)
      by (subst ReadSleb128_loop.simps) (simp add: rd(1) leb_byte(3,4) [OF b(1)] or_payload [OF less.prems(3) b(1)] Let_def
          del: of_nat_add of_nat_mult)
    then show ?thesis using IH unfolding val b(2) by (simp add: subspan_subspan)
  qed
qed

text \<open>C29. Reading a signed LEB128 number back: if the slice starts with the encoding of an \<open>int64_t\<close>,
  \<open>ReadSleb128\<close> returns its two's complement representation and the slice after the encoding.\<close>

theorem ReadSleb128_roundtrip:
  assumes "in_int64 i" "length (sleb i) \<le> sl_size sl" "mem_bytes mem (sl_data sl) (length (sleb i)) = sleb i"
  shows "ReadSleb128 mem sl = Inr (word_of_int i, subspan (length (sleb i)) sl)"
  using ReadSleb128_loop_sleb [of 0 0 i sl mem] assms by (simp add: ReadSleb128_def in_int64_def)

theorem ReadSleb128_roundtrip_witness:
  "ReadSleb128 (\<lambda>a. if a = 0 then 0xc0 else if a = 1 then 0xbb else 0x78) \<lparr>sl_data = 0, sl_size = 5\<rparr> =
     Inr (word_of_int (- 123456), \<lparr>sl_data = 3, sl_size = 2\<rparr>)"
proof -
  have "sleb (- 123456) = [0xc0, 0xbb, 0x78]" by (simp add: sleb.simps)
  then show ?thesis
    using ReadSleb128_roundtrip [of "- 123456" "\<lparr>sl_data = 0, sl_size = 5\<rparr>" "\<lambda>a. if a = 0 then 0xc0 else if a = 1 then 0xbb else 0x78"]
    by (simp add: mem_bytes_def subspan_def upt_rec in_int64_def)
qed

end
