(* ===== verification/Section_Props.thy ===== *)
theory Section_Props
  imports Eh_Frame_Reader
begin

text \<open>
  Walking a section and looking an address up: \<open>EnumerateFDEs\<close> reports the FDEs among the records
  that following the length fields from the start reaches, and the binary search of \<open>FindFDE\<close>
  finds the last table entry that starts at or below the address.
\<close>

subsection \<open>The records of a section\<close>

definition record_len :: "memory \<Rightarrow> u64 \<Rightarrow> u32" where
  "record_len mem pos = of_nat (le_nat (mem_bytes mem pos 4))"

definition record_next :: "memory \<Rightarrow> u64 \<Rightarrow> u64" where
  "record_next mem pos = pos + 4 + ucast (record_len mem pos)"

text \<open>A whole record at \<open>pos\<close>: neither the terminator nor the 64-bit escape, and inside the section.\<close>

definition record_ok :: "memory \<Rightarrow> u64 \<Rightarrow> u64 \<Rightarrow> bool" where
  "record_ok mem eh_end pos \<longleftrightarrow> pos + 8 \<le> eh_end \<and> pos \<le> pos + 4 \<and> pos + 4 \<le> eh_end \<and> pos + 4 \<le> pos + 8 \<and>
     record_len mem pos \<noteq> 0 \<and> record_len mem pos \<noteq> 0xffffffff \<and> pos < record_next mem pos \<and> record_next mem pos \<le> eh_end"

inductive record_at :: "memory \<Rightarrow> u64 \<Rightarrow> u64 \<Rightarrow> u64 \<Rightarrow> bool" for mem eh_end where
  record_first: "record_ok mem eh_end pos \<Longrightarrow> record_at mem eh_end pos pos"
| record_later: "record_ok mem eh_end pos \<Longrightarrow> record_at mem eh_end (record_next mem pos) p \<Longrightarrow> record_at mem eh_end pos p"

inductive_simps record_at_simps: "record_at mem eh_end pos p"

lemma EnumerateFDEs_loop_step:
  "fst (EnumerateFDEs_loop mem eh_end pos) =
     (if record_ok mem eh_end pos
      then (if of_nat (le_nat (mem_bytes mem (pos + 4) 4)) \<noteq> (0 :: u32) then [pos] else []) @
           fst (EnumerateFDEs_loop mem eh_end (record_next mem pos))
      else [])"
  by (subst EnumerateFDEs_loop.simps)
    (auto simp: ReadU32At_def record_ok_def record_next_def record_len_def Let_def not_le add.assoc split: prod.splits)

definition is_fde :: "memory \<Rightarrow> u64 \<Rightarrow> bool" where
  "is_fde mem pos \<longleftrightarrow> of_nat (le_nat (mem_bytes mem (pos + 4) 4)) \<noteq> (0 :: u32)"

lemma record_forward: "record_ok mem eh_end pos \<Longrightarrow> pos < record_next mem pos \<and> record_next mem pos \<le> eh_end"
  by (simp add: record_ok_def)

lemma record_induct [case_names step]:
  assumes "\<And>pos. (record_ok mem eh_end pos \<Longrightarrow> P (record_next mem pos)) \<Longrightarrow> P pos"
  shows "P (pos :: u64)"
proof (induction "unat eh_end - unat pos" arbitrary: pos rule: less_induct)
  case less
  show ?case
  proof (rule assms)
    assume "record_ok mem eh_end pos"
    then have "unat eh_end - unat (record_next mem pos) < unat eh_end - unat pos"
      using record_forward [of mem eh_end pos] by (auto simp: word_less_nat_alt word_le_nat_alt)
    then show "P (record_next mem pos)" by (rule less)
  qed
qed

lemma EnumerateFDEs_loop_bounds:
  "sorted_wrt (<) (fst (EnumerateFDEs_loop mem eh_end pos)) \<and> set (fst (EnumerateFDEs_loop mem eh_end pos)) \<subseteq> {p. pos \<le> p \<and> record_ok mem eh_end p}"
proof (induction pos rule: record_induct [of mem eh_end])
  case (step pos)
  show ?case
  proof (cases "record_ok mem eh_end pos")
    case True
    have "\<forall>p \<in> set (fst (EnumerateFDEs_loop mem eh_end (record_next mem pos))). pos < p"
      using step [OF True] record_forward [OF True] by force
    with step [OF True] True record_forward [OF True] show ?thesis by (subst (1 2) EnumerateFDEs_loop_step) auto
  qed (simp add: EnumerateFDEs_loop_step)
qed

lemma EnumerateFDEs_loop_iff:
  "p \<in> set (fst (EnumerateFDEs_loop mem eh_end pos)) \<longleftrightarrow> record_at mem eh_end pos p \<and> is_fde mem p"
proof (induction pos rule: record_induct [of mem eh_end])
  case (step pos)
  show ?case
    by (subst EnumerateFDEs_loop_step, subst record_at_simps) (auto simp: step is_fde_def [of mem pos])
qed

text \<open>C17. \<open>EnumerateFDEs\<close> reports exactly the FDEs of the section: the records reached from its start by
  following the length fields, as long as they are whole and inside it, whose second word is not
  zero; each once, in increasing order, and lying entirely inside the section. This holds for
  every section, and the walk always ends.\<close>

theorem EnumerateFDEs_exact:
  "set (fst (EnumerateFDEs mem eh_start eh_end)) = {p. record_at mem eh_end eh_start p \<and> is_fde mem p} \<and>
   sorted_wrt (<) (fst (EnumerateFDEs mem eh_start eh_end)) \<and>
   set (fst (EnumerateFDEs mem eh_start eh_end)) \<subseteq> {p. eh_start \<le> p \<and> record_ok mem eh_end p}"
  using EnumerateFDEs_loop_bounds [of mem eh_end eh_start] EnumerateFDEs_loop_iff [of _ mem eh_end eh_start]
  by (auto simp: EnumerateFDEs_def)

subsection \<open>The binary search table\<close>

lemma FindFDE_search_bounds:
  assumes "low \<le> high" "\<And>i j. i \<le> j \<Longrightarrow> j < n \<Longrightarrow> start_pc i \<le> start_pc j" "high \<le> n"
    and "\<And>i. i < low \<Longrightarrow> start_pc i \<le> pc" "\<And>i. high \<le> i \<Longrightarrow> i < n \<Longrightarrow> pc < start_pc i"
  shows "FindFDE_search start_pc pc low high \<le> n \<and>
    (\<forall>i < FindFDE_search start_pc pc low high. start_pc i \<le> pc) \<and>
    (\<forall>i < n. FindFDE_search start_pc pc low high \<le> i \<longrightarrow> pc < start_pc i)"
  using assms
proof (induction start_pc pc low high rule: FindFDE_search.induct)
  case (1 start_pc pc low high)
  let ?mid = "(low + high) div 2"
  show ?case
  proof (cases "low < high")
    case True
    then have mid: "low \<le> ?mid" "?mid < high" by auto
    show ?thesis
    proof (cases "pc < start_pc ?mid")
      case lt: True
      have "pc < start_pc i" if "?mid \<le> i" "i < n" for i using "1.prems"(2) [OF that] lt by (rule order.strict_trans2 [rotated])
      then have "FindFDE_search start_pc pc low ?mid \<le> n \<and> (\<forall>i < FindFDE_search start_pc pc low ?mid. start_pc i \<le> pc) \<and>
          (\<forall>i < n. FindFDE_search start_pc pc low ?mid \<le> i \<longrightarrow> pc < start_pc i)"
        using mid "1.prems" by (intro "1.IH"(1) [OF True refl lt]) auto
      then show ?thesis using True lt by (simp add: FindFDE_search.simps [of start_pc pc low high])
    next
      case ge: False
      have "start_pc i \<le> pc" if "i < ?mid + 1" for i
        using "1.prems"(2) [of i ?mid] that mid "1.prems"(3) ge by (simp add: not_less less_Suc_eq_le)
      then have "FindFDE_search start_pc pc (?mid + 1) high \<le> n \<and> (\<forall>i < FindFDE_search start_pc pc (?mid + 1) high. start_pc i \<le> pc) \<and>
          (\<forall>i < n. FindFDE_search start_pc pc (?mid + 1) high \<le> i \<longrightarrow> pc < start_pc i)"
        using mid "1.prems" by (intro "1.IH"(2) [OF True refl ge]) auto
      then show ?thesis using True ge by (simp add: FindFDE_search.simps [of start_pc pc low high])
    qed
  next
    case False
    then have "FindFDE_search start_pc pc low high = low" "low = high" using "1.prems"(1) by (simp_all add: FindFDE_search.simps)
    then show ?thesis using "1.prems" by auto
  qed
qed

text \<open>The binary search of \<open>FindFDE\<close> on a table sorted by start address: it returns how many of the
  entries start at or below the address, so the entry before that index is the last one that may
  contain it.\<close>

lemma FindFDE_search_exact:
  assumes "\<And>i j. i \<le> j \<Longrightarrow> j < n \<Longrightarrow> start_pc i \<le> start_pc j"
  shows "FindFDE_search start_pc pc 0 n \<le> n \<and> (\<forall>i < n. start_pc i \<le> pc \<longleftrightarrow> i < FindFDE_search start_pc pc 0 n)"
proof -
  note * = FindFDE_search_bounds [of 0 n n start_pc pc, OF _ assms]
  then show ?thesis by (auto simp: not_less [symmetric])
qed

end
