(* ===== verification/Coverage_Check.thy ===== *)
theory Coverage_Check
  imports Fde_Checker "HOL-Library.Product_Lexorder"
begin

text \<open>
  \<^verbatim>\<open>coverage-check.h\<close> and \<^verbatim>\<open>coverage-check.cc\<close>: the function symbols in executable memory that
  no FDE covers, or covers only in part. The vector being built by \<open>MergeRanges\<close> is kept in
  reverse, its head is \<open>merged.back()\<close>.
\<close>

type_synonym ranges = "(u64 \<times> u64) list"

fun merge_into :: "ranges \<Rightarrow> ranges \<Rightarrow> ranges" where
  "merge_into merged [] = rev merged"
| "merge_into [] (r # rs) = merge_into [r] rs"
| "merge_into (m # ms) (r # rs) =
     (if fst r \<le> snd m then merge_into ((fst m, max (snd m) (snd r)) # ms) rs
      else merge_into (r # m # ms) rs)"

definition MergeRanges :: "ranges \<Rightarrow> ranges" where
  "MergeRanges rs = merge_into [] (sort rs)"

fun uncovered_loop :: "u64 \<Rightarrow> ranges \<Rightarrow> u64 \<Rightarrow> u64 \<Rightarrow> u64 \<times> u64" where
  "uncovered_loop e [] cursor uncovered = (cursor, uncovered)"
| "uncovered_loop e (r # rs) cursor uncovered =
     (if fst r < e \<and> cursor < e
      then uncovered_loop e rs (max cursor (min (snd r) e))
             (if fst r > cursor then uncovered + (min (fst r) e - cursor) else uncovered)
      else (cursor, uncovered))"

definition UncoveredBytes :: "u64 \<Rightarrow> u64 \<Rightarrow> ranges \<Rightarrow> u64" where
  "UncoveredBytes start e coverage =
     (case uncovered_loop e (dropWhile (\<lambda>iv. snd iv \<le> start) coverage) start 0 of
        (cursor, uncovered) \<Rightarrow> if cursor < e then uncovered + (e - cursor) else uncovered)"

definition uncovered_msg :: "u64 \<Rightarrow> u64 \<Rightarrow> string" where
  "uncovered_msg uncovered sz =
     (if uncovered = sz then ''no FDE covers this symbol at all''
      else ''no FDE covers '' @ show_nat (unat uncovered) @ '' of its '' @ show_nat (unat sz) @ '' bytes'')"

definition uncovered_result :: "FuncSymbol \<Rightarrow> u64 \<Rightarrow> FDEResult" where
  "uncovered_result fsym uncovered =
     \<lparr>res_fde_addr = 0, res_pc_begin = fs_vaddr fsym, res_pc_end = fs_vaddr fsym + fs_size fsym, res_signal_frame = False,
      verdict = kReview,
      findings = [\<lparr>f_severity = SevReview, f_pc = fs_vaddr fsym, f_message = uncovered_msg uncovered (fs_size fsym), f_repeats = 0\<rparr>],
      instructions_checked = 0, guessable_jump_pc = None, guessed_jump_tables = []\<rparr>"

fun check_symbols :: "ELFImage \<Rightarrow> ranges \<Rightarrow> FuncSymbol list \<Rightarrow> u64 list \<Rightarrow> FDEResult list" where
  "check_symbols img coverage [] flagged = []"
| "check_symbols img coverage (fsym # syms) flagged =
     (if fs_size fsym = 0 \<or> fs_vaddr fsym \<in> set flagged then check_symbols img coverage syms flagged
      else let flagged' = fs_vaddr fsym # flagged in
        if \<not> IsExecutable img (fs_vaddr fsym) (fs_size fsym) \<or> InPLT img (fs_vaddr fsym) (fs_size fsym)
          then check_symbols img coverage syms flagged'
        else let uncovered = UncoveredBytes (fs_vaddr fsym) (fs_vaddr fsym + fs_size fsym) coverage in
          if uncovered = 0 then check_symbols img coverage syms flagged'
          else uncovered_result fsym uncovered # check_symbols img coverage syms flagged')"

definition CheckUncoveredSymbols :: "ELFImage \<Rightarrow> ranges \<Rightarrow> FDEResult list" where
  "CheckUncoveredSymbols img fde_ranges = check_symbols img (MergeRanges fde_ranges) (func_symbols img) []"

end
