(* ===== verification/Coverage_Props.thy ===== *)
theory Coverage_Props
  imports Coverage_Check
begin

text \<open>
  The coverage check counts what it says it counts: \<open>MergeRanges\<close> keeps the union of the FDE
  ranges and makes them disjoint, and \<open>UncoveredBytes\<close> of the merged ranges is the number of
  addresses of a symbol that lie in no FDE.
\<close>

definition covers :: "ranges \<Rightarrow> u64 set" where
  "covers rs = (\<Union>r \<in> set rs. {fst r..<snd r})"

abbreviation apart :: "u64 \<times> u64 \<Rightarrow> u64 \<times> u64 \<Rightarrow> bool" where
  "apart a b \<equiv> snd a < fst b"

lemma covers_simps [simp]: "covers [] = {}" "covers (r # rs) = {fst r..<snd r} \<union> covers rs"
  "covers (xs @ ys) = covers xs \<union> covers ys" "covers (rev xs) = covers xs"
  by (auto simp: covers_def)

subsection \<open>Merging\<close>

text \<open>The accumulator is reversed and its head ends last; what is still to come starts no earlier
  than the head.\<close>

lemma merge_into_covers:
  assumes "sorted (map fst rs)" "merged \<noteq> [] \<Longrightarrow> \<forall>r \<in> set rs. fst (hd merged) \<le> fst r"
  shows "covers (merge_into merged rs) = covers merged \<union> covers rs"
  using assms
proof (induction merged rs rule: merge_into.induct)
  case (3 m ms r rs)
  show ?case
  proof (cases "fst r \<le> snd m")
    case True
    then have "{fst m..<max (snd m) (snd r)} = {fst m..<snd m} \<union> {fst r..<snd r}" if "fst m \<le> fst r"
      using that by (auto simp: max_def)
    moreover have "fst m \<le> fst r" using "3.prems"(2) by simp
    ultimately show ?thesis using True 3 by auto
  next
    case False
    then show ?thesis using 3 by auto
  qed
qed auto

lemma merge_into_apart:
  assumes "sorted (map fst rs)" "\<forall>r \<in> set rs. fst r \<le> snd r" "\<forall>r \<in> set merged. fst r \<le> snd r"
    and "merged \<noteq> [] \<Longrightarrow> \<forall>r \<in> set rs. fst (hd merged) \<le> fst r" "sorted_wrt (\<lambda>a b. apart b a) merged"
  shows "sorted_wrt apart (merge_into merged rs) \<and> (\<forall>r \<in> set (merge_into merged rs). fst r \<le> snd r)"
  using assms
proof (induction merged rs rule: merge_into.induct)
  case (1 merged)
  then show ?case by (simp add: sorted_wrt_rev)
next
  case (3 m ms r rs)
  show ?case
  proof (cases "fst r \<le> snd m")
    case True
    let ?m = "(fst m, max (snd m) (snd r))"
    have "sorted_wrt apart (merge_into (?m # ms) rs) \<and> (\<forall>r \<in> set (merge_into (?m # ms) rs). fst r \<le> snd r)"
    proof (rule "3.IH"(1) [OF True])
      show "sorted (map fst rs)" "\<forall>r \<in> set rs. fst r \<le> snd r" using "3.prems" by simp_all
      show "\<forall>r \<in> set (?m # ms). fst r \<le> snd r" using "3.prems"(3) by (simp add: le_max_iff_disj)
      show "\<forall>r \<in> set rs. fst (hd (?m # ms)) \<le> fst r" using "3.prems"(4) by simp
      show "sorted_wrt (\<lambda>a b. apart b a) (?m # ms)" using "3.prems"(5) by simp
    qed
    with True show ?thesis by simp
  next
    case False
    have "snd x < fst r" if "x \<in> set ms" for x
    proof -
      have "snd x < fst m" "fst m \<le> snd m" using that "3.prems"(3,5) by auto
      with False show ?thesis by (meson less_le_trans not_le order.strict_trans)
    qed
    then have "sorted_wrt apart (merge_into (r # m # ms) rs) \<and> (\<forall>r \<in> set (merge_into (r # m # ms) rs). fst r \<le> snd r)"
      using False "3.prems" by (intro "3.IH"(2) [OF False]) simp_all
    with False show ?thesis by simp
  qed
qed simp

lemma sorted_fst_sort: "sorted (map fst (sort (rs :: ranges)))"
  unfolding sorted_map using sorted_sort [of rs]
  by (rule sorted_wrt_mono_rel [rotated]) (auto simp: less_eq_prod_def)

lemma MergeRanges_facts:
  shows "covers (MergeRanges rs) = covers rs"
    and "\<forall>r \<in> set rs. fst r \<le> snd r \<Longrightarrow> sorted_wrt apart (MergeRanges rs) \<and> (\<forall>r \<in> set (MergeRanges rs). fst r \<le> snd r)"
  using merge_into_covers [of "sort rs" "[]"] merge_into_apart [of "sort rs" "[]"] sorted_fst_sort [of rs]
  by (simp_all add: MergeRanges_def covers_def)

subsection \<open>Counting\<close>

lemma card_word_interval: "card {a..<b :: u64} = unat b - unat a"
proof -
  have "unat ` {a..<b} = {unat a..<unat b}"
  proof (intro subset_antisym subsetI)
    fix n
    assume n: "n \<in> {unat a..<unat b}"
    then have "unat (of_nat n :: u64) = n" using unsigned_less [of b, where 'a = nat] by (simp add: unsigned_of_nat take_bit_nat_eq_self)
    with n show "n \<in> unat ` {a..<b}" by (intro image_eqI [of _ _ "of_nat n"]) (auto simp: word_le_nat_alt word_less_nat_alt)
  qed (auto simp: word_le_nat_alt word_less_nat_alt)
  moreover have "inj_on (unat :: u64 \<Rightarrow> nat) {a..<b}" by (intro inj_onI) (simp add: word_unat_eq_iff)
  ultimately show ?thesis by (metis card_image card_atLeastLessThan)
qed

lemma uncovered_loop_count:
  assumes "sorted_wrt apart rs" "\<forall>r \<in> set rs. fst r \<le> snd r"
  shows "(case uncovered_loop e rs cursor unc of (c, u) \<Rightarrow> if c < e then u + (e - c) else u) =
    unc + of_nat (card ({cursor..<e} - covers rs))"
  using assms
proof (induction rs arbitrary: cursor unc)
  case Nil
  then show ?case by (auto simp: card_word_interval of_nat_diff word_less_nat_alt)
next
  case (Cons r rs)
  show ?case
  proof (cases "fst r < e \<and> cursor < e")
    case False
    have "x \<notin> covers (r # rs)" if "x < e" "\<not> fst r < e" for x
    proof -
      have ge: "e \<le> fst q" if "q \<in> set (r # rs)" for q
        using that \<open>\<not> fst r < e\<close> Cons.prems by (auto simp: not_less intro: order.trans order.strict_implies_order)
      show ?thesis
      proof
        assume "x \<in> covers (r # rs)"
        then obtain q where "q \<in> set (r # rs)" "fst q \<le> x" unfolding covers_def by (auto simp del: set_simps)
        with ge [of q] \<open>x < e\<close> show False by simp
      qed
    qed
    with False have "{cursor..<e} - covers (r # rs) = {cursor..<e}" by force
    with False show ?thesis by (auto simp: card_word_interval of_nat_diff word_less_nat_alt)
  next
    case True
    let ?c = "max cursor (min (snd r) e)"
    have later: "x < fst q" if "q \<in> set rs" "x \<le> snd r" for q x using that Cons.prems(1) by force
    have split: "{cursor..<e} - covers (r # rs) = {cursor..<fst r} \<union> ({?c..<e} - covers rs)"
    proof (intro set_eqI iffI)
      fix x
      assume "x \<in> {cursor..<fst r} \<union> ({?c..<e} - covers rs)"
      moreover have "x \<notin> covers rs" if "x < fst r"
        using later [of _ x] that Cons.prems(2) by (force simp: covers_def)
      ultimately show "x \<in> {cursor..<e} - covers (r # rs)" using True Cons.prems(2) by (auto simp: min_def split: if_splits)
    qed (use True in \<open>auto simp: min_def\<close>)
    have "{cursor..<fst r} \<inter> ({?c..<e} - covers rs) = {}" using Cons.prems(2) by (auto simp: max_def min_def)
    then have "card ({cursor..<e} - covers (r # rs)) = (unat (fst r) - unat cursor) + card ({?c..<e} - covers rs)"
      unfolding split by (subst card_Un_disjoint) (simp_all add: card_word_interval)
    moreover have "min (fst r) e = fst r" using True by simp
    moreover have "of_nat (unat (fst r) - unat cursor) = (if cursor < fst r then fst r - cursor else 0)"
      by (simp add: word_less_nat_alt of_nat_diff)
    ultimately show ?thesis using True Cons.IH [of ?c] Cons.prems by (simp add: add.assoc)
  qed
qed

lemma covers_dropWhile: "{start..<e} - covers (dropWhile (\<lambda>iv. snd iv \<le> start) rs) = {start..<e} - covers rs"
  by (induction rs) auto

lemma UncoveredBytes_card:
  assumes "sorted_wrt apart rs" "\<forall>r \<in> set rs. fst r \<le> snd r"
  shows "UncoveredBytes start e rs = of_nat (card ({start..<e} - covers rs))"
proof -
  obtain ys where ys: "rs = ys @ dropWhile (\<lambda>iv. snd iv \<le> start) rs" by (metis takeWhile_dropWhile_id)
  have "sorted_wrt apart (dropWhile (\<lambda>iv. snd iv \<le> start) rs)"
    using assms(1) by (subst (asm) ys) (simp add: sorted_wrt_append)
  moreover have "\<forall>r \<in> set (dropWhile (\<lambda>iv. snd iv \<le> start) rs). fst r \<le> snd r"
    using assms(2) set_dropWhileD by fastforce
  ultimately show ?thesis
    using uncovered_loop_count [of "dropWhile (\<lambda>iv. snd iv \<le> start) rs" e start 0]
    by (simp add: UncoveredBytes_def covers_dropWhile)
qed

lemma uncovered_card_small: "take_bit 64 (card ({start..<e :: u64} - X)) = card ({start..<e} - X)"
proof -
  have "card ({start..<e} - X) \<le> card {start..<e}" by (rule card_mono) auto
  also have "\<dots> < 2 ^ 64" using unsigned_less [of e, where 'a = nat] by (simp add: card_word_interval)
  finally show ?thesis by (rule take_bit_nat_eq_self)
qed

text \<open>Merging the FDE ranges changes nothing about which addresses they cover, and leaves ranges in
  increasing order with a gap between any two.\<close>

lemma MergeRanges_exact:
  assumes "\<forall>r \<in> set rs. fst r \<le> snd r"
  shows "covers (MergeRanges rs) = covers rs \<and> sorted_wrt (\<lambda>a b. snd a < fst b) (MergeRanges rs) \<and>
    (\<forall>r \<in> set (MergeRanges rs). fst r \<le> snd r)"
  using MergeRanges_facts(1) [of rs] MergeRanges_facts(2) [OF assms] by simp

text \<open>\<open>UncoveredBytes\<close> over the merged ranges is the number of addresses of the symbol that lie in
  no FDE.\<close>

lemma UncoveredBytes_exact:
  assumes "\<forall>r \<in> set rs. fst r \<le> snd r"
  shows "unat (UncoveredBytes start e (MergeRanges rs)) = card ({start..<e} - covers rs)"
  using UncoveredBytes_card [of "MergeRanges rs"] MergeRanges_facts(2) [OF assms] uncovered_card_small [of start e "covers rs"]
  by (simp add: MergeRanges_facts(1) unsigned_of_nat)

subsection \<open>Symbols\<close>

definition needs_cover :: "ELFImage \<Rightarrow> FuncSymbol \<Rightarrow> bool" where
  "needs_cover img f \<longleftrightarrow> fs_size f \<noteq> 0 \<and> IsExecutable img (fs_vaddr f) (fs_size f) \<and> \<not> InPLT img (fs_vaddr f) (fs_size f)"

lemma check_symbols_iff:
  assumes "distinct (map fs_vaddr (filter (\<lambda>f. fs_size f \<noteq> 0) syms))" "\<forall>f \<in> set syms. fs_size f \<noteq> 0 \<longrightarrow> fs_vaddr f \<notin> set flagged"
  shows "set (map res_pc_begin (check_symbols img cov syms flagged)) =
    {fs_vaddr f | f. f \<in> set syms \<and> needs_cover img f \<and> UncoveredBytes (fs_vaddr f) (fs_vaddr f + fs_size f) cov \<noteq> 0}"
  using assms
proof (induction syms arbitrary: flagged)
  case (Cons f syms)
  show ?case
  proof (cases "fs_size f = 0")
    case True
    then show ?thesis using Cons by (auto simp: needs_cover_def)
  next
    case False
    have "\<forall>g \<in> set syms. fs_size g \<noteq> 0 \<longrightarrow> fs_vaddr g \<notin> set (fs_vaddr f # flagged)"
      using Cons.prems False by (auto simp: image_iff)
    note IH = Cons.IH [OF _ this]
    show ?thesis using False Cons.prems IH by (auto simp: needs_cover_def uncovered_result_def Let_def)
  qed
qed simp

text \<open>C27. The report of uncovered symbols is exact: when no two symbols with code start at the same
  address, the addresses reported are those of the function symbols in executable memory outside
  the PLT some byte of which lies in no FDE.\<close>

theorem CheckUncoveredSymbols_exact:
  assumes "\<forall>r \<in> set rs. fst r \<le> snd r" "distinct (map fs_vaddr (filter (\<lambda>f. fs_size f \<noteq> 0) (func_symbols img)))"
  shows "set (map res_pc_begin (CheckUncoveredSymbols img rs)) =
    {fs_vaddr f | f. f \<in> set (func_symbols img) \<and> needs_cover img f \<and> \<not> {fs_vaddr f..<fs_vaddr f + fs_size f} \<subseteq> covers rs}"
proof -
  have "UncoveredBytes a e (MergeRanges rs) \<noteq> 0 \<longleftrightarrow> \<not> {a..<e} \<subseteq> covers rs" for a e
  proof -
    have "UncoveredBytes a e (MergeRanges rs) \<noteq> 0 \<longleftrightarrow> card ({a..<e} - covers rs) \<noteq> 0"
      using UncoveredBytes_card [of "MergeRanges rs" a e] MergeRanges_facts(2) [OF assms(1)] uncovered_card_small [of a e "covers rs"]
      by (simp add: MergeRanges_facts(1) word_unat_eq_iff unsigned_of_nat)
    then show ?thesis by (simp add: Diff_eq_empty_iff)
  qed
  then show ?thesis
    unfolding CheckUncoveredSymbols_def using check_symbols_iff [OF assms(2), of "[]" img "MergeRanges rs"] by simp
qed

definition symbol_image :: ELFImage where
  "symbol_image =
     \<lparr>img_mem = (\<lambda>_. 0), img_bias = 0,
      segments = [\<lparr>seg_vaddr = 0x1000, seg_memsz = 64, seg_filesz = 64, seg_offset = 0x1000, seg_flags = 5\<rparr>],
      func_symbols = [\<lparr>fs_vaddr = 0x1000, fs_size = 16, fs_name = ''f''\<rparr>, \<lparr>fs_vaddr = 0x1010, fs_size = 16, fs_name = ''g''\<rparr>],
      img_eh_frame_start = 0, img_eh_frame_end = 0, img_eh_frame_hdr = 0, plt_ranges = [],
      has_debug_line = False, has_debug_link = False\<rparr>"

theorem CheckUncoveredSymbols_exact_witness:
  "set (map res_pc_begin (CheckUncoveredSymbols symbol_image [(0x1000, 0x1018)])) =
    {fs_vaddr f | f. f \<in> set (func_symbols symbol_image) \<and> needs_cover symbol_image f \<and>
       \<not> {fs_vaddr f..<fs_vaddr f + fs_size f} \<subseteq> covers [(0x1000, 0x1018)]} \<and>
   map res_pc_begin (CheckUncoveredSymbols symbol_image [(0x1000, 0x1018)]) = [0x1010]"
proof
  show "set (map res_pc_begin (CheckUncoveredSymbols symbol_image [(0x1000, 0x1018)])) =
    {fs_vaddr f | f. f \<in> set (func_symbols symbol_image) \<and> needs_cover symbol_image f \<and>
       \<not> {fs_vaddr f..<fs_vaddr f + fs_size f} \<subseteq> covers [(0x1000, 0x1018)]}"
    by (rule CheckUncoveredSymbols_exact) (simp_all add: symbol_image_def)
  show "map res_pc_begin (CheckUncoveredSymbols symbol_image [(0x1000, 0x1018)]) = [0x1010]" by code_simp
qed

end
