(* ===== verification/Elf_Props.thy ===== *)
theory Elf_Props
  imports Elf_Image
begin

text \<open>
  What \<open>Open\<close> promises of the image it builds: the bytes \<open>BytesAt\<close> hands out are the file's, and
  every mapping stays inside the reservation unless a segment wraps around the address space.
\<close>

subsection \<open>Pages\<close>

lemma kPageSize_minus: "kPageSize - 1 = mask 12"
  by (simp add: kPageSize_def mask_eq_exp_minus_1)

lemma unat_RoundDown: "unat (RoundDown v kPageSize) = unat v div 4096 * 4096"
proof -
  have "RoundDown v kPageSize = push_bit 12 (drop_bit 12 v)"
    unfolding RoundDown_def kPageSize_minus
    by (rule bit_word_eqI) (auto simp: bit_simps)
  also have "\<dots> = v - v mod 4096"
    by (simp add: push_bit_eq_mult drop_bit_eq_div minus_mod_eq_div_mult [symmetric])
  finally have eq: "RoundDown v kPageSize = v div 4096 * 4096"
    by (simp add: minus_mod_eq_div_mult)
  have "unat (v div 4096) = unat v div 4096"
    by (simp add: unat_div)
  moreover have "unat v div 4096 * 4096 < 2 ^ 64"
    using unsigned_less [of v, where 'a = nat] by (simp add: order_le_less_trans [OF div_times_less_eq_dividend])
  ultimately show ?thesis
    by (simp add: eq unat_word_ariths)
qed

lemma unat_RoundUp:
  assumes "unat v + 4095 < 2 ^ 64"
  shows "unat (RoundUp v kPageSize) = (unat v + 4095) div 4096 * 4096"
proof -
  have "unat (v + kPageSize - 1) = unat v + 4095"
    using assms by (simp add: kPageSize_def unat_word_ariths)
  then show ?thesis
    by (simp add: RoundUp_def unat_RoundDown)
qed

lemma RoundUp_ge: "unat v + 4095 < 2 ^ 64 \<Longrightarrow> unat v \<le> unat (RoundUp v kPageSize)"
  by (simp add: unat_RoundUp)

lemma unat_page_offset: "unat (v - RoundDown v kPageSize) = unat v mod 4096"
proof -
  have "unat (RoundDown v kPageSize) \<le> unat v"
    by (simp add: unat_RoundDown)
  then have "unat (v - RoundDown v kPageSize) = unat v - unat v div 4096 * 4096"
    by (simp add: unat_sub word_le_nat_alt unat_RoundDown)
  then show ?thesis
    by (simp add: minus_div_mult_eq_mod)
qed

subsection \<open>What the header scan establishes\<close>

definition seg_in_file :: "u8 list \<Rightarrow> LoadSegment \<Rightarrow> bool" where
  "seg_in_file file seg \<longleftrightarrow>
     seg_filesz seg \<le> seg_memsz seg \<and> FitsIn (seg_offset seg) (seg_filesz seg) (of_nat (length file))"

definition scan_ok :: "u8 list \<Rightarrow> phdr_scan \<Rightarrow> bool" where
  "scan_ok file ps \<longleftrightarrow> (\<forall>seg \<in> set (ps_segments ps). seg_in_file file seg \<and>
     ps_min ps \<le> seg_vaddr seg \<and> seg_vaddr seg + seg_memsz seg \<le> ps_max ps) \<and>
     (ps_max ps = 0 \<or> (\<exists>seg \<in> set (ps_segments ps). ps_max ps = seg_vaddr seg + seg_memsz seg))"

lemma scan_phdr_ok: "scan_phdr file at ps = Inr ps' \<Longrightarrow> scan_ok file ps \<Longrightarrow> scan_ok file ps'"
  by (auto simp: scan_phdr_def scan_ok_def seg_in_file_def Let_def min_le_iff_disj le_max_iff_disj max_def split: if_splits)
    (meson order_trans)

lemma scan_phdrs_ok: "scan_phdrs file at n ps = Inr ps' \<Longrightarrow> scan_ok file ps \<Longrightarrow> scan_ok file ps'"
  by (induction n arbitrary: at ps) (auto simp: bindR_eq_Inr scan_phdr_ok)

lemma map_segments_aligned:
  "map_segments map_ok b segs = None \<Longrightarrow> seg \<in> set segs \<Longrightarrow> seg_filesz seg \<noteq> 0 \<Longrightarrow>
   seg_vaddr seg mod kPageSize = seg_offset seg mod kPageSize"
  by (induction segs) (auto split: if_splits)

subsection \<open>What the later stages leave alone\<close>

definition layout :: "ELFImage \<Rightarrow> memory \<times> u64 \<times> LoadSegment list" where
  "layout img = (img_mem img, img_bias img, segments img)"

lemma scan_section_layout: "layout (ss_img (scan_section file shoff shstr i ss)) = layout (ss_img ss)"
  by (simp add: scan_section_def layout_def Let_def)

lemma fold_scan_section_layout:
  "layout (ss_img (fold (scan_section file shoff shstr) is ss)) = layout (ss_img ss)"
  by (induction "is" arbitrary: ss) (simp_all add: scan_section_layout)

lemma read_sections_layout: "layout (read_sections file img) = layout img"
  using fold_scan_section_layout [where ss = "\<lparr>ss_img = img, symtab_idx = 0, dynsym_idx = 0\<rparr>"]
  by (simp add: read_sections_def layout_def Let_def)

lemma eh_frame_fallback_layout: "layout (eh_frame_fallback img) = layout img"
  by (simp add: eh_frame_fallback_def layout_def Let_def split: option.split)

lemma finish_image_layout: "layout (finish_image file b segs h) = (loaded_byte file b segs, b, segs)"
proof -
  have "layout (img\<lparr>img_eh_frame_hdr := h\<rparr>) = layout img" for img by (simp add: layout_def)
  then show ?thesis
    unfolding finish_image_def eh_frame_fallback_layout by (simp only: read_sections_layout) (simp add: layout_def)
qed

text \<open>Everything the later theorems use of a successful plan and of a successful \<open>Open\<close>.\<close>

lemma plan_imageE:
  assumes "plan_image file = Inr (segs, lo, span, h)"
  obtains ps where "scan_ok file ps" "set segs = set (ps_segments ps)" "lo = RoundDown (ps_min ps) kPageSize"
    "span = RoundUp (ps_max ps) kPageSize - lo" "segs \<noteq> []" "span \<le> push_bit 40 1"
proof -
  let ?ps0 = "\<lparr>ps_segments = [], ps_min = NOT 0, ps_max = 0, ps_hdr = 0\<rparr>"
  from assms obtain ps where ps: "scan_phdrs file (unat (f64 file 32)) (unat (f16 file 56)) ?ps0 = Inr ps"
    by (auto simp: plan_image_def bindR_eq_Inr split: option.splits)
  from assms ps have *: "segs = sort_key seg_vaddr (ps_segments ps)" "ps_segments ps \<noteq> []" "lo = RoundDown (ps_min ps) kPageSize"
      "span = RoundUp (ps_max ps) kPageSize - lo" "span \<le> push_bit 40 1"
    by (auto simp: plan_image_def Let_def not_less split: option.splits if_splits)
  have "scan_ok file ps" using scan_phdrs_ok [OF ps] by (simp add: scan_ok_def)
  moreover have "segs \<noteq> []" using *(1,2) by (metis set_empty set_sort)
  ultimately show thesis using *(1,3-5) by (intro that) simp_all
qed

lemma Open_InrE:
  assumes "Open reserve map_ok file = Inr img"
  obtains segs lo span h A where "plan_image file = Inr (segs, lo, span, h)" "reserve span = Some A"
    "img_mem img = loaded_byte file (img_bias img) segs" "segments img = segs" "img_bias img = A - lo"
    "map_segments map_ok (img_bias img) segs = None"
proof -
  obtain segs lo span h where plan: "plan_image file = Inr (segs, lo, span, h)"
    using assms by (auto simp: Open_def bindR_eq_Inr)
  with assms obtain A where A: "reserve span = Some A" by (auto simp: Open_def split: option.splits)
  with assms plan have m: "map_segments map_ok (A - lo) segs = None" "img = finish_image file (A - lo) segs h"
    by (auto simp: Open_def Let_def split: option.splits)
  with finish_image_layout plan A show thesis by (intro that) (auto simp: layout_def)
qed

subsection \<open>The bytes of the image\<close>

lemma seg_in_file_bounds:
  assumes "seg_in_file file seg" "length file < 2 ^ 63"
  shows "unat (seg_offset seg) + unat (seg_filesz seg) \<le> length file"
proof -
  have "unat (of_nat (length file) :: u64) = length file"
    using assms(2) by (simp add: unsigned_of_nat take_bit_nat_eq_self)
  with assms(1) show ?thesis
    by (auto simp: seg_in_file_def FitsIn_def word_le_nat_alt unat_sub)
qed

text \<open>The offset of an address of the segment in its mapping, and that the mapping covers it.\<close>

lemma seg_page_offset:
  assumes "seg_in_file file seg" "length file < 2 ^ 63" "v - seg_vaddr seg < seg_filesz seg"
  shows "unat (v - seg_page seg) = unat (seg_vaddr seg) mod 4096 + unat (v - seg_vaddr seg)"
    and "covers_page b (v + b) seg"
proof -
  let ?po = "seg_vaddr seg - seg_page seg"
  have fs: "unat (seg_filesz seg) < 2 ^ 63"
    using seg_in_file_bounds [OF assms(1,2)] assms(2) by simp
  have po: "unat ?po = unat (seg_vaddr seg) mod 4096"
    by (simp add: seg_page_def unat_page_offset)
  then have "unat ?po < 4096" by simp
  have off: "unat (v - seg_vaddr seg) < unat (seg_filesz seg)"
    using assms(3) by (simp add: word_less_nat_alt)
  have "unat (?po + (v - seg_vaddr seg)) = unat ?po + unat (v - seg_vaddr seg)"
    using fs off \<open>unat ?po < 4096\<close> by (subst unat_word_ariths) simp
  then show eq: "unat (v - seg_page seg) = unat (seg_vaddr seg) mod 4096 + unat (v - seg_vaddr seg)"
    using po by simp
  have sum: "unat (seg_filesz seg + ?po) = unat (seg_filesz seg) + unat ?po"
    using fs \<open>unat ?po < 4096\<close> by (simp add: unat_word_ariths)
  with fs \<open>unat ?po < 4096\<close> have "unat (seg_filesz seg + ?po) \<le> unat (seg_map_len seg)"
    unfolding seg_map_len_def by (intro RoundUp_ge) simp
  with sum off eq po show "covers_page b (v + b) seg"
    using assms(3) by (auto simp: covers_page_def word_less_nat_alt)
qed

lemma find_rev_unique:
  assumes "x \<in> set xs" "P x" "\<And>y. y \<in> set xs \<Longrightarrow> P y \<Longrightarrow> y = x"
  shows "find P (rev xs) = Some x"
proof (cases "find P (rev xs)")
  case None
  with assms(1,2) show ?thesis by (auto simp: find_None_iff)
next
  case (Some y)
  then have "y \<in> set xs" "P y" by (auto simp: find_Some_iff) (metis length_rev nth_mem set_rev)
  with Some assms(3) show ?thesis by simp
qed

definition pages_disjoint :: "LoadSegment list \<Rightarrow> bool" where
  "pages_disjoint segs \<longleftrightarrow>
     (\<forall>s1 \<in> set segs. \<forall>s2 \<in> set segs. \<forall>v. covers_page 0 v s1 \<longrightarrow> covers_page 0 v s2 \<longrightarrow> s1 = s2)"

lemma covers_page_bias: "covers_page b (v + b) = covers_page 0 v"
  by (simp add: covers_page_def fun_eq_iff)

lemma loaded_byte_file:
  assumes "pages_disjoint segs" "seg \<in> set segs" "seg_in_file file seg" "length file < 2 ^ 63"
    and "seg_vaddr seg mod kPageSize = seg_offset seg mod kPageSize"
    and "v - seg_vaddr seg < seg_filesz seg"
  shows "loaded_byte file b segs (v + b) = file ! (unat (seg_offset seg) + unat (v - seg_vaddr seg))"
proof -
  note po = seg_page_offset [OF assms(3,4,6)]
  have "find (covers_page b (v + b)) (rev segs) = Some seg"
    using assms(1,2) po(2) by (intro find_rev_unique) (auto simp: pages_disjoint_def covers_page_bias)
  moreover have "unat (seg_vaddr seg) mod 4096 = unat (seg_offset seg) mod 4096"
    using arg_cong [OF assms(5), of unat] by (simp add: kPageSize_def unat_mod)
  moreover have "unat (seg_offset seg) + unat (v - seg_vaddr seg) < length file"
    using seg_in_file_bounds [OF assms(3,4)] assms(6) by (simp add: word_less_nat_alt)
  ultimately show ?thesis
    using po(1) by (simp add: loaded_byte_def unat_RoundDown fbyte_def)
qed

lemma bytes_in_unique:
  assumes "seg \<in> set segs" "seg_vaddr seg \<le> v" "v - seg_vaddr seg < seg_filesz seg"
    and "\<And>s. s \<in> set segs \<Longrightarrow> v - seg_vaddr s < seg_filesz s \<Longrightarrow> s = seg"
  shows "bytes_in img v n segs = mem_bytes (img_mem img) (ToImage img v) (unat (min n (seg_filesz seg - (v - seg_vaddr seg))))"
  using assms(1,4)
proof (induction segs)
  case (Cons s segs)
  show ?case
  proof (cases "s = seg")
    case True
    with assms(2,3) show ?thesis by (simp add: Let_def not_less [symmetric])
  next
    case False
    then have "\<not> v - seg_vaddr s < seg_filesz s" using Cons.prems by auto
    with False Cons show ?thesis by (simp add: Let_def not_less)
  qed
qed simp

text \<open>C25. The image a successful \<open>Open\<close> returns holds the file: when no two segments share a page,
  \<open>BytesAt\<close> at an address of a segment returns the bytes of the file at the corresponding
  offset, as many as asked for up to the end of the segment's part of the file.\<close>

theorem BytesAt_returns_file_bytes:
  assumes "Open reserve map_ok file = Inr img" "length file < 2 ^ 63" "pages_disjoint (segments img)"
    and "seg \<in> set (segments img)" "seg_vaddr seg \<le> v" "v - seg_vaddr seg < seg_filesz seg"
  shows "BytesAt img v n =
           take (unat (min n (seg_filesz seg - (v - seg_vaddr seg))))
             (drop (unat (seg_offset seg) + unat (v - seg_vaddr seg)) file)"
proof -
  obtain ps where ps: "scan_ok file ps" "set (segments img) = set (ps_segments ps)"
    and mem: "img_mem img = loaded_byte file (img_bias img) (segments img)"
    and mapped: "map_segments map_ok (img_bias img) (segments img) = None"
    using assms(1) by (elim Open_InrE plan_imageE) metis
  have infile: "seg_in_file file s" if "s \<in> set (segments img)" for s
    using ps that by (auto simp: scan_ok_def)
  let ?k = "unat (min n (seg_filesz seg - (v - seg_vaddr seg)))" and ?off = "unat (v - seg_vaddr seg)"
  have "s = seg" if "s \<in> set (segments img)" "v - seg_vaddr s < seg_filesz s" for s
    using assms(3,4) that seg_page_offset(2) [OF infile assms(2), of _ v 0] assms(6)
    by (auto simp: pages_disjoint_def)
  then have "BytesAt img v n = mem_bytes (img_mem img) (v + img_bias img) ?k"
    unfolding BytesAt_def by (subst bytes_in_unique [OF assms(4-6)]) (simp_all add: ToImage_def)
  note bytes = this
  have "seg_filesz seg \<noteq> 0"
    using assms(6) by (metis not_less word_zero_le)
  then have aligned: "seg_vaddr seg mod kPageSize = seg_offset seg mod kPageSize"
    by (rule map_segments_aligned [OF mapped assms(4)])
  have k: "?off + ?k \<le> unat (seg_filesz seg)"
    using assms(6) by (auto simp: min_def word_less_nat_alt word_le_nat_alt unat_sub)
  have "mem_bytes (img_mem img) (v + img_bias img) ?k = map (\<lambda>i. file ! (unat (seg_offset seg) + ?off + i)) [0..<?k]"
    unfolding mem_bytes_def
  proof (rule map_cong [OF refl])
    fix i
    assume "i \<in> set [0..<?k]"
    then have i: "?off + i < unat (seg_filesz seg)"
      using k by simp
    moreover have "unat (v - seg_vaddr seg + of_nat i) = ?off + i"
      using i unsigned_less [of "seg_filesz seg", where 'a = nat] by (simp add: unat_word_ariths unsigned_of_nat take_bit_nat_eq_self)
    ultimately show "img_mem img (v + img_bias img + of_nat i) = file ! (unat (seg_offset seg) + ?off + i)"
      using loaded_byte_file [OF assms(3,4) infile [OF assms(4)] assms(2), of "v + of_nat i" "img_bias img"]
        aligned
      by (auto simp: mem word_less_nat_alt algebra_simps)
  qed
  also have "\<dots> = take ?k (drop (unat (seg_offset seg) + ?off) file)"
    using k seg_in_file_bounds [OF infile [OF assms(4)] assms(2)] by (intro nth_equalityI) auto
  finally show ?thesis
    using bytes by simp
qed

subsection \<open>The reservation\<close>

text \<open>A segment that ends within the address space, a page to spare for the rounding.\<close>

definition seg_no_wrap :: "LoadSegment \<Rightarrow> bool" where
  "seg_no_wrap seg \<longleftrightarrow> unat (seg_vaddr seg) + unat (seg_memsz seg) + 4096 \<le> 2 ^ 64"

lemma div_page_mono: "a \<le> b \<Longrightarrow> a div 4096 * 4096 \<le> b div (4096 :: nat) * 4096"
  by (simp add: div_le_mono)

lemma diff_split_le: "lo \<le> v \<Longrightarrow> v \<le> e \<Longrightarrow> e \<le> hi \<Longrightarrow> (v - lo) + (e - v) \<le> hi - (lo :: nat)"
  by simp

lemma round_up_shift:
  "(f + v mod 4096 + 4095) div 4096 * 4096 = (v + f + 4095) div 4096 * 4096 - v div (4096 :: nat) * 4096"
proof -
  have "v + f + 4095 = (f + v mod 4096 + 4095) + v div 4096 * 4096"
    using mod_div_mult_eq [of v 4096] by simp
  then have "(v + f + 4095) div 4096 = (f + v mod 4096 + 4095) div 4096 + v div 4096"
    using div_mult_self1 [of 4096 "f + v mod 4096 + 4095" "v div 4096"] by simp
  then show ?thesis by (simp add: add_mult_distrib)
qed

lemma seg_page_range:
  assumes "unat (seg_filesz seg) \<le> unat (seg_memsz seg)" "unat (seg_vaddr seg) + unat (seg_memsz seg) + 4096 \<le> 2 ^ 64"
    and "unat lo \<le> unat (seg_vaddr seg)"
  shows "unat (seg_page seg - RoundDown lo kPageSize) =
           unat (seg_vaddr seg) div 4096 * 4096 - unat lo div 4096 * 4096"
    and "unat (seg_map_len seg) = (unat (seg_vaddr seg) + unat (seg_filesz seg) + 4095) div 4096 * 4096
           - unat (seg_vaddr seg) div 4096 * 4096"
proof -
  have "RoundDown lo kPageSize \<le> seg_page seg"
    using assms(3) by (simp add: word_le_nat_alt seg_page_def unat_RoundDown div_le_mono)
  then show "unat (seg_page seg - RoundDown lo kPageSize) =
      unat (seg_vaddr seg) div 4096 * 4096 - unat lo div 4096 * 4096"
    by (simp add: unat_sub seg_page_def unat_RoundDown)
  let ?v = "unat (seg_vaddr seg)" and ?f = "unat (seg_filesz seg)"
  have "?v mod 4096 \<le> ?v" by simp
  then have sum: "unat (seg_filesz seg + (seg_vaddr seg - seg_page seg)) = ?f + ?v mod 4096"
    using assms(1,2) by (simp add: unat_word_ariths(1) seg_page_def unat_page_offset)
  then have "unat (seg_map_len seg) = (?f + ?v mod 4096 + 4095) div 4096 * 4096"
    using assms(1,2) \<open>?v mod 4096 \<le> ?v\<close> unfolding seg_map_len_def by (subst unat_RoundUp) simp_all
  also have "\<dots> = (?v + ?f + 4095) div 4096 * 4096 - ?v div 4096 * 4096"
    by (rule round_up_shift)
  finally show "unat (seg_map_len seg) = (?v + ?f + 4095) div 4096 * 4096 - ?v div 4096 * 4096" .
qed

text \<open>Where the plan puts a segment: within the span, counted from its start.\<close>

lemma plan_image_inside:
  assumes "plan_image file = Inr (segs, lo, span, h)" "\<forall>seg \<in> set segs. seg_no_wrap seg" "seg \<in> set segs"
  shows "unat (seg_page seg - lo) + unat (seg_map_len seg) \<le> unat span"
proof -
  obtain ps where ps: "scan_ok file ps" "set segs = set (ps_segments ps)"
    and lo: "lo = RoundDown (ps_min ps) kPageSize" and span: "span = RoundUp (ps_max ps) kPageSize - lo"
    using assms(1) by (rule plan_imageE)
  have nowrap: "unat (seg_vaddr seg + seg_memsz seg) = unat (seg_vaddr seg) + unat (seg_memsz seg)"
    "unat (seg_vaddr seg) + unat (seg_memsz seg) + 4096 \<le> 2 ^ 64" if "seg \<in> set segs" for seg
    using assms(2) that by (auto simp: seg_no_wrap_def unat_word_ariths)
  then have "unat (ps_max ps) + 4095 < 2 ^ 64"
    using ps by (fastforce simp: scan_ok_def)
  then have hi: "unat (RoundUp (ps_max ps) kPageSize) = (unat (ps_max ps) + 4095) div 4096 * 4096"
    by (rule unat_RoundUp)
  have le: "unat (ps_min ps) \<le> unat (seg_vaddr seg)" "unat (seg_vaddr seg) + unat (seg_memsz seg) \<le> unat (ps_max ps)"
    "unat (seg_filesz seg) \<le> unat (seg_memsz seg)"
    using ps assms(3) nowrap [OF assms(3)] by (auto simp: scan_ok_def seg_in_file_def word_le_nat_alt)
  then have "RoundDown (ps_min ps) kPageSize \<le> RoundUp (ps_max ps) kPageSize"
    by (simp add: word_le_nat_alt hi unat_RoundDown div_le_mono)
  then have sp: "unat span = (unat (ps_max ps) + 4095) div 4096 * 4096 - unat (ps_min ps) div 4096 * 4096"
    by (simp add: span lo unat_sub hi unat_RoundDown)
  show ?thesis
    unfolding sp lo seg_page_range [OF le(3) nowrap(2) [OF assms(3)] le(1)]
    using le by (intro diff_split_le [OF div_page_mono [OF le(1)]] div_page_mono) simp_all
qed

text \<open>C26. \<open>Open\<close> maps only into its own reservation: when no segment wraps around the address space,
  every page range that is mapped over with \<open>MAP_FIXED\<close> lies inside the range that was
  reserved, whatever address the reservation got.\<close>

theorem Open_maps_inside_reservation:
  assumes "Open reserve map_ok file = Inr img" "\<forall>seg \<in> set (segments img). seg_no_wrap seg"
  shows "\<exists>span A. reserve span = Some A \<and>
           (\<forall>seg \<in> set (segments img). seg_filesz seg \<noteq> 0 \<longrightarrow>
              unat (seg_page seg + img_bias img - A) + unat (seg_map_len seg) \<le> unat span)"
proof -
  obtain segs lo span h A where "plan_image file = Inr (segs, lo, span, h)" "reserve span = Some A"
    "segments img = segs" "img_bias img = A - lo"
    using assms(1) by (rule Open_InrE)
  with plan_image_inside assms(2) show ?thesis by (intro exI [of _ span] exI [of _ A]) simp
qed

subsection \<open>Sample files\<close>

text \<open>Little-endian fields, and the words the loader reads back without a detour over \<open>nat\<close>.\<close>

definition le64 :: "u64 \<Rightarrow> u8 list" where
  "le64 w = map (\<lambda>i. ucast (drop_bit (8 * i) w)) [0..<8]"

definition sample_ehdr :: "u8 \<Rightarrow> u8 list" where
  "sample_ehdr n = [0x7f, 0x45, 0x4c, 0x46, 2, 1, 1, 0, 0, 0, 0, 0, 0, 0, 0, 0, 3, 0, 62, 0, 1, 0, 0, 0] @
     replicate 8 0 @ le64 64 @ replicate 14 0 @ [56, 0, n, 0, 0, 0, 0, 0, 0, 0]"

definition sample_load :: "u64 \<Rightarrow> u64 \<Rightarrow> u64 \<Rightarrow> u8 list" where
  "sample_load vaddr filesz memsz = [1, 0, 0, 0, 5, 0, 0, 0] @ le64 0 @ le64 vaddr @ le64 0 @ le64 filesz @ le64 memsz @ le64 0"

definition le_word :: "u8 list \<Rightarrow> u64" where
  "le_word bs = foldr (\<lambda>b w. ucast b + 256 * w) bs 0"

lemma of_nat_le_nat: "(of_nat (le_nat bs) :: u64) = le_word bs"
  by (induction bs) (simp_all add: le_word_def)

lemma f64_code [code]: "f64 file off = le_word (map (fbyte file) [off..<off + 8])"
  by (simp add: f64_def of_nat_le_nat)

lemma fbyte_code [code]: "fbyte file off = (case drop off file of [] \<Rightarrow> 0 | b # _ \<Rightarrow> b)"
  by (auto simp: fbyte_def not_less hd_drop_conv_nth split: list.split) (metis hd_drop_conv_nth list.sel(1))

lemma f32_code [code]: "f32 file off = foldr (\<lambda>b w. ucast b + 256 * w) (map (fbyte file) [off..<off + 4]) 0"
proof -
  have "(of_nat (le_nat bs) :: u32) = foldr (\<lambda>b w. ucast b + 256 * w) bs 0" for bs
    by (induction bs) simp_all
  then show ?thesis by (simp add: f32_def)
qed

definition sample_so :: "u8 list" where
  "sample_so = sample_ehdr 1 @ sample_load 0 120 200"

definition sample_segment :: LoadSegment where
  "sample_segment = \<lparr>seg_vaddr = 0, seg_memsz = 200, seg_filesz = 120, seg_offset = 0, seg_flags = 5\<rparr>"

definition one_page :: "u64 \<Rightarrow> u64 option" where
  "one_page span = (if span = 4096 then Some 0x10000 else None)"

text \<open>What decides whether a file opens, and where: the plan and the check of its segments.\<close>

definition planned :: "u8 list \<Rightarrow> ELFError + LoadSegment list \<times> u64 \<times> u64 \<times> ELFError option" where
  "planned file = map_sum id (\<lambda>(segs, lo, span, h). (segs, lo, span, map_segments (\<lambda>_ _ _. True) (0x10000 - lo) segs))
     (plan_image file)"

lemma planned_Inr:
  assumes "planned file = Inr (segs, lo, 4096, None)"
  obtains img where "Open one_page (\<lambda>_ _ _. True) file = Inr img" "img_bias img = 0x10000 - lo" "segments img = segs"
proof -
  obtain h where plan: "plan_image file = Inr (segs, lo, 4096, h)"
    and ok: "map_segments (\<lambda>_ _ _. True) (0x10000 - lo) segs = None"
    using assms by (cases "plan_image file") (auto simp: planned_def)
  let ?img = "finish_image file (0x10000 - lo) segs h"
  have "Open one_page (\<lambda>_ _ _. True) file = Inr ?img"
    by (simp add: Open_def plan ok one_page_def)
  moreover have "img_bias ?img = 0x10000 - lo" "segments ?img = segs"
    using finish_image_layout by (simp_all add: layout_def)
  ultimately show ?thesis using that by blast
qed

lemma planned_sample: "planned sample_so = Inr ([sample_segment], 0, 4096, None)"
  by code_simp

lemma length_sample_so: "length sample_so = 120"
  by code_simp

theorem BytesAt_returns_file_bytes_witness:
  "\<exists>img. Open one_page (\<lambda>_ _ _. True) sample_so = Inr img \<and> BytesAt img 118 16 = drop 118 sample_so"
proof -
  obtain img where img: "Open one_page (\<lambda>_ _ _. True) sample_so = Inr img" "segments img = [sample_segment]"
    using planned_sample by (rule planned_Inr) simp
  then have "BytesAt img 118 16 = take 2 (drop 118 sample_so)"
    using BytesAt_returns_file_bytes [OF img(1), of sample_segment 118 16]
    by (simp add: pages_disjoint_def length_sample_so sample_segment_def)
  with img(1) show ?thesis
    by (simp add: length_sample_so)
qed

theorem Open_maps_inside_reservation_witness:
  "\<exists>img. Open one_page (\<lambda>_ _ _. True) sample_so = Inr img \<and>
     unat (seg_page sample_segment + img_bias img - 0x10000) + unat (seg_map_len sample_segment) \<le> 4096"
proof -
  obtain img where img: "Open one_page (\<lambda>_ _ _. True) sample_so = Inr img"
    "img_bias img = 0x10000" "segments img = [sample_segment]"
    using planned_sample by (rule planned_Inr) simp
  then show ?thesis
    using Open_maps_inside_reservation [OF img(1)]
    by (auto simp: seg_no_wrap_def sample_segment_def one_page_def split: if_splits)
qed

subsection \<open>A segment that wraps\<close>

definition wrapping_so :: "u8 list" where
  "wrapping_so = sample_ehdr 2 @ sample_load 0 176 176 @ sample_load 0xfffffffffffff000 176 0x1080"

lemma planned_wrapping:
  "planned wrapping_so = Inr (
     [\<lparr>seg_vaddr = 0, seg_memsz = 176, seg_filesz = 176, seg_offset = 0, seg_flags = 5\<rparr>,
      \<lparr>seg_vaddr = 0xfffffffffffff000, seg_memsz = 0x1080, seg_filesz = 176, seg_offset = 0, seg_flags = 5\<rparr>],
     0, 4096, None)"
  by code_simp

text \<open>C39. The check of the span misses a segment whose end wraps: a file whose second segment starts
  in the last page of the address space and runs past its end is opened, and that segment is
  mapped over the page in front of the reservation, here at 0xf000 for a reservation at 0x10000.\<close>

theorem Open_maps_outside_reservation:
  "\<exists>img seg. Open one_page (\<lambda>_ _ _. True) wrapping_so = Inr img \<and> seg \<in> set (segments img) \<and>
     seg_filesz seg \<noteq> 0 \<and> seg_page seg + img_bias img = 0xf000"
proof -
  let ?seg = "\<lparr>seg_vaddr = 0xfffffffffffff000, seg_memsz = 0x1080, seg_filesz = 176, seg_offset = 0, seg_flags = 5\<rparr>"
  obtain img where "Open one_page (\<lambda>_ _ _. True) wrapping_so = Inr img"
    "img_bias img = 0x10000" "?seg \<in> set (segments img)"
    using planned_wrapping by (rule planned_Inr) simp
  moreover have "seg_page ?seg + 0x10000 = 0xf000"
    by (simp add: seg_page_def RoundDown_def kPageSize_def)
  ultimately show ?thesis by force
qed

end
