(* ===== verification/Light_Checker.thy ===== *)
theory Light_Checker
  imports Fde_Walk
begin

text \<open>
  \<^verbatim>\<open>light-checker.h\<close> and \<^verbatim>\<open>light-checker.cc\<close>: the default checker. It decodes the FDE from its
  start, seeds a fresh state from the row of each instruction, runs one \<open>Transfer\<close> and compares
  the CFA rule of the next row, and of the row at a direct branch target, with the result.
  The class \<open>FindingSink\<close> and the function \<open>CFIContaining\<close> of this file repeat those of
  \<^verbatim>\<open>fde-checker.cc\<close> word for word, so their models are shared. \<open>None\<close> means that the call does
  not return: the decode loop runs on, or the \<open>CHECK\<close> on the next row fails.
\<close>

definition Light_CFASatisfiedBy :: "CFARule \<Rightarrow> AbsVal \<Rightarrow> bool" where
  "Light_CFASatisfiedBy target v \<longleftrightarrow>
     cfa_kind target = CFARegOffset \<and> (case v of CFARel d \<Rightarrow> wrap64 (d + cfa_offset target) = 0 | _ \<Rightarrow> False)"

definition light_expression_msg :: string where
  "light_expression_msg =
     ''CFA is given by a DWARF expression, or left undeclared, which the light checker does not evaluate; '' @
     ''giving up on the rest of this FDE''"

definition light_untracked_msg :: "CFARule \<Rightarrow> AbsVal \<Rightarrow> string" where
  "light_untracked_msg target v =
     ''CFA is declared as '' @ CFARule_str target @ '', but '' @ DWARFRegName (int (cfa_reg target)) @ '' holds '' @ AbsVal_str v @
     '' here, so the rule cannot be verified; giving up on the rest of this FDE''"

definition light_mismatch_msg :: "CFARule \<Rightarrow> AbsVal \<Rightarrow> string" where
  "light_mismatch_msg target v =
     ''declared CFA is '' @ CFARule_str target @ '', but the code leaves '' @ DWARFRegName (int (cfa_reg target)) @ '' at '' @ AbsVal_str v"

text \<open>The first component tells whether to give up on the rest of the FDE.\<close>

definition Light_CheckCFA :: "u64 \<Rightarrow> CFARule \<Rightarrow> AbsState \<Rightarrow> string \<Rightarrow> FindingSink \<Rightarrow> bool \<times> FindingSink" where
  "Light_CheckCFA pc target s edge_desc k =
     (if cfa_kind target \<noteq> CFARegOffset then (True, Add SevReview pc (edge_desc @ light_expression_msg) k)
      else let v = reg s (int (cfa_reg target)) in
        if \<not> is_cfarel v then (True, Add SevReview pc (edge_desc @ light_untracked_msg target v) k)
        else if \<not> Light_CFASatisfiedBy target v
          then (False, Add SevMismatch pc (edge_desc @ light_mismatch_msg target v) k)
        else (False, k))"

definition light_transition_msg :: string where
  "light_transition_msg = ''transition to rsp-based CFA is not on pop %rbp or leave instruction''"

definition is_pop_rbp :: "Instruction \<Rightarrow> bool" where
  "is_pop_rbp i \<longleftrightarrow> insn_id i = POP \<and> op_count i = 1 \<and> op_value (operand i 0) = TypeRegister ZYDIS_REGISTER_RBP"

text \<open>The check against the row of the next instruction; \<open>None\<close> is the failing \<open>CHECK\<close>.\<close>

definition light_fall_through ::
  "CFI \<Rightarrow> u64 \<Rightarrow> CFIRow \<Rightarrow> Instruction \<Rightarrow> TransferOutcome \<Rightarrow> AbsState \<Rightarrow> FindingSink \<Rightarrow> (bool \<times> FindingSink) option" where
  "light_fall_through c pc row i out s k =
     (let next_pc = pc + of_nat (insn_size i) in
      if falls_through out \<and> \<not> is_call out \<and> next_pc < pc_end c
      then (case RowAt c next_pc of
              None \<Rightarrow> None
            | Some next_row \<Rightarrow>
                Some (if row_cfa row = RegOffset kDWARFRbp 16 \<and> row_cfa next_row = RegOffset kDWARFRsp 8
                      then if is_pop_rbp i \<or> insn_id i = LEAVE then (False, k)
                           else (True, Add SevReview pc light_transition_msg k)
                      else if insn_id i = NOP then (False, k)
                      else Light_CheckCFA pc (row_cfa next_row) s [] k))
      else Some (False, k))"

text \<open>The check against the row at a direct target. Distinct FDEs have distinct records, so the
  comparison of the pointers \<open>target_cfi\<close> and \<open>&cfi\<close> is equality of the records.\<close>

definition light_target :: "FDECheckerOptions \<Rightarrow> CFI \<Rightarrow> u64 \<Rightarrow> TransferOutcome \<Rightarrow> AbsState \<Rightarrow> FindingSink \<Rightarrow> bool \<times> FindingSink" where
  "light_target opts c pc out s k =
     (if has_direct_target out
      then case CFIContaining (all_cfis opts) (direct_target out) of
             None \<Rightarrow> (False, k)
           | Some target_cfi \<Rightarrow>
               (case RowAt target_cfi (direct_target out) of
                  None \<Rightarrow> (False, k)
                | Some target_row \<Rightarrow>
                    Light_CheckCFA pc (row_cfa target_row) s
                      (if target_cfi = c then [] else cross_edge_context (direct_target out) (fde_addr target_cfi)) k)
      else (False, k))"

definition light_decode_msg :: "u64 \<Rightarrow> nat \<Rightarrow> string" where
  "light_decode_msg pc n =
     ''could not decode instruction at '' @ fmt_x pc @ '' (buffer size: '' @ show_nat n @ '')''"

text \<open>One iteration: \<open>Inl\<close> ends the loop, \<open>Inr\<close> carries the next address on.\<close>

definition light_step ::
  "FDECheckerOptions \<Rightarrow> CFI \<Rightarrow> u64 \<Rightarrow> nat \<Rightarrow> FindingSink \<Rightarrow> ((nat \<times> FindingSink) + (u64 \<times> nat \<times> FindingSink)) option" where
  "light_step opts c pc n k =
     (case RowAt c pc of
        None \<Rightarrow> Some (Inl (n, k))
      | Some row \<Rightarrow>
          (let bytes = BytesAt (opt_image opts) pc (min 16 (pc_end c - pc)) in
           case Decode (opt_disasm opts) bytes pc of
             None \<Rightarrow> Some (Inl (n, Add SevMismatch pc (light_decode_msg pc (length bytes)) k))
           | Some i \<Rightarrow>
               (case Transfer (opt_disasm opts) i (SeedFromRow row False) of (out, s) \<Rightarrow>
                  (case light_fall_through c pc row i out s k of
                     None \<Rightarrow> None
                   | Some (True, k1) \<Rightarrow> Some (Inl (n + 1, k1))
                   | Some (False, k1) \<Rightarrow>
                       (case light_target opts c pc out s k1 of
                          (True, k2) \<Rightarrow> Some (Inl (n + 1, k2))
                        | (False, k2) \<Rightarrow> Some (Inr (pc + of_nat (insn_size i), n + 1, k2)))))))"

partial_function (option) light_loop ::
  "FDECheckerOptions \<Rightarrow> CFI \<Rightarrow> u64 \<Rightarrow> nat \<Rightarrow> FindingSink \<Rightarrow> (nat \<times> FindingSink) option" where
  "light_loop opts c pc n k =
     (if pc < pc_end c
      then Option.bind (light_step opts c pc n k) (\<lambda>r. case r of
             Inl e \<Rightarrow> Some e
           | Inr p \<Rightarrow> light_loop opts c (fst p) (fst (snd p)) (snd (snd p)))
      else Some (n, k))"

declare light_loop.simps [code]

definition light_verdict :: "Finding list \<Rightarrow> Verdict" where
  "light_verdict fs =
     (if \<exists>f \<in> set fs. f_severity f = SevMismatch then kMismatch
      else if \<exists>f \<in> set fs. f_severity f = SevReview then kReview else kBlessed)"

definition LightCheck :: "FDECheckerOptions \<Rightarrow> CFI \<Rightarrow> bool \<Rightarrow> FDEResult option" where
  "LightCheck opts c at_entry =
     (if (case RowAt c (pc_begin c) of
            Some first_row \<Rightarrow> rule_kind (row_regs first_row ! kDWARFRip) = RUndefined | None \<Rightarrow> False)
      then Some (result0 c)
      else map_option (\<lambda>(n, k). let fs = Take k in
             (result0 c)\<lparr>findings := fs, verdict := light_verdict fs, instructions_checked := n\<rparr>)
           (light_loop opts c (pc_begin c) 0 (FindingSink0 (max_findings_per_fde opts))))"

end
