(* ===== verification/Subprocess.thy ===== *)
theory Subprocess
  imports Prelude "HOL-Library.Multiset"
begin

text \<open>
  \<^verbatim>\<open>subprocess.h\<close> and \<^verbatim>\<open>subprocess.cc\<close>, and \<open>WriteAll\<close> of \<^verbatim>\<open>diagnostics.cc\<close>: starting a child with
  pipes, feeding it and waiting for it. What matters here is who owns which descriptor, so the
  state is the list of descriptors the process has open, and a \<open>close\<close> of one that is not open is
  remembered as an error. The kernel is an argument, a record of what each system call answers:
  \<open>pipe2\<close> gets the open descriptors and answers with two new ones or an error text,
  \<open>posix_spawnp\<close> gets the arguments and the file actions, \<open>waitpid\<close> and \<open>write\<close> get the number of
  the attempt (and \<open>write\<close> the data).
\<close>

subsection \<open>The system\<close>

datatype file_action = ActDup2 int int | ActOpenNull int

datatype wait_result = WaitEINTR | WaitError | WaitExited int | WaitOther

datatype write_result = WriteEINTR | WriteError string | Wrote nat

record os =
  os_pipe :: "int list \<Rightarrow> string + int \<times> int"
  os_spawn :: "string list \<Rightarrow> file_action list \<Rightarrow> string + int"
  os_wait :: "int \<Rightarrow> nat \<Rightarrow> wait_result"
  os_write :: "nat \<Rightarrow> string \<Rightarrow> write_result"
  os_output :: "string list \<Rightarrow> string"

record fds =
  open_fds :: "int list"
  bad_close :: bool

definition close_fd :: "int \<Rightarrow> fds \<Rightarrow> fds" where
  "close_fd fd st = (if fd \<in> set (open_fds st) then st\<lparr>open_fds := remove1 fd (open_fds st)\<rparr> else st\<lparr>bad_close := True\<rparr>)"

subsection \<open>Spawning\<close>

record SpawnOptions =
  pipe_stdin :: bool
  pipe_stdout :: bool
  discard_stderr :: bool

record Subprocess =
  sp_pid :: int
  sp_stdin_fd :: int
  sp_stdout_fd :: int

definition ClosePipe :: "int \<times> int \<Rightarrow> fds \<Rightarrow> fds" where
  "ClosePipe p st =
     (let st1 = (if fst p \<ge> 0 then close_fd (fst p) st else st)
      in if snd p \<ge> 0 then close_fd (snd p) st1 else st1)"

text \<open>\<open>options.pipe_stdX && pipe2(...) != 0\<close>: the pair as it is left, or the error.\<close>

definition make_pipe :: "os \<Rightarrow> bool \<Rightarrow> fds \<Rightarrow> (string + int \<times> int) \<times> fds" where
  "make_pipe K wanted st =
     (if \<not> wanted then (Inr (-1, -1), st)
      else case os_pipe K (open_fds st) of
        Inl e \<Rightarrow> (Inl e, st)
      | Inr (rd, wr) \<Rightarrow> (Inr (rd, wr), st\<lparr>open_fds := rd # wr # open_fds st\<rparr>))"

definition spawn_actions :: "SpawnOptions \<Rightarrow> int \<times> int \<Rightarrow> int \<times> int \<Rightarrow> file_action list" where
  "spawn_actions opts stdin_pipe stdout_pipe =
     (if pipe_stdin opts then [ActDup2 (fst stdin_pipe) 0] else []) @
     (if pipe_stdout opts then [ActDup2 (snd stdout_pipe) 1] else []) @
     (if discard_stderr opts then [ActOpenNull 2] else [])"

text \<open>From the file actions on: the child's ends are closed in the parent whether or not the spawn worked.\<close>

definition spawn_child :: "os \<Rightarrow> string list \<Rightarrow> SpawnOptions \<Rightarrow> int \<times> int \<Rightarrow> int \<times> int \<Rightarrow> fds \<Rightarrow> (string + Subprocess) \<times> fds" where
  "spawn_child K argv opts stdin_pipe stdout_pipe st =
     (let rc = os_spawn K argv (spawn_actions opts stdin_pipe stdout_pipe);
          st1 = (if pipe_stdin opts then close_fd (fst stdin_pipe) st else st);
          stdin_left = (if pipe_stdin opts then (-1, snd stdin_pipe) else stdin_pipe);
          st2 = (if pipe_stdout opts then close_fd (snd stdout_pipe) st1 else st1);
          stdout_left = (if pipe_stdout opts then (fst stdout_pipe, -1) else stdout_pipe)
      in case rc of
           Inl e \<Rightarrow> (Inl (''posix_spawnp('' @ hd argv @ ''): '' @ e), ClosePipe stdout_left (ClosePipe stdin_left st2))
         | Inr pid \<Rightarrow>
             (Inr \<lparr>sp_pid = pid, sp_stdin_fd = (if pipe_stdin opts then snd stdin_left else -1),
                   sp_stdout_fd = (if pipe_stdout opts then fst stdout_left else -1)\<rparr>, st2))"

definition SpawnProcess :: "os \<Rightarrow> string list \<Rightarrow> SpawnOptions \<Rightarrow> fds \<Rightarrow> (string + Subprocess) \<times> fds" where
  "SpawnProcess K argv opts st =
     (if argv = [] then (Inl ''SpawnProcess: empty argv'', st)
      else case make_pipe K (pipe_stdin opts) st of
        (Inl e, st1) \<Rightarrow> (Inl (''pipe(): '' @ e), ClosePipe (-1, -1) (ClosePipe (-1, -1) st1))
      | (Inr stdin_pipe, st1) \<Rightarrow>
         (case make_pipe K (pipe_stdout opts) st1 of
            (Inl e, st2) \<Rightarrow> (Inl (''pipe(): '' @ e), ClosePipe (-1, -1) (ClosePipe stdin_pipe st2))
          | (Inr stdout_pipe, st2) \<Rightarrow> spawn_child K argv opts stdin_pipe stdout_pipe st2))"

subsection \<open>Waiting and writing\<close>

partial_function (option) wait_loop :: "os \<Rightarrow> int \<Rightarrow> nat \<Rightarrow> int option" where
  "wait_loop K pid n =
     (case os_wait K pid n of
        WaitEINTR \<Rightarrow> wait_loop K pid (Suc n)
      | WaitExited c \<Rightarrow> Some c
      | _ \<Rightarrow> Some (-1))"

declare wait_loop.simps [code]

definition WaitForProcess :: "os \<Rightarrow> int \<Rightarrow> int option" where
  "WaitForProcess K pid = wait_loop K pid 0"

text \<open>The bytes that reached the descriptor, with the error of the write that failed, if one did.\<close>

partial_function (option) write_loop :: "os \<Rightarrow> string \<Rightarrow> nat \<Rightarrow> nat \<Rightarrow> string \<Rightarrow> (string option \<times> string) option" where
  "write_loop K data n off out =
     (if off < length data
      then case os_write K n (drop off data) of
             WriteEINTR \<Rightarrow> write_loop K data (Suc n) off out
           | WriteError e \<Rightarrow> Some (Some (''write: '' @ e), out)
           | Wrote k \<Rightarrow> write_loop K data (Suc n) (off + k) (out @ take k (drop off data))
      else Some (None, out))"

declare write_loop.simps [code]

definition WriteAll :: "os \<Rightarrow> string \<Rightarrow> (string option \<times> string) option" where
  "WriteAll K data = write_loop K data 0 0 []"

subsection \<open>Who owns what\<close>

text \<open>What \<open>pipe2\<close> documents: two different descriptors that were not open.\<close>

definition pipes_fresh :: "os \<Rightarrow> bool" where
  "pipes_fresh K \<longleftrightarrow> (\<forall>used rd wr. os_pipe K used = Inr (rd, wr) \<longrightarrow>
     rd \<ge> 0 \<and> wr \<ge> 0 \<and> rd \<noteq> wr \<and> rd \<notin> set used \<and> wr \<notin> set used)"

definition owned_by :: "(string + Subprocess) \<Rightarrow> int list" where
  "owned_by r = (case r of Inl _ \<Rightarrow> [] | Inr sp \<Rightarrow> filter (\<lambda>fd. fd \<ge> 0) [sp_stdin_fd sp, sp_stdout_fd sp])"

lemma make_pipeE:
  assumes "pipes_fresh K" "make_pipe K wanted st = (Inr p, st')"
  obtains (unwanted) "\<not> wanted" "p = (-1, -1)" "st' = st"
  | (made) rd wr where "wanted" "p = (rd, wr)" "rd \<ge> 0" "wr \<ge> 0" "rd \<noteq> wr" "rd \<notin> set (open_fds st)" "wr \<notin> set (open_fds st)"
      "st' = st\<lparr>open_fds := rd # wr # open_fds st\<rparr>"
  using assms by (fastforce simp: make_pipe_def pipes_fresh_def split: if_splits sum.splits)

lemma make_pipe_Inl: "make_pipe K wanted st = (Inl e, st') \<Longrightarrow> st' = st"
  by (auto simp: make_pipe_def split: if_splits sum.splits)

lemma spawn_child_fds:
  assumes "pipes_fresh K" "make_pipe K (pipe_stdin opts) st = (Inr sin, st1)" "make_pipe K (pipe_stdout opts) st1 = (Inr sout, st2)"
    and "spawn_child K argv opts sin sout st2 = (r, st')"
  shows "mset (open_fds st') = mset (owned_by r) + mset (open_fds st) \<and> bad_close st' = bad_close st"
proof -
  note simps = spawn_child_def ClosePipe_def owned_by_def close_fd_def Let_def
  show ?thesis
    using assms(1,2)
  proof (cases rule: make_pipeE)
    case unwanted
    from assms(1,3) show ?thesis
      by (cases rule: make_pipeE) (use unwanted assms(4) in \<open>auto simp: simps split: sum.splits\<close>)
  next
    case (made rd wr)
    from assms(1,3) show ?thesis
      by (cases rule: make_pipeE) (use made assms(4) in \<open>auto simp: simps split: sum.splits\<close>)
  qed
qed

lemma SpawnProcess_fds:
  assumes "pipes_fresh K" "SpawnProcess K argv opts st = (r, st')"
  shows "mset (open_fds st') = mset (owned_by r) + mset (open_fds st) \<and> bad_close st' = bad_close st"
proof (cases "argv = []")
  case False
  obtain p1 st1 where m1: "make_pipe K (pipe_stdin opts) st = (p1, st1)" by force
  show ?thesis
  proof (cases p1)
    case (Inl e)
    with assms(2) False m1 make_pipe_Inl [OF m1 [unfolded Inl]] show ?thesis
      by (auto simp: SpawnProcess_def ClosePipe_def owned_by_def)
  next
    case (Inr sin)
    obtain p2 st2 where m2: "make_pipe K (pipe_stdout opts) st1 = (p2, st2)" by force
    show ?thesis
    proof (cases p2)
      case (Inl e)
      note st2 = make_pipe_Inl [OF m2 [unfolded Inl]]
      show ?thesis
        using assms(1) m1 [unfolded Inr]
        by (cases rule: make_pipeE)
          (use assms(2) False m1 m2 Inl Inr st2 in \<open>auto simp: SpawnProcess_def ClosePipe_def owned_by_def close_fd_def\<close>)
    next
      case (Inr sout)
      have "spawn_child K argv opts sin sout st2 = (r, st')"
        using assms(2) False m1 m2 \<open>p1 = Inr sin\<close> Inr by (simp add: SpawnProcess_def)
      with spawn_child_fds [OF assms(1) m1 [unfolded \<open>p1 = Inr sin\<close>] m2 [unfolded Inr]] show ?thesis by blast
    qed
  qed
qed (use assms(2) in \<open>auto simp: SpawnProcess_def owned_by_def\<close>)

lemma wait_loop_returns:
  assumes "os_wait K pid n \<noteq> WaitEINTR" "m \<le> n"
  shows "\<exists>c. wait_loop K pid m = Some c"
  using assms(2)
proof (induction rule: inc_induct)
  case base
  with assms(1) show ?case by (subst wait_loop.simps) (auto split: wait_result.split)
next
  case (step m)
  then show ?case by (subst wait_loop.simps) (auto split: wait_result.split)
qed

lemma SpawnProcess_ends:
  assumes "pipes_fresh K" "SpawnProcess K argv opts st = (Inr sp, st')"
  shows "sp_stdin_fd sp \<ge> 0 \<longleftrightarrow> pipe_stdin opts" "sp_stdout_fd sp \<ge> 0 \<longleftrightarrow> pipe_stdout opts"
proof -
  obtain sin st1 sout st2 where m: "make_pipe K (pipe_stdin opts) st = (Inr sin, st1)" "make_pipe K (pipe_stdout opts) st1 = (Inr sout, st2)"
    "spawn_child K argv opts sin sout st2 = (Inr sp, st')"
    using assms(2) by (auto simp: SpawnProcess_def split: if_splits sum.splits prod.splits)
  then have "sp_stdin_fd sp = (if pipe_stdin opts then snd sin else -1)" "sp_stdout_fd sp = (if pipe_stdout opts then fst sout else -1)"
    by (auto simp: spawn_child_def Let_def split: sum.splits)
  with make_pipeE [OF assms(1) m(1)] make_pipeE [OF assms(1) m(2)]
  show "sp_stdin_fd sp \<ge> 0 \<longleftrightarrow> pipe_stdin opts" "sp_stdout_fd sp \<ge> 0 \<longleftrightarrow> pipe_stdout opts"
    by (metis fst_conv snd_conv neg_0_le_iff_le not_one_le_zero)+
qed

text \<open>A caller that closes the one end it got has closed everything.\<close>

lemma close_fd_mset:
  assumes "mset (open_fds st') = {#fd#} + mset (open_fds st)"
  shows "mset (open_fds (close_fd fd st')) = mset (open_fds st) \<and> bad_close (close_fd fd st') = bad_close st'"
proof -
  have "fd \<in> set (open_fds st')" using assms by (metis multi_member_this set_mset_mset)
  with assms show ?thesis by (simp add: close_fd_def)
qed

lemma spawn_close:
  assumes "pipes_fresh K" "SpawnProcess K argv opts st = (Inr sp, st')"
  shows "pipe_stdout opts \<Longrightarrow> \<not> pipe_stdin opts \<Longrightarrow> mset (open_fds (close_fd (sp_stdout_fd sp) st')) = mset (open_fds st) \<and>
      bad_close (close_fd (sp_stdout_fd sp) st') = bad_close st"
    and "pipe_stdin opts \<Longrightarrow> \<not> pipe_stdout opts \<Longrightarrow> mset (open_fds (close_fd (sp_stdin_fd sp) st')) = mset (open_fds st) \<and>
      bad_close (close_fd (sp_stdin_fd sp) st') = bad_close st"
  using SpawnProcess_fds [OF assms] SpawnProcess_ends [OF assms] close_fd_mset [of st' _ st]
  by (auto simp: owned_by_def)

text \<open>\<open>SpawnProcess\<close> leaks no descriptor and closes none twice: on every path, failing or not, what is
  open afterwards is what was open before and the ends of the pipes the returned \<open>Subprocess\<close>
  hands to its caller, and every \<open>close\<close> was of an open descriptor.\<close>

lemma SpawnProcess_no_leak:
  assumes "pipes_fresh K" "SpawnProcess K argv opts st = (r, st')"
  shows "mset (open_fds st') = mset (owned_by r) + mset (open_fds st) \<and> bad_close st' = bad_close st"
  using assms by (rule SpawnProcess_fds)

definition sample_os :: os where
  "sample_os =
     \<lparr>os_pipe = (\<lambda>used. let m = Max (insert 2 (set used)) in Inr (m + 1, m + 2)), os_spawn = (\<lambda>argv acts. Inl ''ENOENT''),
      os_wait = (\<lambda>pid n. WaitExited 0), os_write = (\<lambda>n d. Wrote (length d)), os_output = (\<lambda>argv. [])\<rparr>"

lemma sample_os_fresh: "pipes_fresh sample_os"
  unfolding pipes_fresh_def
proof (intro allI impI)
  fix used rd wr
  assume "os_pipe sample_os used = Inr (rd, wr)"
  then have m: "rd = Max (insert 2 (set used)) + 1" "wr = Max (insert 2 (set used)) + 2"
    by (simp_all add: sample_os_def Let_def)
  have "x \<le> Max (insert 2 (set used))" if "x = 2 \<or> x \<in> set used" for x
    using that by (intro Max_ge) auto
  then obtain M where "rd = M + 1" "wr = M + 2" "2 \<le> M" "\<And>x. x \<in> set used \<Longrightarrow> x \<le> M"
    using m by blast
  then show "rd \<ge> 0 \<and> wr \<ge> 0 \<and> rd \<noteq> wr \<and> rd \<notin> set used \<and> wr \<notin> set used"
    by force
qed

subsection \<open>Everything is written\<close>

definition accepts_writes :: "os \<Rightarrow> bool" where
  "accepts_writes K \<longleftrightarrow>
     (\<forall>n d. d \<noteq> [] \<longrightarrow> os_write K n d = WriteEINTR \<or> (\<exists>k. os_write K n d = Wrote k \<and> 0 < k \<and> k \<le> length d)) \<and>
     (\<forall>n. \<exists>m \<ge> n. \<forall>d. os_write K m d \<noteq> WriteEINTR)"

lemma write_loop_skip:
  assumes "accepts_writes K" "off < length data" "n \<le> m" "\<And>d. os_write K m d \<noteq> WriteEINTR"
  shows "\<exists>n' k. 0 < k \<and> off + k \<le> length data \<and>
    write_loop K data n off out = write_loop K data n' (off + k) (out @ take k (drop off data))"
  using assms(3)
proof (induction rule: inc_induct)
  case base
  have "drop off data \<noteq> []" using assms(2) by simp
  then obtain k where k: "os_write K m (drop off data) = Wrote k" "0 < k" "k \<le> length (drop off data)"
    using assms(1,4) unfolding accepts_writes_def by blast
  then have "write_loop K data m off out = write_loop K data (Suc m) (off + k) (out @ take k (drop off data))"
    using assms(2) by (subst write_loop.simps) simp
  with k assms(2) show ?case by (intro exI [of _ "Suc m"] exI [of _ k]) simp
next
  case (step n)
  have "drop off data \<noteq> []" using assms(2) by simp
  then consider "os_write K n (drop off data) = WriteEINTR"
    | k where "os_write K n (drop off data) = Wrote k" "0 < k" "k \<le> length (drop off data)"
    using assms(1) unfolding accepts_writes_def by blast
  then show ?case
  proof cases
    case 1
    then have "write_loop K data n off out = write_loop K data (Suc n) off out"
      using assms(2) by (subst write_loop.simps) simp
    with step.IH show ?thesis by simp
  next
    case (2 k)
    then have "write_loop K data n off out = write_loop K data (Suc n) (off + k) (out @ take k (drop off data))"
      using assms(2) by (subst write_loop.simps) simp
    with 2 assms(2) show ?thesis by (intro exI [of _ "Suc n"] exI [of _ k]) simp
  qed
qed

lemma write_loop_all:
  assumes "accepts_writes K" "off \<le> length data"
  shows "write_loop K data n off (take off data) = Some (None, data)"
  using assms(2)
proof (induction "length data - off" arbitrary: n off rule: less_induct)
  case less
  show ?case
  proof (cases "off < length data")
    case True
    obtain m where "n \<le> m" "\<And>d. os_write K m d \<noteq> WriteEINTR"
      using assms(1) unfolding accepts_writes_def by blast
    from write_loop_skip [OF assms(1) True this] obtain n' k where k: "0 < k" "off + k \<le> length data"
      "write_loop K data n off (take off data) = write_loop K data n' (off + k) (take off data @ take k (drop off data))"
      by blast
    then show ?thesis
      using less.hyps [of "off + k" n'] True by (simp add: take_add [symmetric])
  next
    case False
    with less.prems show ?thesis by (subst write_loop.simps) simp
  qed
qed

text \<open>C32. \<open>WriteAll\<close> delivers all of its data, in order and nothing else, whenever the descriptor keeps
  accepting: every \<open>write\<close> takes at least one byte or is interrupted, and is not interrupted
  forever. In particular the loop ends.\<close>

theorem WriteAll_delivers:
  assumes "accepts_writes K"
  shows "WriteAll K data = Some (None, data)"
  using write_loop_all [OF assms, of 0 data 0] by (simp add: WriteAll_def)

definition slow_os :: os where
  "slow_os = sample_os\<lparr>os_write := (\<lambda>n d. if even n then WriteEINTR else Wrote (min 2 (length d)))\<rparr>"

theorem WriteAll_delivers_witness: "WriteAll slow_os ''hello'' = Some (None, ''hello'')"
proof (rule WriteAll_delivers)
  have "\<exists>m \<ge> n. odd m" for n :: nat
    by (cases "odd n") (auto intro: exI [of _ "Suc n"])
  then show "accepts_writes slow_os"
    by (auto simp: accepts_writes_def slow_os_def)
qed

end
