(* ===== verification/Diagnostics.thy ===== *)
theory Diagnostics
  imports Fde_Walk Subprocess
begin

text \<open>
  \<^verbatim>\<open>diagnostics.h\<close> and \<^verbatim>\<open>diagnostics.cc\<close>: the linear listing of an FDE, the window of it a report
  shows around a finding, and the annotations \<open>--inspect\<close> feeds to its script. The JSON printer is
  an argument (\<open>dump\<close>), and the script is what the system record of \<^verbatim>\<open>Subprocess\<close> says it is.
\<close>

subsection \<open>The linear listing\<close>

record ListedInsn =
  li_pc :: u64
  li_size :: nat
  li_text :: string
  li_row :: "CFIRow option"
  li_row_starts_here :: bool

definition listed_at :: "zydis \<Rightarrow> CFI \<Rightarrow> u64 \<Rightarrow> Instruction \<Rightarrow> ListedInsn" where
  "listed_at Z c pc i =
     \<lparr>li_pc = pc, li_size = insn_size i,
      li_text = (case Text Z i of Some t \<Rightarrow> t | None \<Rightarrow> ''<cannot format instruction at 0x'' @ fmt_x pc @ ''>''),
      li_row = RowAt c pc,
      li_row_starts_here = (case RowAt c pc of Some row \<Rightarrow> pc_start row = pc | None \<Rightarrow> False)\<rparr>"

partial_function (option) list_loop ::
  "ELFImage \<Rightarrow> zydis \<Rightarrow> CFI \<Rightarrow> u64 \<Rightarrow> ListedInsn list \<Rightarrow> ListedInsn list option" where
  "list_loop img Z c pc out =
     (if pc < pc_end c
      then (let bytes = BytesAt img pc (min 16 (pc_end c - pc)) in
            case Decode Z bytes pc of
              None \<Rightarrow> Some out
            | Some i \<Rightarrow>
                if bytes = [] \<or> pc + of_nat (insn_size i) > pc_end c then Some out
                else list_loop img Z c (pc + of_nat (insn_size i)) (out @ [listed_at Z c pc i]))
      else Some out)"

declare list_loop.simps [code]

definition ListInstructions :: "ELFImage \<Rightarrow> zydis \<Rightarrow> CFI \<Rightarrow> ListedInsn list option" where
  "ListInstructions img Z c = list_loop img Z c (pc_begin c) []"

definition FindListedInsn :: "ListedInsn list \<Rightarrow> u64 \<Rightarrow> int" where
  "FindListedInsn listing pc =
     (let n = length (takeWhile (\<lambda>li. li_pc li < pc) listing) in
      if n = length listing \<or> li_pc (listing ! n) \<noteq> pc then - 1 else int n)"

definition FormatRowCompact :: "CFIRow option \<Rightarrow> string" where
  "FormatRowCompact row = (case row of None \<Rightarrow> ''<no CFI row>'' | Some rw \<Rightarrow> CFIRow_str rw)"

definition state_parts :: "AbsState \<Rightarrow> string list" where
  "state_parts s =
     map (\<lambda>r. DWARFRegName (int r) @ ''='' @ AbsVal_str (reg s (int r)))
         (filter (\<lambda>r. \<not> IsOrigReg (reg s (int r)) r) [0..<kNumGPRs]) @
     map (\<lambda>(off, v). ''[CFA'' @ fmt_plus_d off @ '']='' @ AbsVal_str v) (slots s)"

fun join_with :: "string \<Rightarrow> string list \<Rightarrow> string" where
  "join_with sep [] = []"
| "join_with sep [x] = x"
| "join_with sep (x # y # ys) = x @ sep @ join_with sep (y # ys)"

definition FormatStateCompact :: "AbsState \<Rightarrow> string" where
  "FormatStateCompact s = (if state_parts s = [] then ''(matches entry state)'' else join_with '' '' (state_parts s))"

text \<open>The window of \<open>AppendFindingContext\<close>: the entries shown and whether each is the finding's.\<close>

definition finding_window :: "ListedInsn list \<Rightarrow> Finding \<Rightarrow> int \<Rightarrow> int \<Rightarrow> (bool \<times> ListedInsn) list option" where
  "finding_window listing f context_before context_after =
     (let idx = FindListedInsn listing (f_pc f) in
      if idx < 0 then None
      else let lo = max 0 (idx - context_before); hi = min (int (length listing) - 1) (idx + context_after)
           in Some (map (\<lambda>i. (i = idx, listing ! nat i)) [lo..hi]))"

text \<open>\<open>%-ns\<close>: padded with blanks on the right.\<close>

definition pad_right :: "nat \<Rightarrow> string \<Rightarrow> string" where
  "pad_right n s = s @ replicate (n - length s) CHR '' ''"

definition listing_line :: "bool \<times> ListedInsn \<Rightarrow> string" where
  "listing_line e =
     ''      '' @ (if fst e then ''->'' else ''  '') @ '' 0x'' @ pad_right 10 (fmt_x (li_pc (snd e))) @ ''  '' @
     pad_right 28 (li_text (snd e)) @ ''  '' @ FormatRowCompact (li_row (snd e)) @ [CHR 0x0A]"

definition AppendFindingContext :: "ListedInsn list \<Rightarrow> Finding \<Rightarrow> int \<Rightarrow> int \<Rightarrow> string option" where
  "AppendFindingContext listing f context_before context_after =
     map_option (\<lambda>w. concat (map listing_line w)) (finding_window listing f context_before context_after)"

subsection \<open>The inspect pipeline\<close>

record annotation =
  an_pc :: u64
  an_kind :: string
  an_severity :: "string option"
  an_text :: string
  an_repeats :: "nat option"

definition annotate :: "u64 \<Rightarrow> string \<Rightarrow> string \<Rightarrow> annotation" where
  "annotate pc kind txt = \<lparr>an_pc = pc, an_kind = kind, an_severity = None, an_text = txt, an_repeats = None\<rparr>"

definition finding_note :: "Finding \<Rightarrow> annotation" where
  "finding_note f = (annotate (f_pc f) ''finding'' (f_message f))
     \<lparr>an_severity := Some (if f_severity f = SevMismatch then ''mismatch'' else ''review''),
      an_repeats := (if f_repeats f > 0 then Some (f_repeats f) else None)\<rparr>"

definition guessed_text :: "GuessedJumpTable \<Rightarrow> string" where
  "guessed_text g =
     ''table at 0x'' @ fmt_x (gj_table_addr g) @ '', '' @ show_nat (length (gj_targets g)) @ '' guessed entries:'' @
     concat (map (\<lambda>t. '' 0x'' @ fmt_x t) (gj_targets g))"

definition inspect_annotations :: "CFI \<Rightarrow> InsnTrace list \<Rightarrow> FDEResult \<Rightarrow> annotation list" where
  "inspect_annotations c tr res =
     map (\<lambda>row. annotate (pc_start row) ''cfi_row'' (FormatRowCompact (Some row))) (rows c) @
     map (\<lambda>t. annotate (tr_pc t) ''state'' (FormatStateCompact (tr_state t))) tr @
     map finding_note (filter (\<lambda>f. f_pc f \<noteq> 0) (findings res)) @
     map (\<lambda>g. annotate (gj_pc g) ''guessed'' (guessed_text g)) (guessed_jump_tables res)"

definition inspect_argv :: "string \<Rightarrow> string \<Rightarrow> CFI \<Rightarrow> bool \<Rightarrow> string list" where
  "inspect_argv script path c color =
     [''ruby'', script, path, ''0x'' @ fmt_x (pc_begin c), ''0x'' @ fmt_x (pc_end c), if color then ''1'' else ''0'']"

text \<open>The result or the error, and what the script was fed. \<open>None\<close>: some step does not return.\<close>

definition RunInspectPipeline ::
  "os \<Rightarrow> (annotation list \<Rightarrow> string) \<Rightarrow> FDECheckerOptions \<Rightarrow> CFI \<Rightarrow> bool \<Rightarrow> bool \<Rightarrow> bool \<Rightarrow> string \<Rightarrow> string \<Rightarrow> fds \<Rightarrow>
     ((string + FDEResult) \<times> string \<times> fds) option" where
  "RunInspectPipeline K dump opts c at_entry deep color path script st =
     (case CheckWithGuessing opts c at_entry of
        None \<Rightarrow> None
      | Some (res, tr) \<Rightarrow>
          (let annotations = inspect_annotations c (if deep then tr else []) res in
           case SpawnProcess K (inspect_argv script path c color)
                  \<lparr>pipe_stdin = True, pipe_stdout = False, discard_stderr = False\<rparr> st of
             (Inl e, st1) \<Rightarrow> Some (Inl (''exec-ing ruby failed: '' @ e), [], st1)
           | (Inr proc, st1) \<Rightarrow>
               (case WriteAll K (dump annotations) of
                  None \<Rightarrow> None
                | Some (write_status, fed) \<Rightarrow>
                    (let st2 = close_fd (sp_stdin_fd proc) st1 in
                     case WaitForProcess K (sp_pid proc) of
                       None \<Rightarrow> None
                     | Some ec \<Rightarrow>
                         Some (case write_status of
                                 Some e \<Rightarrow> Inl e
                               | None \<Rightarrow> if ec \<noteq> 0 then Inl (''inspect pipeline exited with status '' @ fmt_d ec) else Inr res,
                               fed, st2)))))"

end
