(* ===== verification/Symbolizer.thy ===== *)
theory Symbolizer
  imports Subprocess Elf_Image
begin

text \<open>
  \<^verbatim>\<open>symbolizer.h\<close> and \<^verbatim>\<open>symbolizer.cc\<close>: the names and source lines of addresses. The demangler is an
  argument, so are the environment (\<open>PATH\<close> and which files are executable) and, through the
  system record of \<^verbatim>\<open>Subprocess\<close>, what addr2line prints. The output is read the way \<open>fgets\<close> reads
  it, in pieces of at most 4095 characters; \<open>fdopen\<close> is taken to succeed.
\<close>

subsection \<open>Finding the tool\<close>

record environment =
  env_PATH :: "string option"
  env_executable :: "string \<Rightarrow> bool"

fun StrSplit :: "char \<Rightarrow> string \<Rightarrow> string list" where
  "StrSplit sep [] = [[]]"
| "StrSplit sep (c # cs) =
     (if c = sep then [] # StrSplit sep cs
      else case StrSplit sep cs of [] \<Rightarrow> [[c]] | w # ws \<Rightarrow> (c # w) # ws)"

definition ToolExists :: "environment \<Rightarrow> string \<Rightarrow> bool" where
  "ToolExists env tool =
     (if CHR ''/'' \<in> set tool then env_executable env tool
      else case env_PATH env of
        None \<Rightarrow> False
      | Some path \<Rightarrow> \<exists>dir \<in> set (StrSplit CHR '':'' path). dir \<noteq> [] \<and> env_executable env (dir @ ''/'' @ tool))"

datatype Addr2LineMode = kAuto | kOff | kExplicit

definition PickToolPath :: "environment \<Rightarrow> Addr2LineMode \<Rightarrow> string \<Rightarrow> string" where
  "PickToolPath env mode tool_path =
     (if tool_path \<noteq> [] then tool_path
      else if mode = kAuto \<and> \<not> ToolExists env ''llvm-addr2line'' \<and> ToolExists env ''addr2line'' then ''addr2line''
      else ''llvm-addr2line'')"

subsection \<open>The symbolizer\<close>

record Symbolizer =
  sym_image :: ELFImage
  sym_path :: string
  sym_tool :: string
  use_addr2line :: bool
  disabled_reason :: string
  source_lines :: "(u64 \<times> string) list"
  debug_names :: "(u64 \<times> string) list"
  queried :: "u64 list"

definition Symbolizer_new :: "environment \<Rightarrow> ELFImage \<Rightarrow> string \<Rightarrow> Addr2LineMode \<Rightarrow> string \<Rightarrow> Symbolizer" where
  "Symbolizer_new env img path mode tool_path =
     (let tool = PickToolPath env mode tool_path;
          S = \<lparr>sym_image = img, sym_path = path, sym_tool = tool, use_addr2line = False, disabled_reason = [],
               source_lines = [], debug_names = [], queried = []\<rparr>
      in case mode of
           kOff \<Rightarrow> S
         | kAuto \<Rightarrow>
             if \<not> has_debug_info img then S
             else if \<not> ToolExists env tool then S\<lparr>disabled_reason := tool @ '' is not on PATH''\<rparr>
             else S\<lparr>use_addr2line := True\<rparr>
         | kExplicit \<Rightarrow>
             if \<not> ToolExists env tool then S\<lparr>disabled_reason := tool @ '' is not executable''\<rparr>
             else S\<lparr>use_addr2line := True\<rparr>)"

definition DebugName :: "(u64 \<times> string) list \<Rightarrow> u64 \<Rightarrow> string" where
  "DebugName names vaddr = (case map_of names vaddr of None \<Rightarrow> [] | Some n \<Rightarrow> n)"

definition Name :: "(string \<Rightarrow> string) \<Rightarrow> (u64 \<times> string) list \<Rightarrow> ELFImage \<Rightarrow> u64 \<Rightarrow> string" where
  "Name demangle names img vaddr =
     (case last_le fs_vaddr vaddr (func_symbols img) of
        None \<Rightarrow> DebugName names vaddr
      | Some fsym \<Rightarrow>
          if (if fs_size fsym = 0 then fs_vaddr fsym \<noteq> vaddr else vaddr - fs_vaddr fsym \<ge> fs_size fsym)
            then DebugName names vaddr
          else if vaddr = fs_vaddr fsym then demangle (fs_name fsym)
          else demangle (fs_name fsym) @ ''+0x'' @ show_hex (unat (vaddr - fs_vaddr fsym) mod 2 ^ 32))"

definition SourceLine :: "Symbolizer \<Rightarrow> u64 \<Rightarrow> string" where
  "SourceLine S vaddr = (case map_of (source_lines S) vaddr of None \<Rightarrow> [] | Some l \<Rightarrow> l)"

subsection \<open>Asking addr2line\<close>

definition kBatchSize :: nat where "kBatchSize = 4096"

text \<open>\<open>fgets(line, n, pipe)\<close>: at most \<open>n - 1\<close> characters, up to and with the first newline.\<close>

definition fgets :: "nat \<Rightarrow> string \<Rightarrow> (string \<times> string) option" where
  "fgets n s =
     (if s = [] then None
      else let k = min (n - 1) (Suc (length (takeWhile (\<lambda>c. c \<noteq> CHR 0x0A) s)))
           in Some (take k s, drop k s))"

definition is_space :: "char \<Rightarrow> bool" where
  "is_space c \<longleftrightarrow> c \<in> set [CHR '' '', CHR 0x09, CHR 0x0A, CHR 0x0B, CHR 0x0C, CHR 0x0D]"

definition StripAsciiWhitespace :: "string \<Rightarrow> string" where
  "StripAsciiWhitespace s = rev (dropWhile is_space (rev (dropWhile is_space s)))"

text \<open>What one line gives: nothing when it is blank or says \<open>??\<close>. A string view of a character
  array ends at the first zero.\<close>

definition field_of :: "string \<Rightarrow> string" where
  "field_of line =
     (let text = StripAsciiWhitespace (takeWhile (\<lambda>c. c \<noteq> CHR 0x00) line)
      in if text \<noteq> [] \<and> take 2 text \<noteq> ''??'' then text else [])"

definition emplace :: "'k \<Rightarrow> 'v \<Rightarrow> ('k \<times> 'v) list \<Rightarrow> ('k \<times> 'v) list" where
  "emplace k v m = (case map_of m k of None \<Rightarrow> (k, v) # m | Some _ \<Rightarrow> m)"

definition record_answer :: "u64 \<Rightarrow> string \<Rightarrow> string \<Rightarrow> Symbolizer \<Rightarrow> Symbolizer" where
  "record_answer a name line S =
     (if line = [] then S
      else let S1 = S\<lparr>source_lines := emplace a line (source_lines S)\<rparr>
           in if name = [] then S1 else S1\<lparr>debug_names := emplace a name (debug_names S1)\<rparr>)"

fun read_answers :: "u64 list \<Rightarrow> string \<Rightarrow> Symbolizer \<Rightarrow> Symbolizer" where
  "read_answers [] out S = S"
| "read_answers (a # as) out S =
     (case fgets 4096 out of
        None \<Rightarrow> S
      | Some (l0, out1) \<Rightarrow>
          (case fgets 4096 out1 of
             None \<Rightarrow> S
           | Some (l1, out2) \<Rightarrow> read_answers as out2 (record_answer a (field_of l0) (field_of l1) S)))"

definition addr2line_argv :: "Symbolizer \<Rightarrow> u64 list \<Rightarrow> string list" where
  "addr2line_argv S batch = [sym_tool S, ''-f'', ''-C'', ''-e'', sym_path S] @ map (\<lambda>a. ''0x'' @ fmt_x a) batch"

function prepare_loop :: "os \<Rightarrow> u64 list \<Rightarrow> Symbolizer \<Rightarrow> fds \<Rightarrow> (Symbolizer \<times> fds) option" where
  "prepare_loop K pending S st =
     (if pending = [] then Some (S, st)
      else let batch = take kBatchSize pending; argv = addr2line_argv S batch in
        case SpawnProcess K argv \<lparr>pipe_stdin = False, pipe_stdout = True, discard_stderr = True\<rparr> st of
          (Inl _, st1) \<Rightarrow> Some (S\<lparr>disabled_reason := ''could not run addr2line'', use_addr2line := False\<rparr>, st1)
        | (Inr proc, st1) \<Rightarrow>
            (let S1 = read_answers batch (os_output K argv) S; st2 = close_fd (sp_stdout_fd proc) st1 in
             case WaitForProcess K (sp_pid proc) of
               None \<Rightarrow> None
             | Some _ \<Rightarrow> prepare_loop K (drop kBatchSize pending) S1 st2))"
  by pat_completeness auto
termination
  by (relation "measure (\<lambda>(K, pending, S, st). length pending)") (auto simp: kBatchSize_def)

declare prepare_loop.simps [simp del]

lemma prepare_loop_Nil [simp]: "prepare_loop K [] S st = Some (S, st)"
  by (simp add: prepare_loop.simps)

text \<open>The addresses not asked for before, each once.\<close>

fun note_queried :: "u64 list \<Rightarrow> u64 list \<Rightarrow> u64 list \<times> u64 list" where
  "note_queried [] q = ([], q)"
| "note_queried (a # as) q =
     (if a \<in> set q then note_queried as q
      else case note_queried as (a # q) of (pending, q') \<Rightarrow> (a # pending, q'))"

definition Prepare :: "os \<Rightarrow> u64 list \<Rightarrow> Symbolizer \<Rightarrow> fds \<Rightarrow> (Symbolizer \<times> fds) option" where
  "Prepare K addresses S st =
     (if \<not> use_addr2line S \<or> addresses = [] then Some (S, st)
      else case note_queried addresses (queried S) of (pending, q) \<Rightarrow>
        prepare_loop K (remdups_adj (sort pending)) (S\<lparr>queried := q\<rparr>) st)"

end
