(* ===== verification/Report.thy ===== *)
theory Report
  imports Diagnostics Symbolizer
begin

text \<open>
  \<^verbatim>\<open>report.h\<close> and \<^verbatim>\<open>report.cc\<close>: which results are listed and in which order, the text printed for
  each, and the summary. What goes to standard output is the string returned; \<open>None\<close> is a listing
  that does not end.
\<close>

subsection \<open>Report\<close>

record ReportOptions =
  show_blessed :: bool
  summary_only :: bool
  only_mismatch :: bool
  only_review :: bool

definition ShouldList :: "Verdict \<Rightarrow> ReportOptions \<Rightarrow> bool" where
  "ShouldList v opts =
     (if v = kBlessed then show_blessed opts
      else if \<not> only_mismatch opts \<and> \<not> only_review opts then True
      else only_mismatch opts \<and> v = kMismatch \<or> only_review opts \<and> (v = kReview \<or> v = kReviewLight))"

definition verdict_rank :: "Verdict \<Rightarrow> nat" where
  "verdict_rank v = (case v of kBlessed \<Rightarrow> 0 | kReviewLight \<Rightarrow> 1 | kReview \<Rightarrow> 2 | kMismatch \<Rightarrow> 3)"

text \<open>The results \<open>PrintReport\<close> prints, in its order: mismatches first, stable otherwise.\<close>

definition listed_results :: "FDEResult list \<Rightarrow> ReportOptions \<Rightarrow> FDEResult list" where
  "listed_results results opts =
     (if summary_only opts then []
      else sort_key (\<lambda>r. 3 - verdict_rank (verdict r)) (filter (\<lambda>r. ShouldList (verdict r) opts) results))"

record Summary =
  n_blessed :: nat
  n_review_light :: nat
  n_review :: nat
  n_mismatch :: nat

definition total :: "Summary \<Rightarrow> nat" where
  "total s = n_blessed s + n_review_light s + n_review s + n_mismatch s"

definition count_verdict :: "FDEResult \<Rightarrow> Summary \<Rightarrow> Summary" where
  "count_verdict r s = (case verdict r of
       kBlessed \<Rightarrow> s\<lparr>n_blessed := n_blessed s + 1\<rparr>
     | kReviewLight \<Rightarrow> s\<lparr>n_review_light := n_review_light s + 1\<rparr>
     | kReview \<Rightarrow> s\<lparr>n_review := n_review s + 1\<rparr>
     | kMismatch \<Rightarrow> s\<lparr>n_mismatch := n_mismatch s + 1\<rparr>)"

definition Summarize :: "FDEResult list \<Rightarrow> Summary" where
  "Summarize results =
     fold count_verdict results \<lparr>n_blessed = 0, n_review_light = 0, n_review = 0, n_mismatch = 0\<rparr>"

subsection \<open>The text\<close>

definition Verdict_str :: "Verdict \<Rightarrow> string" where
  "Verdict_str v = (case v of
       kBlessed \<Rightarrow> ''BLESSED'' | kReviewLight \<Rightarrow> ''REVIEW-LIGHT'' | kReview \<Rightarrow> ''REVIEW'' | kMismatch \<Rightarrow> ''MISMATCH'')"

definition Location :: "Symbolizer \<Rightarrow> u64 \<Rightarrow> string" where
  "Location S pc =
     (let src = SourceLine S pc in
      if src = [] then ''0x'' @ fmt_x pc else ''0x'' @ fmt_x pc @ '' ('' @ src @ '')'')"

definition sym_name :: "(string \<Rightarrow> string) \<Rightarrow> Symbolizer \<Rightarrow> u64 \<Rightarrow> string" where
  "sym_name demangle S = Name demangle (debug_names S) (sym_image S)"

record ReportContext =
  ctx_image :: ELFImage
  ctx_disasm :: zydis
  ctx_cfi_by_pc_begin :: "(u64 \<times> CFI) list"

definition header_line :: "(string \<Rightarrow> string) \<Rightarrow> Symbolizer \<Rightarrow> FDEResult \<Rightarrow> string" where
  "header_line demangle S r =
     (let nm = sym_name demangle S (res_pc_begin r) in
      pad_right 8 (Verdict_str (verdict r)) @ '' '' @ (if nm = [] then ''<no symbol>'' else nm) @
      ''  [0x'' @ fmt_x (res_pc_begin r) @ '' - 0x'' @ fmt_x (res_pc_end r) @ '')'' @
      (if res_signal_frame r then ''  (signal frame)'' else []) @ [CHR 0x0A])"

definition result_listing :: "ReportContext option \<Rightarrow> FDEResult \<Rightarrow> ListedInsn list option" where
  "result_listing ctx r =
     (case ctx of
        None \<Rightarrow> Some []
      | Some cx \<Rightarrow>
          if res_pc_begin r = res_pc_end r then Some []
          else (case map_of (ctx_cfi_by_pc_begin cx) (res_pc_begin r) of
                  None \<Rightarrow> Some []
                | Some c \<Rightarrow> ListInstructions (ctx_image cx) (ctx_disasm cx) c))"

definition finding_text :: "Symbolizer \<Rightarrow> ListedInsn list \<Rightarrow> Finding \<Rightarrow> string" where
  "finding_text S listing f =
     (if f_pc f = 0 then ''  '' @ f_message f @ [CHR 0x0A]
      else ''  '' @ Location S (f_pc f) @ '': '' @ f_message f @
           (if f_repeats f > 0 then '' [and at '' @ show_nat (f_repeats f) @ '' more addresses]'' else []) @ [CHR 0x0A] @
           (if listing \<noteq> [] then (case AppendFindingContext listing f 6 4 of Some w \<Rightarrow> w | None \<Rightarrow> []) else []))"

definition guessed_table_text :: "Symbolizer \<Rightarrow> GuessedJumpTable \<Rightarrow> string" where
  "guessed_table_text S g =
     ''  '' @ Location S (gj_pc g) @ '': guessed '' @ show_nat (length (gj_targets g)) @
     '' switch-table entries (table at 0x'' @ fmt_x (gj_table_addr g) @ ''), targets:'' @ [CHR 0x0A] @
     concat (map (\<lambda>t. ''      -> '' @ Location S t @ [CHR 0x0A]) (gj_targets g))"

definition PrintOne :: "(string \<Rightarrow> string) \<Rightarrow> Symbolizer \<Rightarrow> ReportContext option \<Rightarrow> FDEResult \<Rightarrow> string option" where
  "PrintOne demangle S ctx r =
     map_option (\<lambda>listing. header_line demangle S r @ concat (map (finding_text S listing) (findings r)) @
                           concat (map (guessed_table_text S) (guessed_jump_tables r)))
       (result_listing ctx r)"

fun print_all :: "(string \<Rightarrow> string) \<Rightarrow> Symbolizer \<Rightarrow> ReportContext option \<Rightarrow> FDEResult list \<Rightarrow> string option" where
  "print_all demangle S ctx [] = Some []"
| "print_all demangle S ctx (r # rs) =
     (case PrintOne demangle S ctx r of
        None \<Rightarrow> None
      | Some t \<Rightarrow> map_option ((@) t) (print_all demangle S ctx rs))"

text \<open>Every address the report will mention.\<close>

definition interesting :: "FDEResult list \<Rightarrow> ReportOptions \<Rightarrow> u64 list" where
  "interesting results opts =
     concat (map (\<lambda>r. res_pc_begin r # map f_pc (findings r) @
                      concat (map (\<lambda>g. gj_pc g # gj_targets g) (guessed_jump_tables r)))
       (filter (\<lambda>r. ShouldList (verdict r) opts) results))"

definition summary_line :: "Summary \<Rightarrow> string" where
  "summary_line s =
     show_nat (total s) @ '' FDEs: '' @ show_nat (n_blessed s) @ '' blessed, '' @ show_nat (n_review_light s) @ '' review-light, '' @
     show_nat (n_review s) @ '' review, '' @ show_nat (n_mismatch s) @ '' mismatch'' @ [CHR 0x0A]"

definition report_tail :: "FDEResult list \<Rightarrow> Symbolizer \<Rightarrow> string" where
  "report_tail results S =
     summary_line (Summarize results) @
     (if disabled_reason S \<noteq> [] then ''(source lines unavailable: '' @ disabled_reason S @ '')'' @ [CHR 0x0A] else [])"

definition PrintReport ::
  "os \<Rightarrow> (string \<Rightarrow> string) \<Rightarrow> FDEResult list \<Rightarrow> Symbolizer \<Rightarrow> ReportOptions \<Rightarrow> ReportContext option \<Rightarrow> fds \<Rightarrow> (string \<times> fds) option" where
  "PrintReport K demangle results S opts ctx st =
     (if summary_only opts then Some (report_tail results S, st)
      else case Prepare K (interesting results opts) S st of
        None \<Rightarrow> None
      | Some (S1, st1) \<Rightarrow>
          (let ordered = listed_results results opts in
           map_option (\<lambda>body. (body @ (if ordered \<noteq> [] then [CHR 0x0A] else []) @ report_tail results S1, st1))
             (print_all demangle S1 ctx ordered)))"

end
