(* ===== verification/Driver.thy ===== *)
theory Driver
  imports Light_Checker Coverage_Check Report
begin

text \<open>
  \<^verbatim>\<open>unwind-check.cc\<close>: reading the FDEs, the structural checks, the run over all FDEs (\<open>DriverRun\<close>: the
  results and the exit code), and the program around it (\<open>RunProgram\<close>, the function \<open>Run\<close> of the source, and \<open>main\<close>): the flags, \<open>--dump_cfi\<close>,
  \<open>--inspect\<close>, the report on standard output and the complaints on standard error. What the program
  asks of its surroundings is the record \<open>host\<close>: the system, the environment, the demangler, the
  JSON printer, the regex engine, the hex parser, whether the output is a terminal, and the
  disassembler it gets.
\<close>

subsection \<open>Names\<close>

definition IsEntryPointName :: "string \<Rightarrow> bool" where
  "IsEntryPointName name \<longleftrightarrow>
     \<not> (length name \<ge> 5 \<and> drop (length name - 5) name = ''.cold'') \<and>
     \<not> (\<exists>i \<in> set [0..<length name]. take 6 (drop i name) = ''.cold.'')"

subsection \<open>Reading and screening the FDEs\<close>

record RawFDE =
  raw_vaddr :: u64
  raw_cfi :: "EHFrameError + CFI"

definition ReadAllFDEs :: "ELFImage \<Rightarrow> RawFDE list \<times> EHFrameError option" where
  "ReadAllFDEs img =
     (case EnumerateFDEs (img_mem img) (img_eh_frame_start img + img_bias img) (img_eh_frame_end img + img_bias img) of
        (addrs, fatal_error) \<Rightarrow>
          (map (\<lambda>a. let v = ToVaddr img a in
                  \<lparr>raw_vaddr = v,
                   raw_cfi = ReadFDE (img_mem img) v (img_eh_frame_start img) (img_eh_frame_end img) (img_bias img)\<rparr>) addrs,
           fatal_error))"

definition MakeStructuralResult :: "u64 \<Rightarrow> u64 \<Rightarrow> u64 \<Rightarrow> Severity \<Rightarrow> string \<Rightarrow> FDEResult" where
  "MakeStructuralResult fde_vaddr b e sev msg =
     \<lparr>res_fde_addr = fde_vaddr, res_pc_begin = b, res_pc_end = e, res_signal_frame = False,
      verdict = (if sev = SevMismatch then kMismatch else kReview),
      findings = [\<lparr>f_severity = sev, f_pc = b, f_message = msg, f_repeats = 0\<rparr>],
      instructions_checked = 0, guessable_jump_pc = None, guessed_jump_tables = []\<rparr>"

definition plt_result :: "u64 \<Rightarrow> CFI \<Rightarrow> FDEResult" where
  "plt_result v c =
     \<lparr>res_fde_addr = v, res_pc_begin = pc_begin c, res_pc_end = pc_end c, res_signal_frame = False, verdict = kBlessed,
      findings = [], instructions_checked = 0, guessable_jump_pc = None, guessed_jump_tables = []\<rparr>"

definition bad_range_msg :: "CFI \<Rightarrow> string" where
  "bad_range_msg c =
     ''FDE covers [0x'' @ fmt_x (pc_begin c) @ '', 0x'' @ fmt_x (pc_end c) @ ''), which is not inside one executable PT_LOAD''"

definition overlap_msg :: "CFI \<Rightarrow> CFI \<Rightarrow> string" where
  "overlap_msg prev cur =
     ''FDE range [0x'' @ fmt_x (pc_begin cur) @ '', 0x'' @ fmt_x (pc_end cur) @ '') overlaps the preceding FDE's [0x'' @
     fmt_x (pc_begin prev) @ '', 0x'' @ fmt_x (pc_end prev) @ '')''"

text \<open>The screening of one record: its result, or the FDE to be checked.\<close>

definition screen_fde :: "ELFImage \<Rightarrow> RawFDE \<Rightarrow> FDEResult + CFI" where
  "screen_fde img raw =
     (case raw_cfi raw of
        Inl e \<Rightarrow> Inl (MakeStructuralResult (raw_vaddr raw) 0 0 SevReview (''cannot decode this FDE: '' @ what e))
      | Inr c \<Rightarrow>
          if pc_end c = pc_begin c
            then Inl (MakeStructuralResult (raw_vaddr raw) (pc_begin c) (pc_end c) SevMismatch
                        ''FDE covers an empty PC range (pc_begin == pc_end); noted and skipped'')
          else if pc_end c < pc_begin c
            then Inl (MakeStructuralResult (raw_vaddr raw) (pc_begin c) (pc_end c) SevMismatch
                        ''FDE covers a backwards PC range'')
          else if \<not> IsExecutable img (pc_begin c) (pc_end c - pc_begin c)
            then Inl (MakeStructuralResult (raw_vaddr raw) (pc_begin c) (pc_end c) SevMismatch (bad_range_msg c))
          else if InPLT img (pc_begin c) (pc_end c - pc_begin c) then Inl (plt_result (raw_vaddr raw) c)
          else Inr c)"

fun overlaps :: "(u64 \<times> CFI) list \<Rightarrow> FDEResult list" where
  "overlaps (prev # cur # rest) =
     (if pc_begin (snd cur) < pc_end (snd prev)
      then [MakeStructuralResult (fst cur) (pc_begin (snd cur)) (pc_end (snd cur)) SevMismatch (overlap_msg (snd prev) (snd cur))]
      else []) @ overlaps (cur # rest)"
| "overlaps _ = []"

definition RunStructuralChecks :: "ELFImage \<Rightarrow> RawFDE list \<Rightarrow> FDEResult list \<times> CFI list" where
  "RunStructuralChecks img fdes =
     (let screened = map (\<lambda>raw. (raw_vaddr raw, screen_fde img raw)) fdes;
          ok = concat (map (\<lambda>(v, r). case r of Inr c \<Rightarrow> [(v, c)] | Inl _ \<Rightarrow> []) screened);
          bad = concat (map (\<lambda>(v, r). case r of Inl res \<Rightarrow> [res] | Inr _ \<Rightarrow> []) screened)
      in (bad @ overlaps (sort_key (\<lambda>p. pc_begin (snd p)) ok), map snd ok))"

subsection \<open>The run\<close>

record DriverFlags =
  flag_full :: bool
  flag_check_unmentioned :: bool
  flag_report_coverage_gaps :: bool
  flag_report_uncovered_symbols :: bool
  flag_max_findings :: int
  flag_pc :: "u64 option"
  flag_function :: "(string \<Rightarrow> bool) option"

definition kExitBlessed :: int where "kExitBlessed = 0"
definition kExitMismatch :: int where "kExitMismatch = 1"
definition kExitReview :: int where "kExitReview = 2"
definition kExitFailure :: int where "kExitFailure = 3"

definition exit_code :: "Summary \<Rightarrow> int" where
  "exit_code s =
     (if n_mismatch s > 0 then kExitMismatch
      else if n_review s > 0 \<or> n_review_light s > 0 then kExitReview else kExitBlessed)"

definition fde_ranges_of :: "RawFDE list \<Rightarrow> ranges" where
  "fde_ranges_of fdes =
     concat (map (\<lambda>raw. case raw_cfi raw of
                          Inr c \<Rightarrow> if pc_end c > pc_begin c then [(pc_begin c, pc_end c)] else []
                        | Inl _ \<Rightarrow> []) fdes)"

text \<open>\<open>cfi_index\<close>: every checkable FDE, sorted by its range.\<close>

definition make_cfi_index :: "CFI list \<Rightarrow> ((u64 \<times> u64) \<times> CFI) list" where
  "make_cfi_index checkable = sort_key fst (map (\<lambda>c. ((pc_begin c, pc_end c), c)) checkable)"

definition make_options :: "DriverFlags \<Rightarrow> ELFImage \<Rightarrow> zydis \<Rightarrow> CFI list \<Rightarrow> FDECheckerOptions" where
  "make_options flags img Z checkable =
     \<lparr>opt_image = img, opt_disasm = Z, check_unmentioned_callee_saved = flag_check_unmentioned flags,
      report_coverage_gaps = flag_report_coverage_gaps flags, max_findings_per_fde = nat (max 1 (flag_max_findings flags)),
      max_iterations = 200000, all_cfis = make_cfi_index checkable\<rparr>"

definition function_starts :: "ELFImage \<Rightarrow> u64 list" where
  "function_starts img = map fs_vaddr (filter (\<lambda>fsym. IsEntryPointName (fs_name fsym)) (func_symbols img))"

definition selected :: "DriverFlags \<Rightarrow> (string \<Rightarrow> string) \<Rightarrow> ELFImage \<Rightarrow> CFI \<Rightarrow> bool" where
  "selected flags demangle img c \<longleftrightarrow>
     (case flag_pc flags of None \<Rightarrow> True | Some pc \<Rightarrow> pc_begin c \<le> pc \<and> pc < pc_end c) \<and>
     (case flag_function flags of None \<Rightarrow> True | Some matches \<Rightarrow> matches (Name demangle [] img (pc_begin c)))"

definition check_one :: "DriverFlags \<Rightarrow> FDECheckerOptions \<Rightarrow> ELFImage \<Rightarrow> CFI \<Rightarrow> FDEResult option" where
  "check_one flags opts img c =
     (let at_entry = pc_begin c \<in> set (function_starts img) in
      if flag_full flags then map_option fst (CheckWithGuessing opts c at_entry) else LightCheck opts c at_entry)"

fun check_all :: "DriverFlags \<Rightarrow> FDECheckerOptions \<Rightarrow> ELFImage \<Rightarrow> CFI list \<Rightarrow> FDEResult list option" where
  "check_all flags opts img [] = Some []"
| "check_all flags opts img (c # cs) =
     (case check_one flags opts img c of
        None \<Rightarrow> None
      | Some r \<Rightarrow> map_option ((#) r) (check_all flags opts img cs))"

text \<open>The results of a run over the image, in order, and the exit code; \<open>Inl\<close> is the failure
  exit before any FDE is looked at. The outer \<open>None\<close> is a check that does not return.\<close>

definition DriverRun ::
  "DriverFlags \<Rightarrow> (string \<Rightarrow> string) \<Rightarrow> zydis \<Rightarrow> ELFImage \<Rightarrow> (int + FDEResult list \<times> int) option" where
  "DriverRun flags demangle Z img =
     (if \<not> has_eh_frame img then Some (Inl kExitFailure)
      else case ReadAllFDEs img of (fdes, enumerate_error) \<Rightarrow>
        if fdes = [] \<and> enumerate_error \<noteq> None then Some (Inl kExitFailure)
        else case RunStructuralChecks img fdes of (structural, checkable) \<Rightarrow>
          (let uncovered = (if flag_report_uncovered_symbols flags
                            then CheckUncoveredSymbols img (fde_ranges_of fdes) else []);
               opts = make_options flags img Z checkable
           in map_option (\<lambda>checked. let results = structural @ uncovered @ checked
                                    in Inr (results, exit_code (Summarize results)))
                (check_all flags opts img (filter (selected flags demangle img) checkable))))"

subsection \<open>The program\<close>

record RunFlags =
  rf_show_blessed :: bool
  rf_summary_only :: bool
  rf_function :: string
  rf_pc :: string
  rf_max_findings :: int
  rf_check_unmentioned_callee_saved :: bool
  rf_full :: bool
  rf_report_coverage_gaps :: bool
  rf_report_uncovered_symbols :: bool
  rf_dump_cfi :: bool
  rf_inspect :: bool
  rf_inspect_deep :: bool
  rf_color :: bool
  rf_only_mismatch :: bool
  rf_only_review :: bool
  rf_addr2line :: string

record host =
  h_os :: os
  h_env :: environment
  h_demangle :: "string \<Rightarrow> string"
  h_dump :: "annotation list \<Rightarrow> string"
  h_regex :: "string \<Rightarrow> string + (string \<Rightarrow> bool)"
  h_hex_atoi :: "string \<Rightarrow> u64 option"
  h_isatty :: bool
  h_disasm :: "string + zydis"

datatype complaint =
    CannotOpen ELFError | NoEhFrame | NoDisassembler string | CannotReadEhFrame EHFrameError | BadRegex string | BadPc string
  | InspectNeedsPc | NoFDECovers u64 | InspectUsesFull | InspectFailed string | WalkStoppedEarly EHFrameError

record outcome =
  out_code :: int
  out_stdout :: string
  out_stderr :: "complaint list"
  out_fds :: fds

definition failed :: "complaint \<Rightarrow> fds \<Rightarrow> outcome option" where
  "failed c st = Some \<lparr>out_code = kExitFailure, out_stdout = [], out_stderr = [c], out_fds = st\<rparr>"

definition ParseAddr2LineMode :: "string \<Rightarrow> Addr2LineMode \<times> string" where
  "ParseAddr2LineMode value =
     (if value = ''off'' then (kOff, []) else if value = ''auto'' \<or> value = [] then (kAuto, []) else (kExplicit, value))"

definition dump_row :: "CFIRow \<Rightarrow> string" where
  "dump_row row =
     ''  0x'' @ pad_right 14 (fmt_x (pc_start row)) @ '' cfa='' @ CFARule_str (row_cfa row) @
     concat (map (\<lambda>r. if rule_kind (row_regs row ! r) = RUnset then []
                      else ''  '' @ DWARFRegName (int r) @ ''='' @ RegRule_str (row_regs row ! r)) [0..<kNumDWARFRegs]) @ [CHR 0x0A]"

definition DumpCFI :: "(string \<Rightarrow> string) \<Rightarrow> Symbolizer \<Rightarrow> CFI \<Rightarrow> string" where
  "DumpCFI demangle S c =
     (let nm = sym_name demangle S (pc_begin c) in
      ''FDE 0x'' @ fmt_x (fde_addr c) @ '' pc=0x'' @ fmt_x (pc_begin c) @ ''..0x'' @ fmt_x (pc_end c) @
      (if nm = [] then [] else ''  '') @ nm @ [CHR 0x0A] @ concat (map dump_row (rows c)))"

definition name_filter :: "host \<Rightarrow> string \<Rightarrow> string + (string \<Rightarrow> bool) option" where
  "name_filter H flag = (if flag = [] then Inr None else map_sum id Some (h_regex H flag))"

definition pc_filter :: "host \<Rightarrow> string \<Rightarrow> u64 option option" where
  "pc_filter H flag = (if flag = [] then Some None else map_option Some (h_hex_atoi H flag))"

definition driver_flags :: "RunFlags \<Rightarrow> u64 option \<Rightarrow> (string \<Rightarrow> bool) option \<Rightarrow> DriverFlags" where
  "driver_flags rf pc fn =
     \<lparr>flag_full = rf_full rf, flag_check_unmentioned = rf_check_unmentioned_callee_saved rf,
      flag_report_coverage_gaps = rf_report_coverage_gaps rf, flag_report_uncovered_symbols = rf_report_uncovered_symbols rf,
      flag_max_findings = rf_max_findings rf, flag_pc = pc, flag_function = fn\<rparr>"

definition inspect_header :: "(string \<Rightarrow> string) \<Rightarrow> Symbolizer \<Rightarrow> CFI \<Rightarrow> string" where
  "inspect_header demangle S c =
     (let nm = sym_name demangle S (pc_begin c) in
      ''FDE 0x'' @ fmt_x (fde_addr c) @ ''  [0x'' @ fmt_x (pc_begin c) @ '', 0x'' @ fmt_x (pc_end c) @ '')'' @
      (if nm = [] then [] else ''  '') @ nm @ (if signal_frame c then ''  (signal frame)'' else []) @ [CHR 0x0A])"

definition run_inspect ::
  "host \<Rightarrow> RunFlags \<Rightarrow> string \<Rightarrow> string \<Rightarrow> ELFImage \<Rightarrow> FDECheckerOptions \<Rightarrow> Symbolizer \<Rightarrow> u64 option \<Rightarrow> CFI list \<Rightarrow> fds \<Rightarrow> outcome option" where
  "run_inspect H rf path script img opts S pc checkable st =
     (case pc of
        None \<Rightarrow> failed InspectNeedsPc st
      | Some p \<Rightarrow>
          (case find (\<lambda>c. pc_begin c \<le> p \<and> p < pc_end c) checkable of
             None \<Rightarrow> failed (NoFDECovers p) st
           | Some c \<Rightarrow>
               (let said = (if \<not> rf_full rf then [InspectUsesFull] else []);
                    head = inspect_header (h_demangle H) S c
                in case RunInspectPipeline (h_os H) (h_dump H) opts c (pc_begin c \<in> set (function_starts img))
                          (rf_inspect_deep rf) (rf_color rf \<or> h_isatty H) path script st of
                     None \<Rightarrow> None
                   | Some (Inl e, _, st1) \<Rightarrow>
                       Some \<lparr>out_code = kExitFailure, out_stdout = head, out_stderr = said @ [InspectFailed e], out_fds = st1\<rparr>
                   | Some (Inr res, _, st1) \<Rightarrow>
                       Some \<lparr>out_code = exit_code (Summarize [res]),
                             out_stdout = head @ concat (map (\<lambda>f. ''  '' @ f_message f @ [CHR 0x0A]) (filter (\<lambda>f. f_pc f = 0) (findings res))),
                             out_stderr = said, out_fds = st1\<rparr>)))"

definition report_options :: "RunFlags \<Rightarrow> ReportOptions" where
  "report_options rf = \<lparr>show_blessed = rf_show_blessed rf, summary_only = rf_summary_only rf,
     only_mismatch = rf_only_mismatch rf, only_review = rf_only_review rf\<rparr>"

text \<open>\<open>cfi_by_pc_begin\<close>: the first FDE that starts at an address.\<close>

definition cfi_by_pc_begin :: "CFI list \<Rightarrow> (u64 \<times> CFI) list" where
  "cfi_by_pc_begin checkable = fold (\<lambda>c. emplace (pc_begin c) c) checkable []"

definition run_report ::
  "host \<Rightarrow> RunFlags \<Rightarrow> ELFImage \<Rightarrow> zydis \<Rightarrow> Symbolizer \<Rightarrow> CFI list \<Rightarrow> EHFrameError option \<Rightarrow> FDEResult list \<Rightarrow> fds \<Rightarrow> outcome option" where
  "run_report H rf img Z S checkable enumerate_error results st =
     map_option (\<lambda>(text_out, st1).
         \<lparr>out_code = exit_code (Summarize results), out_stdout = text_out,
          out_stderr = (case enumerate_error of None \<Rightarrow> [] | Some e \<Rightarrow> [WalkStoppedEarly e]), out_fds = st1\<rparr>)
       (PrintReport (h_os H) (h_demangle H) results S (report_options rf)
          (Some \<lparr>ctx_image = img, ctx_disasm = Z, ctx_cfi_by_pc_begin = cfi_by_pc_begin checkable\<rparr>) st)"

definition RunProgram :: "host \<Rightarrow> RunFlags \<Rightarrow> string \<Rightarrow> string \<Rightarrow> ELFError + ELFImage \<Rightarrow> fds \<Rightarrow> outcome option" where
  "RunProgram H rf path script opened_image st =
     (case opened_image of
        Inl e \<Rightarrow> failed (CannotOpen e) st
      | Inr img \<Rightarrow>
          if \<not> has_eh_frame img then failed NoEhFrame st
          else (case h_disasm H of
            Inl e \<Rightarrow> failed (NoDisassembler e) st
          | Inr Z \<Rightarrow>
             (case ReadAllFDEs img of (fdes, enumerate_error) \<Rightarrow>
                if fdes = [] \<and> enumerate_error \<noteq> None then failed (CannotReadEhFrame (the enumerate_error)) st
                else case RunStructuralChecks img fdes of (structural, checkable) \<Rightarrow>
                  (let results = structural @ (if rf_report_uncovered_symbols rf then CheckUncoveredSymbols img (fde_ranges_of fdes) else []);
                       S = (case ParseAddr2LineMode (rf_addr2line rf) of (mode, tool) \<Rightarrow> Symbolizer_new (h_env H) img path mode tool)
                   in case name_filter H (rf_function rf) of
                        Inl e \<Rightarrow> failed (BadRegex e) st
                      | Inr fn \<Rightarrow>
                         (case pc_filter H (rf_pc rf) of
                            None \<Rightarrow> failed (BadPc (rf_pc rf)) st
                          | Some pc \<Rightarrow>
                             (let df = driver_flags rf pc fn; opts = make_options df img Z checkable;
                                  picked = filter (selected df (h_demangle H) img) checkable
                              in if rf_inspect rf then run_inspect H rf path script img opts S pc checkable st
                                 else if rf_dump_cfi rf
                                   then Some \<lparr>out_code = kExitBlessed, out_stdout = concat (map (DumpCFI (h_demangle H) S) picked),
                                              out_stderr = [], out_fds = st\<rparr>
                                 else case check_all df opts img picked of
                                        None \<Rightarrow> None
                                      | Some rs \<Rightarrow> run_report H rf img Z S checkable enumerate_error (results @ rs) st))))))"

text \<open>\<open>main\<close>: the positional arguments with the program's name, where the runfiles put the script (if they
  are found), whether a file can be read, and the run itself.\<close>

definition main_exit :: "string list \<Rightarrow> bool \<Rightarrow> string option \<Rightarrow> (string \<Rightarrow> bool) \<Rightarrow> (string \<Rightarrow> string \<Rightarrow> int option) \<Rightarrow> int option" where
  "main_exit positional inspect runfiles readable run =
     (if length positional \<noteq> 2 then Some 3
      else if inspect
        then case runfiles of
               None \<Rightarrow> Some 3
             | Some script \<Rightarrow> if script = [] \<or> \<not> readable script then Some 3 else run (positional ! 1) script
      else run (positional ! 1) [])"

end
