(* ===== verification/Light_Props.thy ===== *)
theory Light_Props
  imports Light_Checker Check_Props
begin

text \<open>
  The light checker: it always returns, and what its verdict BLESSED means, as an inductive
  characterisation of the FDEs it accepts.
\<close>

definition light_bytes :: "FDECheckerOptions \<Rightarrow> CFI \<Rightarrow> u64 \<Rightarrow> u8 list" where
  "light_bytes opts c pc = BytesAt (opt_image opts) pc (min 16 (pc_end c - pc))"

text \<open>What must hold between the state after an instruction and the row of the next one.\<close>

definition fall_through_ok :: "CFI \<Rightarrow> u64 \<Rightarrow> CFIRow \<Rightarrow> Instruction \<Rightarrow> TransferOutcome \<Rightarrow> AbsState \<Rightarrow> bool" where
  "fall_through_ok c pc row i out s \<longleftrightarrow>
     (let next_pc = pc + of_nat (insn_size i) in
      falls_through out \<and> \<not> is_call out \<and> next_pc < pc_end c \<longrightarrow>
        (\<exists>next_row. RowAt c next_pc = Some next_row \<and>
           (if row_cfa row = RegOffset kDWARFRbp 16 \<and> row_cfa next_row = RegOffset kDWARFRsp 8
            then is_pop_rbp i \<or> insn_id i = LEAVE
            else insn_id i = NOP \<or> cfa_holds (row_cfa next_row) s)))"

definition target_ok :: "FDECheckerOptions \<Rightarrow> TransferOutcome \<Rightarrow> AbsState \<Rightarrow> bool" where
  "target_ok opts out s \<longleftrightarrow>
     (has_direct_target out \<longrightarrow>
        (\<forall>target_cfi target_row. CFIContaining (all_cfis opts) (direct_target out) = Some target_cfi \<longrightarrow>
           RowAt target_cfi (direct_target out) = Some target_row \<longrightarrow> cfa_holds (row_cfa target_row) s))"

inductive light_ok :: "FDECheckerOptions \<Rightarrow> CFI \<Rightarrow> u64 \<Rightarrow> bool" for opts c where
  light_end: "\<not> pc < pc_end c \<Longrightarrow> light_ok opts c pc"
| light_no_row: "RowAt c pc = None \<Longrightarrow> light_ok opts c pc"
| light_insn: "RowAt c pc = Some row \<Longrightarrow> Decode (opt_disasm opts) (light_bytes opts c pc) pc = Some i \<Longrightarrow>
    Transfer (opt_disasm opts) i (SeedFromRow row False) = (out, s) \<Longrightarrow> fall_through_ok c pc row i out s \<Longrightarrow>
    target_ok opts out s \<Longrightarrow> light_ok opts c (pc + of_nat (insn_size i)) \<Longrightarrow> light_ok opts c pc"

subsection \<open>One instruction\<close>

text \<open>\<open>silent k k' P\<close>: from \<open>k\<close> to \<open>k'\<close> the sink only gained findings, and if it gained none then \<open>P\<close>.\<close>

definition silent :: "FindingSink \<Rightarrow> FindingSink \<Rightarrow> bool \<Rightarrow> bool" where
  "silent k k' P \<longleftrightarrow> sink_ok k' \<and> sink_weight k \<le> sink_weight k' \<and> (sink_weight k' = sink_weight k \<longrightarrow> P)"

lemma silent_refl: "sink_ok k \<Longrightarrow> P \<Longrightarrow> silent k k P"
  and silent_Add: "sink_ok k \<Longrightarrow> silent k (Add sev pc msg k) P"
  and silent_trans: "silent k k1 P \<Longrightarrow> (sink_ok k1 \<Longrightarrow> silent k1 k2 Q) \<Longrightarrow> silent k k2 (P \<and> Q)"
  and silent_mono: "silent k k' P \<Longrightarrow> (P \<Longrightarrow> Q) \<Longrightarrow> silent k k' Q"
  by (auto simp: silent_def sink_ok_Add sink_weight_Add)

lemma Light_CheckCFA_silent:
  assumes "sink_ok k" "Light_CheckCFA pc target s edge k = (stop, k')"
  shows "silent k k' (cfa_holds target s \<and> \<not> stop)"
  using assms silent_Add [OF assms(1)] silent_refl [OF assms(1)]
  by (auto simp: Light_CheckCFA_def Light_CFASatisfiedBy_def cfa_holds_def is_cfarel_def Let_def
      split: if_splits AbsVal.splits)

lemma Light_CheckCFA_holds: "cfa_holds target s \<Longrightarrow> Light_CheckCFA pc target s edge k = (False, k)"
  by (auto simp: Light_CheckCFA_def Light_CFASatisfiedBy_def cfa_holds_def is_cfarel_def Let_def)

lemma light_fall_through_silent:
  assumes "sink_ok k" "light_fall_through c pc row i out s k = Some (stop, k')"
  shows "silent k k' (fall_through_ok c pc row i out s \<and> \<not> stop)"
proof (cases "falls_through out \<and> \<not> is_call out \<and> pc + of_nat (insn_size i) < pc_end c")
  case True
  obtain nr where nr: "RowAt c (pc + of_nat (insn_size i)) = Some nr"
    using assms(2) True by (auto simp: light_fall_through_def Let_def split: option.splits)
  let ?tr = "row_cfa row = RegOffset kDWARFRbp 16 \<and> row_cfa nr = RegOffset kDWARFRsp 8"
  have ok: "fall_through_ok c pc row i out s \<longleftrightarrow> (if ?tr then is_pop_rbp i \<or> insn_id i = LEAVE else insn_id i = NOP \<or> cfa_holds (row_cfa nr) s)"
    using True nr by (simp add: fall_through_ok_def Let_def)
  have res: "(stop, k') = (if ?tr then if is_pop_rbp i \<or> insn_id i = LEAVE then (False, k) else (True, Add SevReview pc light_transition_msg k)
      else if insn_id i = NOP then (False, k) else Light_CheckCFA pc (row_cfa nr) s [] k)"
    using assms(2) True nr unfolding light_fall_through_def by (simp only: Let_def if_True option.case option.inject simp_thms)
  consider "?tr" "is_pop_rbp i \<or> insn_id i = LEAVE" | "?tr" "\<not> (is_pop_rbp i \<or> insn_id i = LEAVE)" | "\<not> ?tr" "insn_id i = NOP"
    | "\<not> ?tr" "insn_id i \<noteq> NOP" by blast
  then show ?thesis
  proof cases
    case 4
    with res have "Light_CheckCFA pc (row_cfa nr) s [] k = (stop, k')" by auto
    then show ?thesis unfolding ok using 4 Light_CheckCFA_silent [OF assms(1)] by (auto intro: silent_mono)
  qed (use res ok assms(1) in \<open>auto intro!: silent_refl silent_Add\<close>)
next
  case False
  with assms show ?thesis by (auto simp: light_fall_through_def fall_through_ok_def Let_def intro!: silent_refl)
qed

lemma light_fall_through_ok: "fall_through_ok c pc row i out s \<Longrightarrow> light_fall_through c pc row i out s k = Some (False, k)"
  by (auto simp: light_fall_through_def fall_through_ok_def Let_def Light_CheckCFA_holds split: option.split)

lemma light_target_silent:
  assumes "sink_ok k" "light_target opts c pc out s k = (stop, k')"
  shows "silent k k' (target_ok opts out s \<and> \<not> stop)"
  using assms silent_refl [OF assms(1)]
  by (auto simp: light_target_def target_ok_def split: if_splits option.splits dest!: Light_CheckCFA_silent intro: silent_mono)

lemma light_target_ok: "target_ok opts out s \<Longrightarrow> light_target opts c pc out s k = (False, k)"
  by (auto simp: light_target_def target_ok_def Light_CheckCFA_holds split: option.split)

definition light_next :: "FDECheckerOptions \<Rightarrow> CFI \<Rightarrow> u64 \<Rightarrow> u64 \<Rightarrow> bool" where
  "light_next opts c pc pc' \<longleftrightarrow> (\<exists>row i out s. RowAt c pc = Some row \<and> Decode (opt_disasm opts) (light_bytes opts c pc) pc = Some i \<and>
     Transfer (opt_disasm opts) i (SeedFromRow row False) = (out, s) \<and> fall_through_ok c pc row i out s \<and> target_ok opts out s \<and>
     pc' = pc + of_nat (insn_size i))"

lemma light_step_cases:
  assumes "sink_ok k" "light_step opts c pc n k = Some r"
  shows "case r of Inl (m, k') \<Rightarrow> silent k k' (RowAt c pc = None) | Inr (pc', m, k') \<Rightarrow> silent k k' (light_next opts c pc pc')"
proof (cases "RowAt c pc")
  case None
  with assms show ?thesis by (auto simp: light_step_def silent_refl)
next
  case row: (Some row)
  show ?thesis
  proof (cases "Decode (opt_disasm opts) (light_bytes opts c pc) pc")
    case None
    with row assms show ?thesis by (auto simp: light_step_def light_bytes_def silent_Add)
  next
    case (Some i)
    obtain out s where T: "Transfer (opt_disasm opts) i (SeedFromRow row False) = (out, s)" by force
    obtain stop k1 where ft: "light_fall_through c pc row i out s k = Some (stop, k1)"
      using assms(2) row Some T by (auto simp: light_step_def light_bytes_def split: option.splits)
    note s1 = light_fall_through_silent [OF assms(1) ft]
    obtain stop2 k2 where tg: "light_target opts c pc out s k1 = (stop2, k2)" by force
    have s2: "sink_ok k1 \<Longrightarrow> silent k1 k2 (target_ok opts out s \<and> \<not> stop2)" using light_target_silent [OF _ tg] .
    show ?thesis
      using assms(2) row Some T ft tg s1 silent_trans [OF s1 s2]
      by (auto simp: light_step_def light_bytes_def light_next_def split: bool.splits intro: silent_mono)
  qed
qed

lemma light_step_next:
  assumes "light_next opts c pc pc'"
  shows "light_step opts c pc n k = Some (Inr (pc', n + 1, k))"
  using assms
  by (auto simp: light_next_def light_step_def light_bytes_def light_fall_through_ok light_target_ok)

subsection \<open>The loop\<close>

lemma light_loop_silent:
  assumes "light_loop opts c pc n k = Some r" "sink_ok k"
  shows "silent k (snd r) (light_ok opts c pc)"
proof -
  have "sink_ok k \<longrightarrow> silent k (snd r) (light_ok opts c pc)"
  proof (rule light_loop.raw_induct [OF _ assms(1)], intro impI)
    fix loop opts c pc n k r
    assume IH: "\<And>opts c pc n k r. loop opts c pc n k = Some r \<Longrightarrow> sink_ok k \<longrightarrow> silent k (snd r) (light_ok opts c pc)"
      and eq: "(if pc < pc_end c then Option.bind (light_step opts c pc n k) (\<lambda>r. case r of
               Inl e \<Rightarrow> Some e | Inr p \<Rightarrow> loop opts c (fst p) (fst (snd p)) (snd (snd p))) else Some (n, k)) = Some r"
      and ok: "sink_ok k"
    show "silent k (snd r) (light_ok opts c pc)"
    proof (cases "pc < pc_end c")
      case False
      with eq ok show ?thesis by (auto intro!: silent_refl light_end)
    next
      case True
      with eq obtain x where x: "light_step opts c pc n k = Some x"
        "(case x of Inl e \<Rightarrow> Some e | Inr p \<Rightarrow> loop opts c (fst p) (fst (snd p)) (snd (snd p))) = Some r"
        by (auto split: bind_splits)
      note st = light_step_cases [OF ok x(1)]
      show ?thesis
      proof (cases x)
        case (Inl e)
        with x(2) st show ?thesis by (cases e) (auto intro: silent_mono light_no_row)
      next
        case (Inr p)
        obtain pc' m k' where p: "p = (pc', m, k')" by (cases p) auto
        have "silent k k' (light_next opts c pc pc')" using st Inr p by simp
        moreover have "sink_ok k' \<Longrightarrow> silent k' (snd r) (light_ok opts c pc')" using IH x(2) Inr p by simp
        ultimately have "silent k (snd r) (light_next opts c pc pc' \<and> light_ok opts c pc')" by (rule silent_trans)
        then show ?thesis by (rule silent_mono) (auto simp: light_next_def intro: light_insn)
      qed
    qed
  qed
  with assms(2) show ?thesis by blast
qed

lemma light_loop_ok: "light_ok opts c pc \<Longrightarrow> \<exists>m. light_loop opts c pc n k = Some (m, k)"
proof (induction arbitrary: n rule: light_ok.induct)
  case (light_end pc)
  then show ?case by (simp add: light_loop.simps)
next
  case (light_no_row pc)
  then show ?case by (simp add: light_loop.simps light_step_def)
next
  case (light_insn pc row i out s)
  then have "light_next opts c pc (pc + of_nat (insn_size i))" by (auto simp: light_next_def)
  then have st: "light_step opts c pc n k = Some (Inr (pc + of_nat (insn_size i), n + 1, k))" by (rule light_step_next)
  from light_insn.IH [of "n + 1"] st show ?case by (subst light_loop.simps) auto
qed


text \<open>The row of the first address is all the loop needs to keep going.\<close>

lemma RowAt_later:
  assumes "RowAt c pc = Some row" "pc \<le> pc'" "pc' < pc_end c"
  shows "\<exists>row'. RowAt c pc' = Some row'"
proof -
  have "rows c \<noteq> []" "\<not> pc < pc_begin c" "last_le pc_start pc (rows c) \<noteq> None" using assms(1) by (auto simp: RowAt_def split: if_splits)
  moreover from this have "last_le pc_start pc' (rows c) \<noteq> None"
    using assms(2) by (cases "rows c") (auto simp: last_le_Cons split: if_splits option.splits)
  ultimately show ?thesis using assms(2,3) by (auto simp: RowAt_def not_less)
qed

lemma light_decode_size:
  assumes "decoder_ok (opt_disasm opts)" "Decode (opt_disasm opts) (light_bytes opts c pc) pc = Some i" "pc < pc_end c"
  shows "unat (pc + of_nat (insn_size i)) = unat pc + insn_size i" "1 \<le> insn_size i" "unat pc + insn_size i \<le> unat (pc_end c)"
proof -
  have "insn_size i \<le> unat (min 16 (pc_end c - pc))"
    using Decode_size(2) [OF assms(1,2)] BytesAt_length [of "opt_image opts" pc "min 16 (pc_end c - pc)"] by (simp add: light_bytes_def)
  also have "\<dots> \<le> unat (pc_end c - pc)" by (simp add: min_def word_le_nat_alt)
  also have "\<dots> = unat (pc_end c) - unat pc" using assms(3) by (simp add: unat_sub word_less_nat_alt word_le_nat_alt)
  finally have "unat pc + insn_size i \<le> unat (pc_end c)" using assms(3) by (simp add: word_less_nat_alt)
  moreover from this have "unat pc + insn_size i < 2 ^ 64" using unsigned_less [of "pc_end c", where 'a = nat] by simp
  ultimately show "unat (pc + of_nat (insn_size i)) = unat pc + insn_size i" "unat pc + insn_size i \<le> unat (pc_end c)"
    using unat_add_small [of pc "insn_size i"] by simp_all
  show "1 \<le> insn_size i" by (rule Decode_size(1) [OF assms(1,2)])
qed

lemma light_loop_returns:
  assumes "decoder_ok (opt_disasm opts)"
  shows "\<exists>r. light_loop opts c pc n k = Some r"
proof (induction "unat (pc_end c) - unat pc" arbitrary: pc n k rule: less_induct)
  case less
  show ?case
  proof (cases "pc < pc_end c \<and> RowAt c pc \<noteq> None \<and> Decode (opt_disasm opts) (light_bytes opts c pc) pc \<noteq> None")
    case False
    then show ?thesis by (subst light_loop.simps) (auto simp: light_step_def light_bytes_def split: option.splits)
  next
    case True
    then obtain row i where row: "RowAt c pc = Some row" and i: "Decode (opt_disasm opts) (light_bytes opts c pc) pc = Some i" by auto
    obtain out s where T: "Transfer (opt_disasm opts) i (SeedFromRow row False) = (out, s)" by force
    note sz = light_decode_size [OF assms i] 
    have "\<exists>r. light_fall_through c pc row i out s k = Some r"
      using RowAt_later [OF row, of "pc + of_nat (insn_size i)"] sz True
      by (auto simp: light_fall_through_def Let_def word_le_nat_alt split: option.split)
    then obtain stop k1 where ft: "light_fall_through c pc row i out s k = Some (stop, k1)" by force
    have "\<exists>r. light_loop opts c (pc + of_nat (insn_size i)) m k' = Some r" for m k'
      using sz True by (intro less.hyps) (simp add: word_less_nat_alt)
    then show ?thesis
      using True row i T ft
      by (subst light_loop.simps) (auto simp: light_step_def light_bytes_def split: bool.split prod.split)
  qed
qed

subsection \<open>The properties\<close>

text \<open>The light check always returns: its loop ends and its \<open>CHECK\<close> on the row of the next instruction
  never fails, for every image and every CFI table, if the disassembler consumes between one byte
  and the bytes it is given.\<close>

lemma LightCheck_returns:
  assumes "decoder_ok (opt_disasm opts)"
  shows "\<exists>res. LightCheck opts c at_entry = Some res"
proof -
  obtain r where "light_loop opts c (pc_begin c) 0 (FindingSink0 (max_findings_per_fde opts)) = Some r"
    using light_loop_returns [OF assms] by blast
  then show ?thesis by (auto simp: LightCheck_def)
qed

text \<open>C9. What BLESSED means for the light checker, exactly: an FDE whose first row does not mark the end
  of the stack is BLESSED if and only if, walking its instructions one after the other from its
  start, each decodes, and the state its row describes is taken by the instruction to a state in
  which the CFA rule of the next row (except across a call, at a \<open>nop\<close>, or where \<open>pop %rbp\<close> or
  \<open>leave\<close> gives the frame up) and the CFA rule at a direct branch target hold.\<close>

theorem LightCheck_Blessed_iff:
  assumes "\<forall>row. RowAt c (pc_begin c) = Some row \<longrightarrow> rule_kind (row_regs row ! kDWARFRip) \<noteq> RUndefined"
  shows "(\<exists>res. LightCheck opts c at_entry = Some res \<and> verdict res = kBlessed) \<longleftrightarrow> light_ok opts c (pc_begin c)"
proof
  let ?k0 = "FindingSink0 (max_findings_per_fde opts)"
  have verdict: "light_verdict fs = kBlessed \<longleftrightarrow> fs = []" for fs :: "Finding list"
  proof (cases fs)
    case (Cons f fs')
    then show ?thesis by (cases "f_severity f") (auto simp: light_verdict_def)
  qed (simp add: light_verdict_def)
  have run: "LightCheck opts c at_entry = map_option (\<lambda>(n, k). let fs = Take k in
        (result0 c)\<lparr>findings := fs, verdict := light_verdict fs, instructions_checked := n\<rparr>) (light_loop opts c (pc_begin c) 0 ?k0)"
    using assms by (auto simp: LightCheck_def split: option.split)
  {
    assume "\<exists>res. LightCheck opts c at_entry = Some res \<and> verdict res = kBlessed"
    then obtain n k where k: "light_loop opts c (pc_begin c) 0 ?k0 = Some (n, k)" "Take k = []"
      unfolding run by (auto simp: verdict Let_def)
    from light_loop_silent [OF k(1) sink_ok_0] k(2) show "light_ok opts c (pc_begin c)"
      by (simp add: silent_def Take_eq_Nil)
  next
    assume "light_ok opts c (pc_begin c)"
    then obtain n where "light_loop opts c (pc_begin c) 0 ?k0 = Some (n, ?k0)" using light_loop_ok by blast
    moreover have "Take ?k0 = []" by (simp add: Take_eq_Nil)
    ultimately show "\<exists>res. LightCheck opts c at_entry = Some res \<and> verdict res = kBlessed"
      unfolding run by (simp add: Let_def light_verdict_def)
  }
qed


lemma sample_light: "map_option verdict (LightCheck sample_options sample_cfi True) = Some kBlessed"
  by code_simp

theorem LightCheck_Blessed_iff_witness: "light_ok sample_options sample_cfi 0x1000"
proof -
  have "\<forall>row. RowAt sample_cfi (pc_begin sample_cfi) = Some row \<longrightarrow> rule_kind (row_regs row ! kDWARFRip) \<noteq> RUndefined"
    using sample_start by simp
  from LightCheck_Blessed_iff [OF this, of sample_options True] sample_light show ?thesis
    by (auto simp: sample_cfi_def)
qed

end
