(* ===== verification/Decode_Props.thy ===== *)
theory Decode_Props
  imports Eh_Frame_Reader
begin

text \<open>
  The contract between the decoder and its visitor. \<open>Decoder\<close> is a template over the visitor, so
  two visitors that stay related through every call-back end up related when they are run over
  the same bytes (\<open>visitor_simulation\<close>). \<open>before\<close> is the relation until \<open>StartFDE\<close>, \<open>after\<close> the one
  from then on: the call-backs come in that order. A property every call-back preserves is the
  special case \<open>visitor_invariant\<close>.
\<close>

definition res_sim :: "('a \<Rightarrow> 'b \<Rightarrow> bool) \<Rightarrow> EHFrameError + 'a \<Rightarrow> EHFrameError + 'b \<Rightarrow> bool" where
  "res_sim Q r s \<longleftrightarrow> (\<forall>y. s = Inr y \<longrightarrow> (\<exists>x. r = Inr x \<and> Q x y))"

text \<open>The visitor state is the last or the second last part of a result, the rest is the same.\<close>

definition at_end :: "('v \<Rightarrow> 'w \<Rightarrow> bool) \<Rightarrow> 'a \<times> 'v \<Rightarrow> 'a \<times> 'w \<Rightarrow> bool" where
  "at_end R = (\<lambda>(a, v) (b, w). a = b \<and> R v w)"

definition inside :: "('v \<Rightarrow> 'w \<Rightarrow> bool) \<Rightarrow> 'v \<times> 'a \<Rightarrow> 'w \<times> 'a \<Rightarrow> bool" where
  "inside R = (\<lambda>(v, a) (w, b). a = b \<and> R v w)"

abbreviation cb_sim :: "('v \<Rightarrow> 'w \<Rightarrow> bool) \<Rightarrow> EHFrameError + bool \<times> 'v \<Rightarrow> EHFrameError + bool \<times> 'w \<Rightarrow> bool" where
  "cb_sim R \<equiv> res_sim (at_end R)"

abbreviation op_sim :: "('v \<Rightarrow> 'w \<Rightarrow> bool) \<Rightarrow> 'v op_result \<Rightarrow> 'w op_result \<Rightarrow> bool" where
  "op_sim R \<equiv> res_sim (at_end (at_end (inside R)))"

lemma at_end_simps [simp]:
  "at_end R (a, v) (b, w) \<longleftrightarrow> a = b \<and> R v w" "inside R (v, a) (w, b) \<longleftrightarrow> a = b \<and> R v w"
  by (simp_all add: at_end_def inside_def)

lemma at_endE:
  assumes "at_end R x y"
  obtains a v w where "x = (a, v)" "y = (a, w)" "R v w"
  using assms by (auto simp: at_end_def)

lemma res_sim_Inl [simp]: "res_sim Q r (Inl e)"
  by (simp add: res_sim_def)

lemma res_sim_Inr: "Q x y \<Longrightarrow> res_sim Q (Inr x) (Inr y)"
  by (simp add: res_sim_def)

lemma res_sim_bind: "res_sim P m n \<Longrightarrow> (\<And>x y. P x y \<Longrightarrow> res_sim Q (f x) (g y)) \<Longrightarrow> res_sim Q (bindR m f) (bindR n g)"
  by (cases n) (auto simp: res_sim_def)

lemma res_sim_same: "(\<And>x. m = Inr x \<Longrightarrow> res_sim Q (f x) (g x)) \<Longrightarrow> res_sim Q (bindR m f) (bindR m g)"
  by (cases m) auto

lemma res_sim_prod:
  "(\<And>a b. x = (a, b) \<Longrightarrow> res_sim Q (f a b) (g a b)) \<Longrightarrow> res_sim Q (case x of (a, b) \<Rightarrow> f a b) (case x of (a, b) \<Rightarrow> g a b)"
  by (cases x) simp

lemma res_sim_if:
  "(P \<Longrightarrow> res_sim Q a c) \<Longrightarrow> (\<not> P \<Longrightarrow> res_sim Q b d) \<Longrightarrow> res_sim Q (if P then a else b) (if P then c else d)"
  by simp

lemma res_sim_visit: "cb_sim R r s \<Longrightarrow> op_sim R (visit st sl r) (visit st sl s)"
  unfolding visit_def by (erule res_sim_bind) (auto simp: res_sim_def elim!: at_endE)

lemma res_simD: "res_sim Q r s \<Longrightarrow> s = Inr y \<Longrightarrow> \<exists>x. r = Inr x \<and> Q x y"
  by (simp add: res_sim_def)

lemmas res_sim_intros = res_sim_if res_sim_same res_sim_prod res_sim_visit res_sim_Inl

locale visitor_simulation =
  fixes V :: "'v UnwindVisitor" and W :: "'w UnwindVisitor"
    and before :: "'v \<Rightarrow> 'w \<Rightarrow> bool" and after :: "'v \<Rightarrow> 'w \<Rightarrow> bool"
  assumes AugS: "before v w \<Longrightarrow> cb_sim before (vHandleAugS V v) (vHandleAugS W w)"
    and StartFDE: "before v w \<Longrightarrow> cb_sim after (vStartFDE V x y z v) (vStartFDE W x y z w)"
    and AfterCIE: "after v w \<Longrightarrow> cb_sim after (vAfterCIE V v) (vAfterCIE W w)"
    and LSDA: "after v w \<Longrightarrow> cb_sim after (vHandleLSDA V x v) (vHandleLSDA W x w)"
    and SetLoc: "after v w \<Longrightarrow> cb_sim after (vHandleSetLoc V x v) (vHandleSetLoc W x w)"
    and DefCFA: "after v w \<Longrightarrow> cb_sim after (vHandleDefCFA V x y v) (vHandleDefCFA W x y w)"
    and DefCFAReg: "after v w \<Longrightarrow> cb_sim after (vHandleDefCFAReg V x v) (vHandleDefCFAReg W x w)"
    and DefCFAOffset: "after v w \<Longrightarrow> cb_sim after (vHandleDefCFAOffset V x v) (vHandleDefCFAOffset W x w)"
    and DefCFAExpression: "after v w \<Longrightarrow> cb_sim after (vHandleDefCFAExpression V e v) (vHandleDefCFAExpression W e w)"
    and Offset: "after v w \<Longrightarrow> cb_sim after (vHandleOffset V x y v) (vHandleOffset W x y w)"
    and Register: "after v w \<Longrightarrow> cb_sim after (vHandleRegister V x y v) (vHandleRegister W x y w)"
    and Restore: "after v w \<Longrightarrow> cb_sim after (vHandleRestore V x v) (vHandleRestore W x w)"
    and SameValue: "after v w \<Longrightarrow> cb_sim after (vHandleSameValue V x v) (vHandleSameValue W x w)"
    and Undefined: "after v w \<Longrightarrow> cb_sim after (vHandleUndefined V x v) (vHandleUndefined W x w)"
    and ValOffset: "after v w \<Longrightarrow> cb_sim after (vHandleValOffset V x y v) (vHandleValOffset W x y w)"
    and Expression: "after v w \<Longrightarrow> cb_sim after (vHandleExpression V x e v) (vHandleExpression W x e w)"
    and ValExpression: "after v w \<Longrightarrow> cb_sim after (vHandleValExpression V x e v) (vHandleValExpression W x e w)"
    and Remember: "after v w \<Longrightarrow> cb_sim after (vHandleRememberState V v) (vHandleRememberState W w)"
    and RestoreState: "after v w \<Longrightarrow> cb_sim after (vHandleRestoreState V v) (vHandleRestoreState W w)"
begin

lemmas step_sims = AfterCIE LSDA SetLoc DefCFA DefCFAReg DefCFAOffset DefCFAExpression Offset Register Restore SameValue
  Undefined ValOffset Expression ValExpression Remember RestoreState

lemma DoSetLoc_sim: "after v w \<Longrightarrow> res_sim (at_end (at_end after)) (DoSetLoc V st l c v) (DoSetLoc W st l c w)"
  unfolding DoSetLoc_def by (intro res_sim_if res_sim_Inl res_sim_bind [OF SetLoc]) (auto simp: res_sim_def elim!: at_endE)

lemma set_loc_sim: "after v w \<Longrightarrow> op_sim after (set_loc V c st v l sl) (set_loc W c st w l sl)"
  unfolding set_loc_def by (intro res_sim_bind [OF DoSetLoc_sim]) (auto simp: res_sim_def elim!: at_endE)

lemma RunOpcode_sim:
  assumes "after v w"
  shows "op_sim after (RunOpcode mem V c st v oc sl) (RunOpcode mem W c st w oc sl)"
  unfolding RunOpcode_def op_primary_def op_loc_def op_offset_def op_def_cfa_def op_expression_def op_register_def Let_def
  by (intro res_sim_intros set_loc_sim step_sims assms res_sim_Inr at_end_simps [THEN iffD2] conjI refl)

lemma RunInstructions_sim:
  assumes "after v w"
  shows "res_sim (at_end (at_end after)) (RunInstructions mem V c st v sl) (RunInstructions mem W c st w sl)"
  using assms
proof (induction "sl_size sl" arbitrary: st v w sl rule: less_induct)
  case less
  show ?case
  proof (cases "sl_size sl = 0")
    case True
    then show ?thesis using less.prems DoSetLoc_sim [OF less.prems] by (auto simp: RunInstructions.simps res_sim_Inr)
  next
    case False
    have "res_sim (at_end (at_end after))
        (bindR (RunOpcode mem V c st v oc sl1) (\<lambda>(go, st', v', sl2).
          if go then RunInstructions mem V c st' v' sl2 else Inr (False, st', v')))
        (bindR (RunOpcode mem W c st w oc sl1) (\<lambda>(go, st', v', sl2).
          if go then RunInstructions mem W c st' v' sl2 else Inr (False, st', v')))"
      if rd: "ReadU8 mem sl = Inr (oc, sl1)" for oc sl1
    proof (cases "RunOpcode mem W c st w oc sl1")
      case (Inr y)
      then obtain go st' w' sl2 where W: "RunOpcode mem W c st w oc sl1 = Inr (go, st', w', sl2)" by (cases y) auto
      then obtain v' where v: "RunOpcode mem V c st v oc sl1 = Inr (go, st', v', sl2)" "after v' w'"
        using res_simD [OF RunOpcode_sim [OF less.prems] W] by (auto elim!: at_endE simp: inside_def)
      have "sl_size sl2 < sl_size sl"
        using ReadU8_shrinks [OF rd] suffix_of_size [OF RunOpcode_suffix [OF W]] by simp
      from less.hyps [OF this v(2)] v W show ?thesis by (auto intro: res_sim_Inr)
    qed simp
    with False show ?thesis
      by (subst (1 2) RunInstructions.simps) (auto intro!: res_sim_same)
  qed
qed

lemma ParseAug_sim:
  assumes "before v w"
  shows "res_sim (at_end (at_end (at_end before))) (ParseAug mem V aug data enc lsda v) (ParseAug mem W aug data enc lsda w)"
  using assms
proof (induction aug arbitrary: data enc lsda v w)
  case (Cons ch aug)
  show ?case
    unfolding ParseAug.simps
    by (intro res_sim_if res_sim_same res_sim_prod res_sim_Inl Cons res_sim_Inr res_sim_bind [OF AugS [OF Cons.prems]])
      (auto elim!: at_endE intro!: Cons.IH res_sim_Inr Cons.prems)
qed (simp add: res_sim_Inr)

lemma ParseCIE_sim:
  assumes "before v w"
  shows "res_sim (at_end (at_end before)) (ParseCIE mem V sl v) (ParseCIE mem W sl w)"
  unfolding ParseCIE_def
  by (intro res_sim_if res_sim_same res_sim_prod res_sim_Inl)
    (auto split: list.split elim!: at_endE intro!: res_sim_same res_sim_Inr assms res_sim_bind [OF ParseAug_sim [OF assms]])

lemma ParseFDEBody_sim:
  assumes "before v w"
  shows "res_sim (\<lambda>v w. before v w \<or> after v w) (ParseFDEBody mem V inp m cie sl v) (ParseFDEBody mem W inp m cie sl w)"
proof -
  let ?Q = "\<lambda>v w. before v w \<or> after v w"
  have fin: "res_sim ?Q (Inr v) (Inr w)" if "after v w" for v w using that by (simp add: res_sim_Inr)
  have insns: "res_sim ?Q (bindR (vAfterCIE V v) (\<lambda>(go, v). if \<not> go then Inr v
        else bindR (RunInstructions mem V False st v fs) (\<lambda>(_, _, v). Inr v)))
      (bindR (vAfterCIE W w) (\<lambda>(go, v). if \<not> go then Inr v
        else bindR (RunInstructions mem W False st v fs) (\<lambda>(_, _, v). Inr v)))" if "after v w" for st v w fs
    by (intro res_sim_bind [OF AfterCIE [OF that]])
      (auto elim!: at_endE intro!: fin res_sim_bind [OF RunInstructions_sim])
  have lsda: "res_sim (at_end (at_end after))
      (if z then bindR (ReadUleb128 mem fs) (\<lambda>(aug_len, fs). bindR (ReadSubslice 1 1 aug_len fs) (\<lambda>(data, fs).
         if e \<noteq> DW_EH_PE_omitted then bindR (ReadEncodedPtr mem e data) (\<lambda>(lsda_ptr, _).
           bindR (vHandleLSDA V lsda_ptr v) (\<lambda>(go, v). Inr (go, fs, v))) else Inr (True, fs, v))) else Inr (True, fs, v))
      (if z then bindR (ReadUleb128 mem fs) (\<lambda>(aug_len, fs). bindR (ReadSubslice 1 1 aug_len fs) (\<lambda>(data, fs).
         if e \<noteq> DW_EH_PE_omitted then bindR (ReadEncodedPtr mem e data) (\<lambda>(lsda_ptr, _).
           bindR (vHandleLSDA W lsda_ptr w) (\<lambda>(go, v). Inr (go, fs, v))) else Inr (True, fs, w))) else Inr (True, fs, w))"
    if "after v w" for z e v w fs
    by (intro res_sim_if res_sim_same res_sim_prod res_sim_bind [OF LSDA [OF that]])
      (auto elim!: at_endE intro!: res_sim_Inr that)
  show ?thesis
    unfolding ParseFDEBody_def Let_def
    by (intro res_sim_if res_sim_same res_sim_prod res_sim_bind [OF StartFDE [OF assms]])
      (auto elim!: at_endE simp: res_sim_Inr assms simp del: One_nat_def split del: if_split
        intro!: fin insns res_sim_if res_sim_bind [OF RunInstructions_sim] res_sim_bind [OF lsda])
qed

lemma ParseFDE_sim:
  assumes "before v w"
  shows "res_sim (\<lambda>v w. before v w \<or> after v w) (ParseFDE mem V inp m fde v) (ParseFDE mem W inp m fde w)"
  unfolding ParseFDE_def
  by (intro res_sim_if res_sim_same res_sim_prod res_sim_Inl)
    (auto elim!: at_endE intro!: res_sim_bind [OF ParseCIE_sim [OF assms]] ParseFDEBody_sim res_sim_Inr)

end

text \<open>Call-backs that keep a property of the visitor state.\<close>

definition cb_inv :: "('v \<Rightarrow> bool) \<Rightarrow> EHFrameError + bool \<times> 'v \<Rightarrow> bool" where
  "cb_inv I r \<longleftrightarrow> (\<forall>go v. r = Inr (go, v) \<longrightarrow> I v)"

lemma cb_inv_simps [simp]: "cb_inv I (Inl e)" "cb_inv I (Inr (go, v)) \<longleftrightarrow> I v"
  by (simp_all add: cb_inv_def)

lemma cb_inv_sim: "cb_inv I r \<Longrightarrow> cb_sim (\<lambda>v w. v = w \<and> I v) r r"
  by (auto simp: cb_inv_def res_sim_def)

locale visitor_invariant =
  fixes V :: "'v UnwindVisitor" and inv :: "'v \<Rightarrow> bool"
  assumes inv_start: "inv v \<Longrightarrow> cb_inv inv (vStartFDE V x y z v)"
    and inv_calls: "inv v \<Longrightarrow> r \<in> {vHandleAugS V v, vAfterCIE V v, vHandleRememberState V v, vHandleRestoreState V v} \<Longrightarrow>
      cb_inv inv r"
    and inv_calls1: "inv v \<Longrightarrow> r \<in> {vHandleLSDA V x v, vHandleSetLoc V x v, vHandleDefCFAReg V x v, vHandleDefCFAOffset V x v,
      vHandleRestore V x v, vHandleSameValue V x v, vHandleUndefined V x v} \<Longrightarrow> cb_inv inv r"
    and inv_calls2: "inv v \<Longrightarrow> r \<in> {vHandleDefCFA V x y v, vHandleOffset V x y v, vHandleRegister V x y v, vHandleValOffset V x y v} \<Longrightarrow>
      cb_inv inv r"
    and inv_exprs: "inv v \<Longrightarrow> r \<in> {vHandleDefCFAExpression V e v, vHandleExpression V x e v, vHandleValExpression V x e v} \<Longrightarrow>
      cb_inv inv r"

sublocale visitor_invariant \<subseteq> visitor_simulation V V "\<lambda>v w. v = w \<and> inv v" "\<lambda>v w. v = w \<and> inv v"
  by unfold_locales (auto intro!: cb_inv_sim intro: inv_start inv_calls inv_calls1 inv_calls2 inv_exprs)

context visitor_invariant
begin

lemma ParseFDE_inv: "inv v \<Longrightarrow> ParseFDE mem V inp m fde v = Inr v' \<Longrightarrow> inv v'"
  using ParseFDE_sim [of v v mem inp m fde] by (auto simp: res_sim_def)

end

end
