(* ===== verification/Table_Props.thy ===== *)
theory Table_Props
  imports Decode_Props Cfi_Table
begin

text \<open>
  The row table against a reference semantics of call-frame programs. \<open>ref_visitor\<close> is what the
  DWARF standard says an FDE means: a map from addresses to the rules in force there, built by
  assigning the current rules to every address the location moves across. It is partial: it
  rejects what has no meaning there or on this machine (a location that moves backwards, a
  \<open>def_cfa_register\<close> without a register rule to change, a register above 255, more than 32
  remembered states). \<open>TableBuilder\<close> implements it with a list of rows.
\<close>

subsection \<open>The reference semantics\<close>

type_synonym rules = "CFARule \<times> (nat \<Rightarrow> RegRule)"

record reference =
  ref_loc :: u64
  ref_rules :: rules
  ref_cie :: "nat \<Rightarrow> RegRule"
  ref_stack :: "rules list"
  ref_begin :: u64
  ref_end :: u64
  ref_table :: "u64 \<Rightarrow> rules option"

definition reference0 :: reference where
  "reference0 = \<lparr>ref_loc = 0, ref_rules = (CFARule0, \<lambda>_. RegRule0), ref_cie = (\<lambda>_. RegRule0), ref_stack = [],
     ref_begin = 0, ref_end = 0, ref_table = (\<lambda>_. None)\<rparr>"

definition rejected :: "EHFrameError + bool \<times> reference" where
  "rejected = Inl SetLocBackward"

definition ref_set_loc :: "u64 \<Rightarrow> reference \<Rightarrow> EHFrameError + bool \<times> reference" where
  "ref_set_loc l w =
     (if l < ref_loc w then rejected
      else Inr (True, w\<lparr>ref_loc := l,
        ref_table := (\<lambda>pc. if ref_loc w \<le> pc \<and> pc < l then Some (ref_rules w) else ref_table w pc)\<rparr>))"

definition ref_cfa :: "(CFARule \<Rightarrow> CFARule option) \<Rightarrow> reference \<Rightarrow> EHFrameError + bool \<times> reference" where
  "ref_cfa f w = (case f (fst (ref_rules w)) of
       None \<Rightarrow> rejected
     | Some c \<Rightarrow> Inr (True, w\<lparr>ref_rules := (c, snd (ref_rules w))\<rparr>))"

definition ref_rule :: "u64 \<Rightarrow> RegRule \<Rightarrow> reference \<Rightarrow> EHFrameError + bool \<times> reference" where
  "ref_rule r rule w = Inr (True, w\<lparr>ref_rules := (fst (ref_rules w), (snd (ref_rules w))(unat r := rule))\<rparr>)"

definition ref_visitor :: "u64 \<Rightarrow> reference UnwindVisitor" where
  "ref_visitor b = \<lparr>
     vStartFDE = (\<lambda>_ start stop w. Inr (True, w\<lparr>ref_loc := start - b, ref_begin := start - b, ref_end := stop - b\<rparr>)),
     vHandleAugS = (\<lambda>w. Inr (True, w)),
     vAfterCIE = (\<lambda>w. Inr (True, w\<lparr>ref_cie := snd (ref_rules w)\<rparr>)),
     vHandleLSDA = (\<lambda>_ w. Inr (True, w)),
     vHandleSetLoc = (\<lambda>l. ref_set_loc (l - b)),
     vHandleDefCFA = (\<lambda>r off. ref_cfa (\<lambda>_. if r < 256 then Some (RegOffset (unat r) (sint off)) else None)),
     vHandleDefCFAReg = (\<lambda>r. ref_cfa (\<lambda>c. if r < 256 \<and> cfa_kind c = CFARegOffset then Some (c\<lparr>cfa_reg := unat r\<rparr>) else None)),
     vHandleDefCFAOffset = (\<lambda>off. ref_cfa (\<lambda>c. if cfa_kind c = CFARegOffset then Some (c\<lparr>cfa_offset := sint off\<rparr>) else None)),
     vHandleDefCFAExpression = (\<lambda>_. ref_cfa (\<lambda>_. Some \<lparr>cfa_kind = CFAExpression, cfa_reg = 0, cfa_offset = 0\<rparr>)),
     vHandleOffset = (\<lambda>r off. ref_rule r \<lparr>rule_kind = RAtCFAOffset, rule_reg = 0, rule_offset = sint off\<rparr>),
     vHandleRegister = (\<lambda>r q w. if q < 256 then ref_rule r \<lparr>rule_kind = RInRegister, rule_reg = unat q, rule_offset = 0\<rparr> w else rejected),
     vHandleRestore = (\<lambda>r w. ref_rule r (ref_cie w (unat r)) w),
     vHandleSameValue = (\<lambda>r. ref_rule r \<lparr>rule_kind = RSameValue, rule_reg = 0, rule_offset = 0\<rparr>),
     vHandleUndefined = (\<lambda>r. ref_rule r \<lparr>rule_kind = RUndefined, rule_reg = 0, rule_offset = 0\<rparr>),
     vHandleValOffset = (\<lambda>r off. ref_rule r \<lparr>rule_kind = RValOffset, rule_reg = 0, rule_offset = sint off\<rparr>),
     vHandleExpression = (\<lambda>r _. ref_rule r \<lparr>rule_kind = RExpression, rule_reg = 0, rule_offset = 0\<rparr>),
     vHandleValExpression = (\<lambda>r _. ref_rule r \<lparr>rule_kind = RValExpression, rule_reg = 0, rule_offset = 0\<rparr>),
     vHandleRememberState = (\<lambda>w. if length (ref_stack w) < 32 then Inr (True, w\<lparr>ref_stack := ref_rules w # ref_stack w\<rparr>) else rejected),
     vHandleRestoreState = (\<lambda>w. case ref_stack w of [] \<Rightarrow> rejected | x # xs \<Rightarrow> Inr (True, w\<lparr>ref_rules := x, ref_stack := xs\<rparr>))\<rparr>"

subsection \<open>Rows and the rules they stand for\<close>

definition regs_rel :: "RegRule list \<Rightarrow> (nat \<Rightarrow> RegRule) \<Rightarrow> bool" where
  "regs_rel xs f \<longleftrightarrow> length xs = kNumDWARFRegs \<and> (\<forall>r < kNumDWARFRegs. xs ! r = f r)"

definition row_rel :: "CFIRow \<Rightarrow> rules \<Rightarrow> bool" where
  "row_rel row w \<longleftrightarrow> row_cfa row = fst w \<and> regs_rel (row_regs row) (snd w)"

definition stack_rel :: "CFARule \<times> RegRule list \<Rightarrow> rules \<Rightarrow> bool" where
  "stack_rel v w \<longleftrightarrow> fst v = fst w \<and> regs_rel (snd v) (snd w)"

definition builder_rel :: "u64 \<Rightarrow> TableBuilder \<Rightarrow> reference \<Rightarrow> bool" where
  "builder_rel b v w \<longleftrightarrow> bias v = b \<and> row_pc v = ref_loc w \<and> stack_rel (cur_cfa v, cur_regs v) (ref_rules w) \<and>
     regs_rel (cie_regs v) (ref_cie w) \<and> list_all2 stack_rel (stack v) (ref_stack w) \<and>
     pc_begin (result v) = ref_begin w \<and> pc_end (result v) = ref_end w \<and>
     (\<forall>row \<in> set (rows (result v)). pc_start row < ref_loc w) \<and> (rows (result v) = [] \<longrightarrow> ref_loc w = ref_begin w) \<and>
     (\<forall>pc. if pc < ref_loc w then rel_option row_rel (last_le pc_start pc (rows (result v))) (ref_table w pc)
           else ref_table w pc = None)"

definition fresh_rel :: "u64 \<Rightarrow> TableBuilder \<Rightarrow> reference \<Rightarrow> bool" where
  "fresh_rel b v w \<longleftrightarrow> builder_rel b v w \<and> rows (result v) = [] \<and> ref_table w = (\<lambda>_. None)"

lemma regs_rel_update: "regs_rel xs f \<Longrightarrow> r < kNumDWARFRegs \<Longrightarrow> regs_rel (xs[r := x]) (f(r := x))"
  and regs_rel_exotic: "regs_rel xs f \<Longrightarrow> \<not> r < kNumDWARFRegs \<Longrightarrow> regs_rel xs (f(r := x))"
  by (auto simp: regs_rel_def nth_list_update)

lemma last_le_append:
  "pc < key x \<Longrightarrow> last_le key pc (xs @ [x]) = last_le key pc xs"
  "(\<forall>y \<in> set xs. key y \<le> pc) \<Longrightarrow> key x \<le> pc \<Longrightarrow> last_le key pc (xs @ [x]) = Some x"
  by (induction xs) (auto simp: last_le_Cons)

lemma ref_rule_sim:
  assumes "builder_rel b v w"
  shows "cb_sim (builder_rel b) (SetRule r rule v) (ref_rule r rule w)"
  using assms regs_rel_update [of "cur_regs v" "snd (ref_rules w)" "unat r" rule] regs_rel_exotic [of "cur_regs v" "snd (ref_rules w)" "unat r" rule]
  by (auto simp: SetRule_def ref_rule_def res_sim_def builder_rel_def stack_rel_def simp del: reg_consts)

lemma ref_cfa_sim:
  assumes "builder_rel b v w" "\<And>c. f (cur_cfa v) = Some c \<Longrightarrow> c = c'"
  shows "cb_sim (builder_rel b) (Inr (True, v\<lparr>cur_cfa := c'\<rparr>)) (ref_cfa f w)"
  using assms by (auto simp: ref_cfa_def res_sim_def rejected_def builder_rel_def stack_rel_def split: option.splits)

lemma ref_set_loc_sim:
  assumes "builder_rel b v w"
  shows "cb_sim (builder_rel b) (HandleSetLoc l v) (ref_set_loc (l - b) w)"
proof (cases "ref_loc w < l - b")
  case True
  let ?row = "\<lparr>pc_start = row_pc v, row_cfa = cur_cfa v, row_regs = cur_regs v\<rparr>"
  note r = assms [unfolded builder_rel_def]
  have "rel_option row_rel (last_le pc_start pc (rows (result v) @ [?row]))
      (if ref_loc w \<le> pc \<and> pc < l - b then Some (ref_rules w) else ref_table w pc)" if pc: "pc < l - b" for pc
  proof (cases "pc < ref_loc w")
    case True
    then show ?thesis using r last_le_append(1) [of pc pc_start ?row] by (auto split: if_splits)
  next
    case False
    then have "last_le pc_start pc (rows (result v) @ [?row]) = Some ?row"
      using r by (intro last_le_append(2)) fastforce+
    then show ?thesis using False pc r by (simp add: row_rel_def stack_rel_def)
  qed
  moreover have "\<forall>row \<in> set (rows (result v) @ [?row]). pc_start row < l - b" using r True by auto
  moreover have "\<not> l - b < ref_loc w" using True by simp
  ultimately show ?thesis
    using r True by (auto simp: HandleSetLoc_def ref_set_loc_def res_sim_def builder_rel_def Let_def)
next
  case False
  then show ?thesis
    using assms by (auto simp: HandleSetLoc_def ref_set_loc_def rejected_def res_sim_def builder_rel_def Let_def)
qed

lemma to_u8_small: "r < 256 \<Longrightarrow> to_u8 r = unat r"
  by (simp add: to_u8_def word_less_nat_alt)

lemma ref_stack_sim:
  assumes "builder_rel b v w"
  shows "cb_sim (builder_rel b) (HandleRememberState v) (vHandleRememberState (ref_visitor b) w)"
    and "cb_sim (builder_rel b) (HandleRestoreState v) (vHandleRestoreState (ref_visitor b) w)"
  using assms list_all2_lengthD [of stack_rel "stack v" "ref_stack w"]
  by (auto simp: HandleRememberState_def HandleRestoreState_def ref_visitor_def rejected_def res_sim_def builder_rel_def
      stack_rel_def list_all2_Cons2 split: list.splits)

interpretation row_table: visitor_simulation table_builder "ref_visitor b" "fresh_rel b" "builder_rel b"
proof unfold_locales
  fix v w x y
  assume rel: "builder_rel b v w"
  note defs = table_builder_def ref_visitor_def
  show "cb_sim (builder_rel b) (vAfterCIE table_builder v) (vAfterCIE (ref_visitor b) w)"
    "cb_sim (builder_rel b) (vHandleLSDA table_builder x v) (vHandleLSDA (ref_visitor b) x w)"
    using rel by (auto simp: defs AfterCIE_def HandleLSDA_def res_sim_def builder_rel_def stack_rel_def)
  show "cb_sim (builder_rel b) (vHandleSetLoc table_builder x v) (vHandleSetLoc (ref_visitor b) x w)"
    using ref_set_loc_sim [OF rel] by (simp add: defs)
  show "cb_sim (builder_rel b) (vHandleDefCFA table_builder x y v) (vHandleDefCFA (ref_visitor b) x y w)"
    "cb_sim (builder_rel b) (vHandleDefCFAReg table_builder x v) (vHandleDefCFAReg (ref_visitor b) x w)"
    "cb_sim (builder_rel b) (vHandleDefCFAOffset table_builder x v) (vHandleDefCFAOffset (ref_visitor b) x w)"
    using rel by (auto simp: defs HandleDefCFA_def HandleDefCFAReg_def HandleDefCFAOffset_def RegOffset_def to_u8_small
        intro!: ref_cfa_sim split: if_splits)
  show "cb_sim (builder_rel b) (vHandleOffset table_builder x y v) (vHandleOffset (ref_visitor b) x y w)"
    "cb_sim (builder_rel b) (vHandleSameValue table_builder x v) (vHandleSameValue (ref_visitor b) x w)"
    "cb_sim (builder_rel b) (vHandleUndefined table_builder x v) (vHandleUndefined (ref_visitor b) x w)"
    "cb_sim (builder_rel b) (vHandleValOffset table_builder x y v) (vHandleValOffset (ref_visitor b) x y w)"
    by (simp_all add: defs HandleOffset_def HandleSameValue_def HandleUndefined_def HandleValOffset_def ref_rule_sim [OF rel])
  show "cb_sim (builder_rel b) (vHandleRegister table_builder x y v) (vHandleRegister (ref_visitor b) x y w)"
    by (simp add: defs HandleRegister_def ref_rule_sim [OF rel] rejected_def to_u8_small)
  show "cb_sim (builder_rel b) (vHandleRestore table_builder x v) (vHandleRestore (ref_visitor b) x w)"
  proof -
    have "HandleRestore x v = SetRule x (ref_cie w (unat x)) v"
      using rel by (auto simp: HandleRestore_def SetRule_def builder_rel_def regs_rel_def)
    then show ?thesis by (simp add: defs ref_rule_sim [OF rel])
  qed
  show "cb_sim (builder_rel b) (vHandleRememberState table_builder v) (vHandleRememberState (ref_visitor b) w)"
    "cb_sim (builder_rel b) (vHandleRestoreState table_builder v) (vHandleRestoreState (ref_visitor b) w)"
    using ref_stack_sim [OF rel] by (simp_all add: table_builder_def)
next
  fix v w x e
  assume rel: "builder_rel b v w"
  note defs = table_builder_def ref_visitor_def
  show "cb_sim (builder_rel b) (vHandleDefCFAExpression table_builder e v) (vHandleDefCFAExpression (ref_visitor b) e w)"
    using rel by (auto simp: defs HandleDefCFAExpression_def intro!: ref_cfa_sim)
  show "cb_sim (builder_rel b) (vHandleExpression table_builder x e v) (vHandleExpression (ref_visitor b) x e w)"
    "cb_sim (builder_rel b) (vHandleValExpression table_builder x e v) (vHandleValExpression (ref_visitor b) x e w)"
    by (simp_all add: defs HandleExpression_def HandleValExpression_def ref_rule_sim [OF rel])
next
  fix v w x y z
  assume rel: "fresh_rel b v w"
  note defs = table_builder_def ref_visitor_def
  show "cb_sim (fresh_rel b) (vHandleAugS table_builder v) (vHandleAugS (ref_visitor b) w)"
    using rel by (auto simp: defs HandleAugS_def res_sim_def fresh_rel_def builder_rel_def)
  show "cb_sim (builder_rel b) (vStartFDE table_builder x y z v) (vStartFDE (ref_visitor b) x y z w)"
    using rel by (auto simp: defs StartFDE_def res_sim_def fresh_rel_def builder_rel_def)
qed

text \<open>A reference run ends at the end of the FDE's range.\<close>

lemma ref_calls:
  "ref_set_loc l w = Inr (go, w') \<Longrightarrow> go \<and> ref_begin w' = ref_begin w \<and> ref_end w' = ref_end w \<and> ref_loc w' = l"
  "ref_cfa f w = Inr (go, w') \<Longrightarrow> go \<and> ref_begin w' = ref_begin w \<and> ref_end w' = ref_end w"
  "ref_rule r rule w = Inr (go, w') \<Longrightarrow> go \<and> ref_begin w' = ref_begin w \<and> ref_end w' = ref_end w"
  by (auto simp: ref_set_loc_def ref_cfa_def ref_rule_def rejected_def split: if_splits option.splits)

lemma RunOpcode_ref:
  assumes "RunOpcode mem (ref_visitor b) c st w oc sl = Inr (go, st', w', sl')"
  shows "go \<and> ref_begin w' = ref_begin w \<and> ref_end w' = ref_end w \<and> function_end st' = function_end st"
  using assms
  unfolding RunOpcode_def op_primary_def op_loc_def op_offset_def op_def_cfa_def op_expression_def op_register_def Let_def
  by (auto simp: op_eq_Inr ref_visitor_def rejected_def split: if_splits list.splits dest!: ref_calls)

lemma RunInstructions_ref:
  assumes "RunInstructions mem (ref_visitor b) c st w sl = Inr (go, st', w')"
  shows "go \<and> ref_begin w' = ref_begin w \<and> ref_end w' = ref_end w \<and> function_end st' = function_end st \<and>
    (\<not> c \<longrightarrow> ref_loc w' = function_end st - b)"
  using assms
proof (induction "sl_size sl" arbitrary: st w sl rule: less_induct)
  case less
  show ?case
  proof (cases "sl_size sl = 0")
    case True
    then show ?thesis
      using less.prems by (auto simp: RunInstructions.simps DoSetLoc_def bindR_eq_Inr ref_visitor_def split: if_splits dest!: ref_calls)
  next
    case False
    then obtain oc sl1 go1 st1 w1 sl2 where rd: "ReadU8 mem sl = Inr (oc, sl1)"
      and W: "RunOpcode mem (ref_visitor b) c st w oc sl1 = Inr (go1, st1, w1, sl2)"
      and rest: "(if go1 then RunInstructions mem (ref_visitor b) c st1 w1 sl2 else Inr (False, st1, w1)) = Inr (go, st', w')"
      using less.prems by (subst (asm) RunInstructions.simps) (auto simp: bindR_eq_Inr)
    have "sl_size sl2 < sl_size sl"
      using ReadU8_shrinks [OF rd] suffix_of_size [OF RunOpcode_suffix [OF W]] by simp
    from less.hyps [OF this, of st1 w1] rest RunOpcode_ref [OF W] show ?thesis by simp
  qed
qed

lemma ParseAug_ref: "ParseAug mem (ref_visitor b) aug data enc lsda w = Inr (go, e, l, w') \<Longrightarrow> go \<and> w' = w"
  by (induction aug arbitrary: data enc lsda) (auto simp: bindR_eq_Inr ref_visitor_def split: if_splits)

lemma ref_visitor_simps [simp]:
  "vStartFDE (ref_visitor b) r s e w = Inr (True, w\<lparr>ref_loc := s - b, ref_begin := s - b, ref_end := e - b\<rparr>)"
  "vAfterCIE (ref_visitor b) w = Inr (True, w\<lparr>ref_cie := snd (ref_rules w)\<rparr>)"
  "vHandleLSDA (ref_visitor b) x w = Inr (True, w)"
  by (simp_all add: ref_visitor_def)

lemma ParseFDEBody_ref:
  assumes "ParseFDEBody mem (ref_visitor b) inp True cie sl w = Inr w'"
  shows "ref_loc w' = ref_end w'"
proof -
  have "res_sim (\<lambda>_ y. ref_loc y = ref_end y)
      (ParseFDEBody mem (ref_visitor b) inp True cie sl w) (ParseFDEBody mem (ref_visitor b) inp True cie sl w)"
    unfolding ParseFDEBody_def Let_def
    by (intro res_sim_if res_sim_same res_sim_prod res_sim_Inl)
      (auto simp: res_sim_Inr bindR_eq_Inr split: if_splits dest!: RunInstructions_ref)
  with assms show ?thesis by (simp add: res_sim_def)
qed

lemma ParseCIE_ref:
  assumes "ParseCIE mem (ref_visitor b) sl w = Inr (go, cie, w')"
  shows "go"
proof -
  have "res_sim (\<lambda>_ y. fst y) (ParseCIE mem (ref_visitor b) sl w) (ParseCIE mem (ref_visitor b) sl w)"
    unfolding ParseCIE_def
    by (intro res_sim_if res_sim_same res_sim_prod res_sim_Inl)
      (auto split: list.split intro!: res_sim_same res_sim_Inr dest: ParseAug_ref)
  with assms show ?thesis by (simp add: res_sim_def)
qed

lemma DecodeFDEAt_ref:
  assumes "DecodeFDEAt mem (ref_visitor b) inp fde w = Inr w'"
  shows "ref_loc w' = ref_end w'"
proof -
  obtain fs cie sl go w1 where c: "ParseCIE mem (ref_visitor b) sl w = Inr (go, cie, w1)"
    "(if \<not> go then Inr w1 else ParseFDEBody mem (ref_visitor b) inp True cie fs w1) = Inr w'"
    using assms by (auto simp: DecodeFDEAt_def ParseFDE_def bindR_eq_Inr split: if_splits)
  with ParseCIE_ref [OF c(1)] show ?thesis by (auto intro: ParseFDEBody_ref)
qed

lemma table_start: "fresh_rel b (TableBuilder0 fde b) reference0"
  by (auto simp: fresh_rel_def builder_rel_def TableBuilder0_def reference0_def stack_rel_def regs_rel_def)

text \<open>C7. The row table of an FDE means what the FDE means: whenever the reference semantics accepts the
  call-frame program of an FDE, \<open>ReadFDE\<close> succeeds with the same address range, and at every address
  of the range \<open>RowAt\<close> finds a row exactly where the reference has rules, and the row states those
  rules for the CFA and all seventeen registers.\<close>

theorem ReadFDE_refines_reference:
  assumes "DecodeFDEAt mem (ref_visitor b)
      \<lparr>lookup_pc = 0, eh_frame_hdr = 0, eh_frame_start = eh_start + b, eh_frame_end = eh_end + b\<rparr> (fde + b) reference0 = Inr w"
  shows "\<exists>c. ReadFDE mem fde eh_start eh_end b = Inr c \<and> pc_begin c = ref_begin w \<and> pc_end c = ref_end w \<and>
     (\<forall>pc. ref_begin w \<le> pc \<and> pc < ref_end w \<longrightarrow> rel_option row_rel (RowAt c pc) (ref_table w pc))"
proof -
  obtain v where v: "DecodeFDEAt mem table_builder
      \<lparr>lookup_pc = 0, eh_frame_hdr = 0, eh_frame_start = eh_start + b, eh_frame_end = eh_end + b\<rparr> (fde + b) (TableBuilder0 fde b) = Inr v"
    "builder_rel b v w"
    using res_simD [OF row_table.ParseFDE_sim [OF table_start]] assms unfolding DecodeFDEAt_def fresh_rel_def by blast
  have loc: "ref_loc w = ref_end w" by (rule DecodeFDEAt_ref [OF assms])
  note r = v(2) [unfolded builder_rel_def loc]
  have "\<not> (rows (result v) = [] \<and> pc_end (result v) > pc_begin (result v))" using r by auto
  then have "ReadFDE mem fde eh_start eh_end b = Inr (result v)" using v(1) by (auto simp: ReadFDE_def Let_def)
  moreover have "rel_option row_rel (RowAt (result v) pc) (ref_table w pc)" if "ref_begin w \<le> pc" "pc < ref_end w" for pc
    using that r by (auto simp: RowAt_def not_le split: if_splits)
  ultimately show ?thesis using r by blast
qed


text \<open>A section of one CIE and one FDE at address \<open>0x100\<close>, for the function
  \<open>push %rbp; pop %rbp; ret\<close> at \<open>0x1000\<close>.\<close>

fun bytes_at :: "u64 \<Rightarrow> u8 list \<Rightarrow> memory" where
  "bytes_at a [] x = 0"
| "bytes_at a (b # bs) x = (if x = a then b else bytes_at (a + 1) bs x)"

definition sample_section :: "u8 list" where
  "sample_section =
     [0x0e, 0, 0, 0, 0, 0, 0, 0, 1, 0, 1, 0x78, 16, 0x0c, 7, 8, 0x90, 1,
      0x1d, 0, 0, 0, 0x16, 0, 0, 0, 0, 0x10, 0, 0, 0, 0, 0, 0, 3, 0, 0, 0, 0, 0, 0, 0,
      0x41, 0x0e, 16, 0x86, 2, 0x41, 0x0e, 8, 0xc6]"

lemma sample_reference:
  "case DecodeFDEAt (bytes_at 0x100 sample_section) (ref_visitor 0)
      \<lparr>lookup_pc = 0, eh_frame_hdr = 0, eh_frame_start = 0x100 + 0, eh_frame_end = 0x133 + 0\<rparr> (0x112 + 0) reference0 of
     Inl _ \<Rightarrow> False
   | Inr w \<Rightarrow> ref_begin w = 0x1000 \<and> ref_end w = 0x1003 \<and> map_option fst (ref_table w 0x1001) = Some (RegOffset 7 16)"
  by code_simp

theorem ReadFDE_refines_reference_witness:
  "\<exists>c row. ReadFDE (bytes_at 0x100 sample_section) 0x112 0x100 0x133 0 = Inr c \<and> pc_begin c = 0x1000 \<and> pc_end c = 0x1003 \<and>
     RowAt c 0x1001 = Some row \<and> row_cfa row = RegOffset 7 16"
proof -
  obtain w where w: "DecodeFDEAt (bytes_at 0x100 sample_section) (ref_visitor 0)
      \<lparr>lookup_pc = 0, eh_frame_hdr = 0, eh_frame_start = 0x100 + 0, eh_frame_end = 0x133 + 0\<rparr> (0x112 + 0) reference0 = Inr w"
    "ref_begin w = 0x1000" "ref_end w = 0x1003" "map_option fst (ref_table w 0x1001) = Some (RegOffset 7 16)"
    using sample_reference by (auto split: sum.splits)
  obtain c where c: "ReadFDE (bytes_at 0x100 sample_section) 0x112 0x100 0x133 0 = Inr c" "pc_begin c = 0x1000" "pc_end c = 0x1003"
    "rel_option row_rel (RowAt c 0x1001) (ref_table w 0x1001)"
    using ReadFDE_refines_reference [OF w(1)] w(2,3) by auto
  with w(4) show ?thesis by (auto simp: row_rel_def option_rel_Some2)
qed

definition backward_section :: "u8 list" where
  "backward_section =
     [0x17, 0, 0, 0, 0, 0, 0, 0, 1, 0, 0xff, 0xff, 0xff, 0xff, 0xff, 0xff, 0xff, 0xff, 0xff, 1, 0x78, 16, 0x0c, 7, 8, 0x90, 1,
      0x27, 0, 0, 0, 0x1f, 0, 0, 0, 0, 0x10, 0, 0, 0, 0, 0, 0, 4, 0, 0, 0, 0, 0, 0, 0,
      1, 2, 0x10, 0, 0, 0, 0, 0, 0, 1, 3, 0x10, 0, 0, 0, 0, 0, 0, 0x42]"

definition backward_cie :: CIEInfo where
  "backward_cie = \<lparr>cie_code_align = - 1, cie_data_align = - 8, cie_return_reg = 16, cie_fde_ptr_enc = DW_EH_PE_absptr,
     cie_lsda_ptr_enc = DW_EH_PE_omitted, cie_aug_z = False, cie_insns = \<lparr>sl_data = 0x116, sl_size = 5\<rparr>\<rparr>"

abbreviation backward_inputs :: EHReaderInputs where
  "backward_inputs \<equiv> \<lparr>lookup_pc = 0, eh_frame_hdr = 0, eh_frame_start = 0x100, eh_frame_end = 0x146\<rparr>"

lemma backward_words:
  "ReadU32 (bytes_at 0x100 backward_section) \<lparr>sl_data = 0x11b, sl_size = 43\<rparr> = Inr (0x27, \<lparr>sl_data = 0x11f, sl_size = 39\<rparr>)"
  "ReadU32 (bytes_at 0x100 backward_section) \<lparr>sl_data = 0x11f, sl_size = 39\<rparr> = Inr (0x1f, \<lparr>sl_data = 0x123, sl_size = 35\<rparr>)"
  by code_simp+

lemma backward_ParseCIE:
  "ParseCIE (bytes_at 0x100 backward_section) table_builder \<lparr>sl_data = 0x100, sl_size = 70\<rparr> (TableBuilder0 0x11b 0) =
     Inr (True, backward_cie, TableBuilder0 0x11b 0)"
  by code_simp

lemma backward_ParseFDEBody:
  "case ParseFDEBody (bytes_at 0x100 backward_section) table_builder backward_inputs True backward_cie
      \<lparr>sl_data = 0x123, sl_size = 35\<rparr> (TableBuilder0 0x11b 0) of
     Inl _ \<Rightarrow> False
   | Inr v \<Rightarrow> map pc_start (rows (result v)) = [0x1000, 0x1002, 0x1001]"
  by code_simp

lemma backward_ReadFDE:
  obtains c where "ReadFDE (bytes_at 0x100 backward_section) 0x11b 0x100 0x146 0 = Inr c" "map pc_start (rows c) = [0x1000, 0x1002, 0x1001]"
proof -
  obtain v where v: "ParseFDEBody (bytes_at 0x100 backward_section) table_builder backward_inputs True backward_cie
      \<lparr>sl_data = 0x123, sl_size = 35\<rparr> (TableBuilder0 0x11b 0) = Inr v"
    "map pc_start (rows (result v)) = [0x1000, 0x1002, 0x1001]"
    using backward_ParseFDEBody by (auto split: sum.splits)
  have "DecodeFDEAt (bytes_at 0x100 backward_section) table_builder backward_inputs 0x11b (TableBuilder0 0x11b 0) = Inr v"
    unfolding DecodeFDEAt_def ParseFDE_def MakeSlice_def
    by (simp add: backward_words backward_ParseCIE TruncateSlice_def v(1) del: bytes_at.simps)
  moreover from v(2) have "rows (result v) \<noteq> []" by auto
  ultimately show ?thesis using that [of "result v"] v(2) by (auto simp: ReadFDE_def)
qed

text \<open>C38. The rows of a table need not be sorted, as the look-up in \<open>RowAt\<close> (a binary search) presumes: an
  \<open>advance_loc\<close> may wrap around the address space and so move backwards, which \<open>set_loc\<close> is
  checked not to do. In the section here the code alignment factor is \<open>2^64 - 1\<close>.\<close>

theorem ReadFDE_rows_unsorted:
  "\<exists>c. ReadFDE (bytes_at 0x100 backward_section) 0x11b 0x100 0x146 0 = Inr c \<and>
     map pc_start (rows c) = [0x1000, 0x1002, 0x1001] \<and> \<not> sorted (map pc_start (rows c))"
proof -
  obtain c where "ReadFDE (bytes_at 0x100 backward_section) 0x11b 0x100 0x146 0 = Inr c" "map pc_start (rows c) = [0x1000, 0x1002, 0x1001]"
    by (rule backward_ReadFDE)
  then show ?thesis by (intro exI [of _ c]) simp
qed

subsection \<open>Well-formed tables\<close>

definition reg_rule_ok :: "RegRule \<Rightarrow> bool" where
  "reg_rule_ok r \<longleftrightarrow> rule_reg r < 256 \<and> in_int64 (rule_offset r)"

definition cfa_rule_ok :: "CFARule \<Rightarrow> bool" where
  "cfa_rule_ok c \<longleftrightarrow> cfa_reg c < 256 \<and> in_int64 (cfa_offset c)"

definition regs_ok :: "RegRule list \<Rightarrow> bool" where
  "regs_ok rs \<longleftrightarrow> length rs = kNumDWARFRegs \<and> (\<forall>r \<in> set rs. reg_rule_ok r)"

definition row_ok :: "CFIRow \<Rightarrow> bool" where
  "row_ok row \<longleftrightarrow> cfa_rule_ok (row_cfa row) \<and> regs_ok (row_regs row)"

definition builder_ok :: "TableBuilder \<Rightarrow> bool" where
  "builder_ok b \<longleftrightarrow> cfa_rule_ok (cur_cfa b) \<and> regs_ok (cur_regs b) \<and> regs_ok (cie_regs b) \<and> length (stack b) \<le> 32 \<and>
     (\<forall>(cfa, regs) \<in> set (stack b). cfa_rule_ok cfa \<and> regs_ok regs) \<and> (\<forall>row \<in> set (rows (result b)). row_ok row)"

lemma reg_rule_ok_intros [simp]:
  "reg_rule_ok \<lparr>rule_kind = k, rule_reg = 0, rule_offset = sint (w :: u64)\<rparr>" "reg_rule_ok \<lparr>rule_kind = k, rule_reg = 0, rule_offset = 0\<rparr>"
  "reg_rule_ok \<lparr>rule_kind = k, rule_reg = to_u8 q, rule_offset = 0\<rparr>"
  by (simp_all add: reg_rule_ok_def in_int64_sint to_u8_def) (simp_all add: in_int64_def)

lemma regs_ok_update: "regs_ok rs \<Longrightarrow> reg_rule_ok r \<Longrightarrow> regs_ok (rs[i := r])"
  using set_update_subset_insert [of rs i r] by (auto simp: regs_ok_def)

lemma builder_ok_SetRule [simp]: "builder_ok b \<Longrightarrow> reg_rule_ok r \<Longrightarrow> cb_inv builder_ok (SetRule q r b)"
  by (simp add: SetRule_def builder_ok_def regs_ok_update)

lemma builder_ok_HandleSetLoc [simp]: "builder_ok b \<Longrightarrow> cb_inv builder_ok (HandleSetLoc l b)"
  by (cases "row_pc b < l - bias b") (auto simp: HandleSetLoc_def builder_ok_def row_ok_def Let_def)

lemma builder_ok_HandleRestore [simp]: "builder_ok b \<Longrightarrow> cb_inv builder_ok (HandleRestore q b)"
proof (cases "unat q < kNumDWARFRegs")
  case True
  assume ok: "builder_ok b"
  with True have "reg_rule_ok (cie_regs b ! unat q)" by (simp add: builder_ok_def regs_ok_def)
  moreover have "HandleRestore q b = SetRule q (cie_regs b ! unat q) b" by (simp add: HandleRestore_def SetRule_def)
  ultimately show ?thesis using ok by simp
qed (simp add: HandleRestore_def builder_ok_def)

lemma builder_ok_cfa:
  assumes "builder_ok b"
  shows "cb_inv builder_ok (HandleDefCFA x y b)" "cb_inv builder_ok (HandleDefCFAReg x b)" "cb_inv builder_ok (HandleDefCFAOffset x b)"
    "cb_inv builder_ok (HandleDefCFAExpression e b)"
  using assms by (simp_all add: HandleDefCFA_def HandleDefCFAReg_def HandleDefCFAOffset_def HandleDefCFAExpression_def builder_ok_def
      cfa_rule_ok_def to_u8_def in_int64_sint) (simp add: in_int64_def)

lemma builder_ok_plain:
  assumes "builder_ok b"
  shows "cb_inv builder_ok (StartFDE x y z b)" "cb_inv builder_ok (HandleAugS b)" "cb_inv builder_ok (AfterCIE b)"
    "cb_inv builder_ok (HandleLSDA x b)" "cb_inv builder_ok (HandleRememberState b)" "cb_inv builder_ok (HandleRestoreState b)"
  using assms by (auto simp: StartFDE_def HandleAugS_def AfterCIE_def HandleLSDA_def HandleRememberState_def HandleRestoreState_def
      builder_ok_def split: list.split)

interpretation table_inv: visitor_invariant table_builder builder_ok
  by unfold_locales (auto simp: table_builder_def builder_ok_cfa builder_ok_plain HandleOffset_def HandleRegister_def
      HandleSameValue_def HandleUndefined_def HandleValOffset_def HandleExpression_def HandleValExpression_def)

lemma builder_ok_start: "builder_ok (TableBuilder0 fde b)"
  by (simp add: builder_ok_def TableBuilder0_def cfa_rule_ok_def regs_ok_def CFARule0_def RegRule0_def reg_rule_ok_def in_int64_def)



end
