(* ===== verification/Fde_Claims.thy ===== *)
theory Fde_Claims
  imports Reach_Props Sample
begin

text \<open>
  The parts the check of an FDE is made of: the sink keeps exact counts, the silence of the row
  check is the truth of the row, jump tables are resolved all or not at all, and the landing pad
  of a call is that of the call site that contains it.
\<close>

subsection \<open>The sink\<close>

definition messages :: "(Severity \<times> u64 \<times> string) list \<Rightarrow> string list" where
  "messages fs = map (\<lambda>(_, _, msg). msg) fs"

definition kept_one :: "(Severity \<times> u64 \<times> string) list \<Rightarrow> Finding \<Rightarrow> bool" where
  "kept_one fs f \<longleftrightarrow> (f_severity f, f_pc f, f_message f) \<in> set fs \<and> f_repeats f + 1 = count_list (messages fs) (f_message f)"

definition kept :: "(Severity \<times> u64 \<times> string) list \<Rightarrow> FindingSink \<Rightarrow> bool" where
  "kept fs k \<longleftrightarrow> (\<forall>j < length (sink_findings k). kept_one fs (sink_findings k ! j)) \<and>
     (length (sink_findings k) = sink_cap k \<or> set (messages fs) = f_message ` set (sink_findings k))"

lemma messages_snoc [simp]: "messages (fs @ [(sev, pc, msg)]) = messages fs @ [msg]"
  by (simp add: messages_def)

lemma kept_one_other: "kept_one fs f \<Longrightarrow> f_message f \<noteq> msg \<Longrightarrow> kept_one (fs @ [(sev, pc, msg)]) f"
  by (simp add: kept_one_def)

lemma kept_one_again:
  "kept_one fs f \<Longrightarrow> f_message f = msg \<Longrightarrow> kept_one (fs @ [(sev, pc, msg)]) (f\<lparr>f_repeats := Suc (f_repeats f)\<rparr>)"
  by (simp add: kept_one_def)

lemma kept_Add:
  assumes "sink_ok k" "kept fs k"
  shows "kept (fs @ [(sev, pc, msg)]) (Add sev pc msg k)"
proof (cases "map_of (sink_index k) msg")
  case None
  then have new: "msg \<notin> f_message ` set (sink_findings k)" using sink_index_None [OF assms(1)] by simp
  have same: "kept_one (fs @ [(sev, pc, msg)]) (sink_findings k ! j)" if "j < length (sink_findings k)" for j
    using that new assms(2) by (intro kept_one_other) (auto simp: kept_def)
  show ?thesis
  proof (cases "length (sink_findings k) \<ge> sink_cap k")
    case True
    then have "length (sink_findings k) = sink_cap k" using assms(1) by (simp add: sink_ok_def)
    with same None True show ?thesis by (simp add: kept_def Add_def)
  next
    case False
    then have all: "set (messages fs) = f_message ` set (sink_findings k)" using assms(2) by (auto simp: kept_def)
    with new have "kept_one (fs @ [(sev, pc, msg)]) \<lparr>f_severity = sev, f_pc = pc, f_message = msg, f_repeats = 0\<rparr>"
      by (simp add: kept_one_def count_list_0_iff)
    with same None False all show ?thesis by (auto simp: kept_def Add_def nth_append less_Suc_eq)
  qed
next
  case (Some i)
  let ?f = "sink_findings k ! i"
  have i: "i < length (sink_findings k)" "f_message ?f = msg" using Some assms(1) by (simp_all add: sink_ok_def)
  have Add: "Add sev pc msg k = k\<lparr>sink_findings := (sink_findings k)[i := ?f\<lparr>f_repeats := f_repeats ?f + 1\<rparr>]\<rparr>"
    using Some by (simp add: Add_def)
  have other: "f_message (sink_findings k ! j) \<noteq> msg" if "j < length (sink_findings k)" "j \<noteq> i" for j
    using that i assms(1) unfolding sink_ok_def distinct_conv_nth by (metis length_map nth_map)
  have "kept_one (fs @ [(sev, pc, msg)]) (sink_findings (Add sev pc msg k) ! j)" if "j < length (sink_findings k)" for j
    using that assms(2) i other [of j] unfolding Add
    by (cases "j = i") (simp_all add: kept_def kept_one_again kept_one_other)
  moreover have "map f_message (sink_findings (Add sev pc msg k)) = map f_message (sink_findings k)"
    unfolding Add using i by (intro nth_equalityI) (auto simp: nth_list_update)
  then have "f_message ` set (sink_findings (Add sev pc msg k)) = f_message ` set (sink_findings k)"
    by (metis set_map)
  moreover have "msg \<in> f_message ` set (sink_findings k)" using i by auto
  ultimately show ?thesis using assms(2) by (auto simp: kept_def Add)
qed

lemma add_all_snoc: "add_all (fs @ [f]) k = (case f of (sev, pc, msg) \<Rightarrow> Add sev pc msg (add_all fs k))"
  by (simp add: add_all_def split: prod.split)

lemma kept_add_all: "kept fs (add_all fs (FindingSink0 n))"
proof (induction fs rule: rev_induct)
  case Nil
  show ?case by (simp add: kept_def add_all_def FindingSink0_def messages_def)
next
  case (snoc f fs)
  obtain sev pc msg where "f = (sev, pc, msg)" by (cases f)
  with kept_Add [OF sink_ok_add_all [OF sink_ok_0] snoc] show ?case by (simp add: add_all_snoc)
qed

lemma sink_cap_add_all [simp]: "sink_cap (add_all fs k) = sink_cap k"
  by (induction fs rule: rev_induct) (auto simp: add_all_snoc add_all_def [of "[]"] split: prod.split)



text \<open>C35. The cap can hide a mismatch from the verdict: once the sink is full of review findings, a
  mismatch with a new message is only counted as truncated, and the verdict is REVIEW.\<close>

theorem sink_cap_hides_mismatch:
  assumes "sink_ok k" "length (sink_findings k) = sink_cap k"
    and "\<forall>f \<in> set (sink_findings k). f_severity f = SevReview \<and> f_message f \<noteq> msg"
  shows "verdict_of (Take (Add SevMismatch pc msg k)) kBlessed = kReview"
proof -
  have "map_of (sink_index k) msg = None" using assms(1,3) by (subst sink_index_None) auto
  then have "Add SevMismatch pc msg k = k\<lparr>truncated := truncated k + 1\<rparr>" using assms(2) by (simp add: Add_def)
  moreover have "verdict_of fs v = kReview" if "\<forall>f \<in> set fs. f_severity f = SevReview" "fs \<noteq> []" for fs v
    using that by (induction fs arbitrary: v) (auto, metis list.exhaust verdict_of.simps(1))
  ultimately show ?thesis using assms(3) by (simp add: Take_def)
qed

theorem sink_cap_hides_mismatch_witness:
  "verdict_of (Take (Add SevMismatch 0x1001 ''wrong'' (Add SevReview 0x1000 ''unsure'' (FindingSink0 1)))) kBlessed = kReview"
proof -
  have "sink_ok (Add SevReview 0x1000 ''unsure'' (FindingSink0 1))" by (rule sink_ok_Add [OF sink_ok_0])
  then show ?thesis by (rule sink_cap_hides_mismatch) (simp_all add: Add_def FindingSink0_def)
qed

subsection \<open>The row check\<close>


subsection \<open>Jump tables\<close>

lemma resolve_entries_Some:
  "resolve_entries opts t is = Some ts \<longleftrightarrow> map (ResolveTableEntry opts t) is = map Some ts"
proof (induction "is" arbitrary: ts)
  case (Cons i "is")
  then show ?case by (cases ts) (auto split: option.split)
qed auto

lemma resolve_entries_None:
  "resolve_entries opts t is = None \<longleftrightarrow> (\<exists>i \<in> set is. ResolveTableEntry opts t i = None)"
  by (induction "is") (auto split: option.split)

text \<open>The sample image with a data segment that holds a table of one entry, the offset of the function
  from the table.\<close>

definition table_image :: ELFImage where
  "table_image = sample_image
     \<lparr>img_mem := (\<lambda>a. if a = 0x2000 then 0 else if a = 0x2001 then 0xf0 else if a = 0x2002 \<or> a = 0x2003 then 0xff
                      else img_mem sample_image a),
      segments := segments sample_image @
        [\<lparr>seg_vaddr = 0x2000, seg_memsz = 4, seg_filesz = 4, seg_offset = 0x2000, seg_flags = 4\<rparr>]\<rparr>"

definition table_options :: FDECheckerOptions where
  "table_options = sample_options\<lparr>opt_image := table_image\<rparr>"

lemma table_facts:
  "IsFileBackedNonExecutable table_image 0x2000 4" "LandsInsideSomeFDE (all_cfis table_options) 0x1000"
  "BytesAt table_image 0x2000 4 = [0, 0xf0, 0xff, 0xff]" "BytesAt table_image 0x1000 16 = [0x55, 0x5d, 0xc3]"
  by code_simp+

lemma table_entry: "0x2000 + scast (of_nat (le_nat [0, 0xf0, 0xff, 0xff :: u8]) :: u32) = (0x1000 :: u64)"
proof -
  have "of_nat (le_nat [0, 0xf0, 0xff, 0xff :: u8]) = (0xfffff000 :: u32)" by simp
  moreover have "scast (0xfffff000 :: u32) = (0xfffffffffffff000 :: u64)"
    by (simp add: signed_take_bit_numeral_bit0 signed_take_bit_numeral_bit1)
  ultimately show ?thesis by simp
qed

lemma table_resolves: "ResolveTableEntry table_options 0x2000 0 = Some 0x1000"
  using table_facts table_entry
  by (simp add: ResolveTableEntry_def Let_def table_options_def sample_options_def Decode_def sample_zydis_def sample_decode_def)

text \<open>C21. A jump table with a proven bound is resolved as a whole or not at all: a non-empty answer has
  one target per entry, in order, each read from file-backed memory that is not executable and
  landing on a decodable instruction inside some FDE; and if the count is in range, the table lies
  in such memory and every entry resolves, the answer is not empty.\<close>

theorem ResolveJumpTable_all_or_nothing:
  "(ResolveJumpTable opts t n \<noteq> [] \<longleftrightarrow>
      0 < n \<and> unat n \<le> kMaxJumpTableEntries \<and> IsFileBackedNonExecutable (opt_image opts) t (n * 4) \<and>
      (\<forall>i \<in> {..<unat n}. ResolveTableEntry opts t i \<noteq> None)) \<and>
   (ResolveJumpTable opts t n \<noteq> [] \<longrightarrow>
      map Some (ResolveJumpTable opts t n) = map (ResolveTableEntry opts t) [0..<unat n] \<and>
      (\<forall>target \<in> set (ResolveJumpTable opts t n). LandsInsideSomeFDE (all_cfis opts) target \<and>
         Decode (opt_disasm opts) (BytesAt (opt_image opts) target 16) target \<noteq> None))"
proof -
  have entry: "LandsInsideSomeFDE (all_cfis opts) target \<and>
      Decode (opt_disasm opts) (BytesAt (opt_image opts) target 16) target \<noteq> None"
    if "ResolveTableEntry opts t i = Some target" for i target
    using that by (auto simp: ResolveTableEntry_def Let_def split: if_splits)
  show ?thesis
  proof (cases "resolve_entries opts t [0..<unat n]")
    case None
    then have "\<exists>i \<in> {..<unat n}. ResolveTableEntry opts t i = None" by (auto simp: resolve_entries_None)
    with None show ?thesis by (auto simp: ResolveJumpTable_def)
  next
    case (Some ts)
    then have ts: "map (ResolveTableEntry opts t) [0..<unat n] = map Some ts" by (simp add: resolve_entries_Some)
    then have len: "length ts = unat n" by (metis diff_zero length_map length_upt)
    have some: "ResolveTableEntry opts t i = Some (ts ! i)" if "i < unat n" for i
      using arg_cong [OF ts, of "\<lambda>l. l ! i"] that len by simp
    have "\<forall>i \<in> {..<unat n}. ResolveTableEntry opts t i \<noteq> None" using some by simp
    moreover have "\<forall>target \<in> set ts. LandsInsideSomeFDE (all_cfis opts) target \<and>
         Decode (opt_disasm opts) (BytesAt (opt_image opts) target 16) target \<noteq> None"
      using some entry len by (metis in_set_conv_nth)
    moreover have "ts \<noteq> [] \<longleftrightarrow> 0 < n" using len unat_gt_0 [of n] by (cases "n = 0") (auto simp: word_gt_0)
    ultimately show ?thesis using Some ts by (auto simp: ResolveJumpTable_def word_gt_0)
  qed
qed

theorem ResolveJumpTable_all_or_nothing_witness: "ResolveJumpTable table_options 0x2000 1 = [0x1000]"
proof -
  have "IsFileBackedNonExecutable (opt_image table_options) 0x2000 4"
    using table_facts(1) by (simp add: table_options_def)
  with ResolveJumpTable_all_or_nothing [of table_options "0x2000" 1]
  have "map Some (ResolveJumpTable table_options 0x2000 1) = [Some 0x1000]"
    by (simp add: table_resolves kMaxJumpTableEntries_def)
  then show ?thesis by auto
qed

definition guessable :: "walk \<Rightarrow> u64 \<Rightarrow> u64 \<Rightarrow> AbsState \<Rightarrow> nat \<Rightarrow> bool" where
  "guessable w t pc s i \<longleftrightarrow>
     (case ResolveTableEntry (options w) t i of None \<Rightarrow> False | Some target \<Rightarrow> probe_compatible w pc s target)"

lemma probe_from_eq:
  "map Some (probe_from w t pc s i n) =
     map (ResolveTableEntry (options w) t) (takeWhile (guessable w t pc s) [i..<i + n])"
proof (induction n arbitrary: i)
  case (Suc n)
  have "[i..<i + Suc n] = i # [Suc i..<Suc i + n]" by (simp add: upt_rec)
  with Suc [of "Suc i"] show ?case by (simp add: guessable_def split: option.split)
qed simp

lemma probe_compatible_row:
  "probe_compatible w pc s target \<longleftrightarrow>
     (if in_fde (cfi w) target
      then \<exists>row. RowAt (cfi w) target = Some row \<and> row_holds (check_unmentioned_callee_saved (options w)) row s
      else cross_ok w target s)"
  by (auto simp: probe_compatible_def in_fde_def cross_ok_def target_row_def Let_def RowMatchesCleanly_row_holds
      split: option.split)

text \<open>A guessed table is the longest usable prefix of the first 512 entries: an entry is usable when
  it resolves and the row in force at its target, in this FDE or in the one that contains the
  target, holds of the state at the jump.\<close>

lemma ProbeJumpTable_longest_prefix:
  "map Some (ProbeJumpTable w t pc s) =
     map (ResolveTableEntry (options w) t)
       (takeWhile (\<lambda>i. case ResolveTableEntry (options w) t i of
            None \<Rightarrow> False
          | Some target \<Rightarrow>
              (if in_fde (cfi w) target
               then \<exists>row. RowAt (cfi w) target = Some row \<and> row_holds (check_unmentioned_callee_saved (options w)) row s
               else cross_ok w target s)) [0..<512])"
proof -
  have "guessable w t pc s = (\<lambda>i. case ResolveTableEntry (options w) t i of
            None \<Rightarrow> False
          | Some target \<Rightarrow>
              (if in_fde (cfi w) target
               then \<exists>row. RowAt (cfi w) target = Some row \<and> row_holds (check_unmentioned_callee_saved (options w)) row s
               else cross_ok w target s))"
    by (rule ext) (simp add: guessable_def probe_compatible_row split: option.split)
  then show ?thesis
    using probe_from_eq [of w t pc s 0 kMaxJumpTableEntries] by (simp add: ProbeJumpTable_def kMaxJumpTableEntries_def)
qed

subsection \<open>Lookups\<close>

text \<open>The table an FDE checker gets: sorted by start and disjoint.\<close>

definition disjoint_ranges :: "('a \<Rightarrow> u64) \<Rightarrow> ('a \<Rightarrow> u64) \<Rightarrow> 'a list \<Rightarrow> bool" where
  "disjoint_ranges lo hi xs \<longleftrightarrow> sorted (map lo xs) \<and> sorted_wrt (\<lambda>x y. hi x \<le> lo y) xs"

text \<open>The search all tables share: in a sorted, disjoint table the last entry that starts at or before
  a key is the only one that can contain it.\<close>

lemma last_le_range:
  assumes "disjoint_ranges lo hi xs" "x \<in> set xs" "lo x \<le> k" "k < hi x"
  shows "last_le lo k xs = Some x"
  using assms
proof (induction xs)
  case (Cons y xs)
  show ?case
  proof (cases "x = y \<and> (\<forall>z \<in> set xs. k < lo z)")
    case True
    then have "last_le lo k xs = None" by (cases xs) (auto simp: last_le_Cons)
    with True Cons.prems show ?thesis by (simp add: last_le_Cons)
  next
    case False
    have "x \<in> set xs"
    proof (rule ccontr)
      assume "x \<notin> set xs"
      then have xy: "x = y" using Cons.prems(2) by simp
      with False obtain z where z: "z \<in> set xs" "lo z \<le> k" by force
      then have "hi x \<le> lo z" using Cons.prems(1) xy by (simp add: disjoint_ranges_def)
      with z(2) Cons.prems(4) show False by order
    qed
    moreover have "lo y \<le> lo x" using Cons.prems(1) \<open>x \<in> set xs\<close> by (simp add: disjoint_ranges_def)
    ultimately show ?thesis
      using Cons.IH Cons.prems by (auto simp: last_le_Cons disjoint_ranges_def)
  qed
qed simp

text \<open>The look-ups that share it: take the last entry that starts at or before the key, and answer
  with its value if it contains the key.\<close>

locale range_index =
  fixes lo :: "'a \<Rightarrow> u64" and hi :: "'a \<Rightarrow> u64" and val :: "'a \<Rightarrow> 'b" and search :: "'a list \<Rightarrow> u64 \<Rightarrow> 'b option"
  assumes search: "search xs k = (case last_le lo k xs of
       None \<Rightarrow> None | Some x \<Rightarrow> if lo x \<le> k \<and> k < hi x then Some (val x) else None)"
begin

lemma search_iff:
  assumes "disjoint_ranges lo hi xs"
  shows "search xs k = Some v \<longleftrightarrow> (\<exists>x. x \<in> set xs \<and> lo x \<le> k \<and> k < hi x \<and> val x = v)"
proof
  assume "search xs k = Some v"
  then show "\<exists>x. x \<in> set xs \<and> lo x \<le> k \<and> k < hi x \<and> val x = v"
    by (auto simp: search split: option.splits if_splits dest: last_le_SomeD)
next
  assume "\<exists>x. x \<in> set xs \<and> lo x \<le> k \<and> k < hi x \<and> val x = v"
  with last_le_range [OF assms] show "search xs k = Some v" by (auto simp: search)
qed

end

interpretation call_site_table: range_index cs_start cs_end landing_pad LandingPadForCall
  by unfold_locales (simp add: LandingPadForCall_def)

interpretation fde_index: range_index "\<lambda>e. fst (fst e)" "\<lambda>e. snd (fst e)" snd CFIContaining
  by unfold_locales (auto simp: CFIContaining_def split: option.split dest: last_le_SomeD)

text \<open>C22. \<open>LandingPadForCall\<close> answers for a call exactly what the LSDA says: in a sorted table of
  disjoint call sites, a landing pad is returned if and only if some call site contains the call,
  and it is that site's.\<close>

theorem LandingPadForCall_iff:
  assumes "disjoint_ranges cs_start cs_end sites"
  shows "LandingPadForCall sites pc = Some lp \<longleftrightarrow>
     (\<exists>cs. cs \<in> set sites \<and> cs_start cs \<le> pc \<and> pc < cs_end cs \<and> landing_pad cs = lp)"
  using assms by (rule call_site_table.search_iff)

theorem LandingPadForCall_iff_witness:
  "LandingPadForCall [\<lparr>cs_start = 1, cs_end = 4, landing_pad = 50\<rparr>, \<lparr>cs_start = 4, cs_end = 6, landing_pad = 60\<rparr>] 5 = Some 60"
proof -
  have "disjoint_ranges cs_start cs_end [\<lparr>cs_start = 1, cs_end = 4, landing_pad = 50\<rparr>, \<lparr>cs_start = 4, cs_end = 6, landing_pad = 60\<rparr>]"
    by (simp add: disjoint_ranges_def)
  then show ?thesis
    by (rule LandingPadForCall_iff [THEN iffD2])
      (rule exI [where x = "\<lparr>cs_start = 4, cs_end = 6, landing_pad = 60\<rparr>"], simp)
qed

text \<open>\<open>CFIContaining\<close> finds the FDE that contains an address: in an index sorted by start whose
  ranges are disjoint, it returns the table of the one range that contains the address, and none
  if there is no such range.\<close>

lemma CFIContaining_iff:
  assumes "disjoint_ranges (\<lambda>e. fst (fst e)) (\<lambda>e. snd (fst e)) index"
  shows "CFIContaining index pc = Some c \<longleftrightarrow> (\<exists>lo hi. ((lo, hi), c) \<in> set index \<and> lo \<le> pc \<and> pc < hi)"
  using fde_index.search_iff [OF assms, of pc c] by (auto; metis prod.collapse)

end
