(* ===== verification/Driver_Props.thy ===== *)
theory Driver_Props
  imports Driver Light_Props Table_Props Fde_Claims "HOL-Library.Multiset"
begin

text \<open>
  The driver: the summary counts and the exit code, the structural checks, the listing, and what a
  run with exit code 0 guarantees of every FDE of the image.
\<close>

subsection \<open>Summary and exit code\<close>

definition verdicts :: "Verdict \<Rightarrow> FDEResult list \<Rightarrow> nat" where
  "verdicts v rs = length (filter (\<lambda>r. verdict r = v) rs)"

lemma fold_count_verdict:
  "n_blessed (fold count_verdict rs s) = n_blessed s + verdicts kBlessed rs \<and>
   n_review_light (fold count_verdict rs s) = n_review_light s + verdicts kReviewLight rs \<and>
   n_review (fold count_verdict rs s) = n_review s + verdicts kReview rs \<and>
   n_mismatch (fold count_verdict rs s) = n_mismatch s + verdicts kMismatch rs"
  by (induction rs arbitrary: s) (auto simp: verdicts_def count_verdict_def split: Verdict.split)

lemma Summarize_counts:
  "Summarize rs = \<lparr>n_blessed = verdicts kBlessed rs, n_review_light = verdicts kReviewLight rs,
     n_review = verdicts kReview rs, n_mismatch = verdicts kMismatch rs\<rparr>"
  unfolding Summarize_def by (rule Summary.equality) (simp_all add: fold_count_verdict)

lemma verdicts_pos: "verdicts v rs > 0 \<longleftrightarrow> v \<in> verdict ` set rs"
  by (induction rs) (auto simp: verdicts_def)

lemma verdicts_total: "verdicts kBlessed rs + verdicts kReviewLight rs + verdicts kReview rs + verdicts kMismatch rs = length rs"
proof (induction rs)
  case (Cons r rs)
  then show ?case by (cases "verdict r") (simp_all add: verdicts_def)
qed (simp add: verdicts_def)

text \<open>The summary counts every result once, and the exit code is read off it: 1 if some result is a
  MISMATCH, else 2 if some result is a REVIEW or REVIEW-LIGHT, else 0, which means that every
  result is BLESSED.\<close>

lemma exit_code_Summarize:
  "total (Summarize rs) = length rs \<and>
   exit_code (Summarize rs) = (if kMismatch \<in> verdict ` set rs then 1 else if verdict ` set rs \<subseteq> {kBlessed} then 0 else 2)"
proof -
  have "A \<subseteq> {kBlessed} \<longleftrightarrow> kMismatch \<notin> A \<and> kReview \<notin> A \<and> kReviewLight \<notin> A" for A
    by (auto, metis Verdict.exhaust)
  then show ?thesis
    by (auto simp: Summarize_counts total_def verdicts_total exit_code_def verdicts_pos
        kExitBlessed_def kExitMismatch_def kExitReview_def simp del: image_iff)
qed

text \<open>What is listed: without \<open>--summary_only\<close>, the results the options ask for, each as often as it
  occurs, the worse verdicts first and the order of the run kept within a verdict.\<close>

lemma listed_results_order:
  "listed_results rs opts = (if summary_only opts then [] else
     concat (map (\<lambda>v. filter (\<lambda>r. verdict r = v \<and> ShouldList v opts) rs) [kMismatch, kReview, kReviewLight, kBlessed]))"
proof -
  let ?rank = "\<lambda>r. 3 - verdict_rank (verdict r)" and ?ls = "filter (\<lambda>r. ShouldList (verdict r) opts) rs"
  let ?ys = "concat (map (\<lambda>v. filter (\<lambda>r. verdict r = v) ?ls) [kMismatch, kReview, kReviewLight, kBlessed])"
  have rank: "?rank r = ?rank q \<longleftrightarrow> verdict r = verdict q" for r q
    by (cases "verdict r"; cases "verdict q") (simp_all add: verdict_rank_def)
  have "sort_key ?rank ?ls = ?ys"
  proof (rule properties_for_sort_key)
    have "mset xs = mset (concat (map (\<lambda>v. filter (\<lambda>r. verdict r = v) xs) [kMismatch, kReview, kReviewLight, kBlessed]))" for xs
    proof (induction xs)
      case (Cons r xs)
      then show ?case by (cases "verdict r") simp_all
    qed simp
    then show "mset ?ys = mset ?ls" by metis
    show "filter (\<lambda>x. ?rank k = ?rank x) ?ys = filter (\<lambda>x. ?rank k = ?rank x) ?ls" for k
      unfolding rank by (cases "verdict k") (auto simp: filter_empty_conv intro!: filter_cong)
    have "sorted (map ?rank (filter (\<lambda>r. verdict r = v) xs))" for v xs by (induction xs) auto
    then show "sorted (map ?rank ?ys)" by (auto simp: sorted_append verdict_rank_def simp del: filter_filter)
  qed
  moreover have "filter (\<lambda>r. verdict r = v) ?ls = filter (\<lambda>r. verdict r = v \<and> ShouldList v opts) rs" for v
    by (auto intro!: filter_cong)
  ultimately show ?thesis by (simp only: listed_results_def list.map)
qed


subsection \<open>The structural checks\<close>

definition checkable :: "ELFImage \<Rightarrow> RawFDE list \<Rightarrow> (u64 \<times> CFI) list" where
  "checkable img fdes = concat (map (\<lambda>raw. case screen_fde img raw of Inr c \<Rightarrow> [(raw_vaddr raw, c)] | Inl _ \<Rightarrow> []) fdes)"

definition screened_out :: "ELFImage \<Rightarrow> RawFDE list \<Rightarrow> FDEResult list" where
  "screened_out img fdes = concat (map (\<lambda>raw. case screen_fde img raw of Inl res \<Rightarrow> [res] | Inr _ \<Rightarrow> []) fdes)"

lemma RunStructuralChecks_eq:
  "RunStructuralChecks img fdes =
     (screened_out img fdes @ overlaps (sort_key (\<lambda>p. pc_begin (snd p)) (checkable img fdes)), map snd (checkable img fdes))"
  by (simp add: RunStructuralChecks_def screened_out_def checkable_def Let_def comp_def)

lemma screen_fde_Inr:
  "screen_fde img raw = Inr c \<longleftrightarrow> raw_cfi raw = Inr c \<and> pc_begin c < pc_end c \<and>
     IsExecutable img (pc_begin c) (pc_end c - pc_begin c) \<and> \<not> InPLT img (pc_begin c) (pc_end c - pc_begin c)"
  by (auto simp: screen_fde_def split: sum.splits if_splits)

lemma screen_fde_Blessed:
  "screen_fde img raw = Inl res \<Longrightarrow> verdict res = kBlessed \<Longrightarrow>
     \<exists>c. raw_cfi raw = Inr c \<and> pc_begin c < pc_end c \<and> IsExecutable img (pc_begin c) (pc_end c - pc_begin c) \<and>
       InPLT img (pc_begin c) (pc_end c - pc_begin c)"
  by (auto simp: screen_fde_def MakeStructuralResult_def plt_result_def split: sum.splits if_splits)

text \<open>Every FDE lands on exactly one side of the screening.\<close>

lemma screened: "raw \<in> set fdes \<Longrightarrow>
   (\<exists>res \<in> set (screened_out img fdes). screen_fde img raw = Inl res) \<or> (\<exists>c. screen_fde img raw = Inr c \<and> c \<in> set (map snd (checkable img fdes)))"
  by (cases "screen_fde img raw") (force simp: screened_out_def checkable_def)+

lemma overlaps_Nil:
  assumes "overlaps xs = []" "\<forall>p \<in> set xs. pc_begin (snd p) < pc_end (snd p)"
  shows "sorted_wrt (\<lambda>p q. pc_end (snd p) \<le> pc_begin (snd q)) xs"
  using assms
proof (induction xs rule: overlaps.induct)
  case (1 prev cur rest)
  then have "sorted_wrt (\<lambda>p q. pc_end (snd p) \<le> pc_begin (snd q)) (cur # rest)" "pc_end (snd prev) \<le> pc_begin (snd cur)"
    by (auto split: if_splits)
  moreover have "pc_end (snd prev) \<le> pc_begin (snd q)" if "q \<in> set rest" for q
  proof -
    have "pc_begin (snd cur) < pc_end (snd cur)" "pc_end (snd cur) \<le> pc_begin (snd q)" using that calculation(1) "1.prems"(2) by auto
    with calculation(2) show ?thesis by (meson order.strict_implies_order order.trans)
  qed
  ultimately show ?case by simp
qed simp_all

lemma overlaps_verdict: "res \<in> set (overlaps xs) \<Longrightarrow> verdict res = kMismatch"
  by (induction xs rule: overlaps.induct) (auto simp: MakeStructuralResult_def split: if_splits)

text \<open>Ranges that are apart in one order are apart in every order sorted by start.\<close>

lemma sorted_wrt_linear: "sorted_wrt R xs \<Longrightarrow> a \<in> set xs \<Longrightarrow> b \<in> set xs \<Longrightarrow> a \<noteq> b \<Longrightarrow> R a b \<or> R b a"
  by (induction xs) auto

lemma sorted_wrt_distinct: "sorted_wrt R xs \<Longrightarrow> \<forall>x \<in> set xs. \<not> R x x \<Longrightarrow> distinct xs"
  by (induction xs) auto

lemma disjoint_ranges_mset:
  fixes lo hi :: "'a \<Rightarrow> u64"
  assumes "sorted_wrt (\<lambda>x y. hi x \<le> lo y) xs" "\<forall>x \<in> set xs. lo x < hi x" "mset ys = mset xs" "sorted (map lo ys)"
  shows "disjoint_ranges lo hi ys"
proof -
  have "distinct xs" using assms(1,2) by (intro sorted_wrt_distinct [of "\<lambda>x y. hi x \<le> lo y"]) (auto simp: not_le)
  then have d: "distinct ys" "set ys = set xs" using assms(3) by (metis mset_eq_imp_distinct_iff, metis mset_eq_setD)
  have "sorted_wrt (\<lambda>x y. hi x \<le> lo y) ys"
    unfolding sorted_wrt_iff_nth_less
  proof (intro allI impI)
    fix i j
    assume ij: "i < j" "j < length ys"
    then have m: "ys ! i \<in> set xs" "ys ! j \<in> set xs" "ys ! i \<noteq> ys ! j" using d by (auto simp: nth_eq_iff_index_eq simp flip: d(2))
    have "lo (ys ! i) \<le> lo (ys ! j)" using sorted_nth_mono [OF assms(4), of i j] ij by simp
    moreover have "lo (ys ! j) < hi (ys ! j)" using m assms(2) by blast
    ultimately show "hi (ys ! i) \<le> lo (ys ! j)" using sorted_wrt_linear [OF assms(1) m] by (meson leD less_le_trans order.trans)
  qed
  with assms(4) show ?thesis by (simp add: disjoint_ranges_def)
qed

lemma structural_index:
  assumes "RunStructuralChecks img fdes = (results, cs)" "\<forall>r \<in> set results. verdict r \<noteq> kMismatch"
  shows "disjoint_ranges (\<lambda>e. fst (fst e)) (\<lambda>e. snd (fst e)) (make_cfi_index cs) \<and>
    (\<forall>c \<in> set cs. pc_begin c < pc_end c \<and> IsExecutable img (pc_begin c) (pc_end c - pc_begin c) \<and>
       \<not> InPLT img (pc_begin c) (pc_end c - pc_begin c))"
proof -
  let ?xs = "sort_key (\<lambda>p. pc_begin (snd p)) (checkable img fdes)" and ?entry = "\<lambda>c. ((pc_begin c, pc_end c), c)"
  have r: "results = screened_out img fdes @ overlaps ?xs" "cs = map snd (checkable img fdes)"
    using assms(1) by (simp_all add: RunStructuralChecks_eq)
  have ok: "\<forall>p \<in> set (checkable img fdes). pc_begin (snd p) < pc_end (snd p) \<and>
      IsExecutable img (pc_begin (snd p)) (pc_end (snd p) - pc_begin (snd p)) \<and> \<not> InPLT img (pc_begin (snd p)) (pc_end (snd p) - pc_begin (snd p))"
    by (auto simp: checkable_def split: sum.splits dest!: screen_fde_Inr [THEN iffD1, OF sym])
  have "overlaps ?xs = []" using assms(2) overlaps_verdict [of _ ?xs] unfolding r(1) by (cases "overlaps ?xs") auto
  then have "sorted_wrt (\<lambda>p q. pc_end (snd p) \<le> pc_begin (snd q)) ?xs" using ok by (intro overlaps_Nil) auto
  then have 1: "sorted_wrt (\<lambda>x y. snd (fst x) \<le> fst (fst y)) (map (?entry \<circ> snd) ?xs)" by (simp add: sorted_wrt_map)
  have 2: "mset (make_cfi_index cs) = mset (map (?entry \<circ> snd) ?xs)" unfolding make_cfi_index_def r(2) by simp
  have "sorted (map fst (make_cfi_index cs))" by (simp add: make_cfi_index_def)
  then have 3: "sorted (map (\<lambda>e. fst (fst e)) (make_cfi_index cs))"
    unfolding sorted_map by (rule sorted_wrt_mono_rel [rotated]) (auto simp: less_eq_prod_def)
  have "disjoint_ranges (\<lambda>e. fst (fst e)) (\<lambda>e. snd (fst e)) (make_cfi_index cs)"
    by (rule disjoint_ranges_mset [OF 1 _ 2 3]) (use ok in auto)
  with ok r(2) show ?thesis by auto
qed

text \<open>The structural checks let no overlap through: if they report no mismatch, the FDEs they pass on
  are non-empty ranges of executable memory outside the PLT, and the index the checkers search is
  sorted and its ranges are pairwise disjoint (although each FDE is compared with its neighbour
  only), as the binary search needs.\<close>

lemma RunStructuralChecks_index:
  assumes "RunStructuralChecks img fdes = (results, cs)" "\<forall>r \<in> set results. verdict r \<noteq> kMismatch"
  shows "disjoint_ranges (\<lambda>e. fst (fst e)) (\<lambda>e. snd (fst e)) (make_cfi_index cs) \<and>
    (\<forall>c \<in> set cs. pc_begin c < pc_end c \<and> IsExecutable img (pc_begin c) (pc_end c - pc_begin c) \<and>
       \<not> InPLT img (pc_begin c) (pc_end c - pc_begin c))"
  using assms by (rule structural_index)

subsection \<open>A whole run\<close>

lemma check_all_Some: "check_all flags opts img cs = Some rs \<longleftrightarrow> map Some rs = map (check_one flags opts img) cs"
  by (induction cs arbitrary: rs) (auto split: option.split)

lemma check_all_returns: "\<forall>c \<in> set cs. \<exists>r. check_one flags opts img c = Some r \<Longrightarrow> \<exists>rs. check_all flags opts img cs = Some rs"
  by (induction cs) auto

lemma exit_zero: "exit_code (Summarize rs) = 0 \<Longrightarrow> r \<in> set rs \<Longrightarrow> verdict r = kBlessed"
  using verdicts_pos [of kMismatch rs] verdicts_pos [of kReview rs] verdicts_pos [of kReviewLight rs]
  by (cases "verdict r") (force simp: exit_code_def Summarize_counts kExitMismatch_def kExitReview_def split: if_splits)+

text \<open>What a run with exit code 0 has done.\<close>

lemma DriverRun_zeroE:
  assumes "DriverRun flags demangle Z img = Some (Inr (results, 0))" "ReadAllFDEs img = (fdes, err)"
    and "RunStructuralChecks img fdes = (structural, cs)"
  obtains rs where "check_all flags (make_options flags img Z cs) img (filter (selected flags demangle img) cs) = Some rs"
    "results = structural @ (if flag_report_uncovered_symbols flags then CheckUncoveredSymbols img (fde_ranges_of fdes) else []) @ rs"
    "\<forall>r \<in> set results. verdict r = kBlessed"
  using assms exit_zero [of results] by (auto simp: DriverRun_def Let_def split: if_splits)

lemma exit_zero_checked:
  assumes "DriverRun flags demangle Z img = Some (Inr (results, 0))" "ReadAllFDEs img = (fdes, err)"
    and "RunStructuralChecks img fdes = (structural, cs)" "c \<in> set cs" "selected flags demangle img c"
  shows "\<exists>res. check_one flags (make_options flags img Z cs) img c = Some res \<and> verdict res = kBlessed"
proof -
  obtain rs where rs: "check_all flags (make_options flags img Z cs) img (filter (selected flags demangle img) cs) = Some rs"
    "results = structural @ (if flag_report_uncovered_symbols flags then CheckUncoveredSymbols img (fde_ranges_of fdes) else []) @ rs"
    "\<forall>r \<in> set results. verdict r = kBlessed"
    using assms(1-3) by (rule DriverRun_zeroE)
  have "check_one flags (make_options flags img Z cs) img c \<in> set (map Some rs)"
    using assms(4,5) unfolding rs(1) [unfolded check_all_Some] by simp
  then show ?thesis using rs(2,3) by auto
qed

text \<open>C8. What exit code 0 means for the image: every FDE read from it decodes to a non-empty range of
  executable memory, and lies in the PLT, or is not selected by \<open>--pc\<close> and \<open>--function\<close>, or was
  BLESSED by the checker; the ranges of the FDEs outside the PLT are disjoint; and with
  \<open>--report_uncovered_symbols\<close> no function symbol has bytes outside all FDEs.\<close>

theorem DriverRun_exit_zero:
  assumes "DriverRun flags demangle Z img = Some (Inr (results, 0))" "ReadAllFDEs img = (fdes, err)"
    and "RunStructuralChecks img fdes = (structural, cs)"
  shows "(\<forall>raw \<in> set fdes. \<exists>c. raw_cfi raw = Inr c \<and> pc_begin c < pc_end c \<and>
      IsExecutable img (pc_begin c) (pc_end c - pc_begin c) \<and>
      (InPLT img (pc_begin c) (pc_end c - pc_begin c) \<or> \<not> selected flags demangle img c \<or>
       (\<exists>res. check_one flags (make_options flags img Z cs) img c = Some res \<and> verdict res = kBlessed))) \<and>
    disjoint_ranges (\<lambda>e. fst (fst e)) (\<lambda>e. snd (fst e)) (make_cfi_index cs) \<and>
    (flag_report_uncovered_symbols flags \<longrightarrow> CheckUncoveredSymbols img (fde_ranges_of fdes) = [])"
proof -
  let ?unc = "if flag_report_uncovered_symbols flags then CheckUncoveredSymbols img (fde_ranges_of fdes) else []"
  obtain rs where rs: "check_all flags (make_options flags img Z cs) img (filter (selected flags demangle img) cs) = Some rs"
    "results = structural @ ?unc @ rs" and blessed: "\<forall>r \<in> set results. verdict r = kBlessed"
    using assms by (rule DriverRun_zeroE)
  have "\<forall>r \<in> set structural. verdict r \<noteq> kMismatch" using blessed rs(2) by force
  note idx = structural_index [OF assms(3) this]
  have st: "structural = screened_out img fdes @ overlaps (sort_key (\<lambda>p. pc_begin (snd p)) (checkable img fdes))"
    "cs = map snd (checkable img fdes)"
    using assms(3) by (simp_all add: RunStructuralChecks_eq)
  note one = exit_zero_checked [OF assms]
  have "\<exists>c. raw_cfi raw = Inr c \<and> pc_begin c < pc_end c \<and> IsExecutable img (pc_begin c) (pc_end c - pc_begin c) \<and>
      (InPLT img (pc_begin c) (pc_end c - pc_begin c) \<or> \<not> selected flags demangle img c \<or>
       (\<exists>res. check_one flags (make_options flags img Z cs) img c = Some res \<and> verdict res = kBlessed))" if raw: "raw \<in> set fdes" for raw
    using screened [OF raw, of img]
  proof
    assume "\<exists>res \<in> set (screened_out img fdes). screen_fde img raw = Inl res"
    then obtain res where res: "res \<in> set (screened_out img fdes)" "screen_fde img raw = Inl res" by blast
    then have "verdict res = kBlessed" using blessed rs(2) st(1) by simp
    from screen_fde_Blessed [OF res(2) this] show ?thesis by blast
  next
    assume "\<exists>c. screen_fde img raw = Inr c \<and> c \<in> set (map snd (checkable img fdes))"
    then show ?thesis using one st(2) unfolding screen_fde_Inr by blast
  qed
  moreover have "CheckUncoveredSymbols img (fde_ranges_of fdes) = []" if "flag_report_uncovered_symbols flags"
  proof -
    have "verdict r = kReview" if "r \<in> set (check_symbols img cov syms flagged)" for r cov syms flagged
      using that by (induction syms arbitrary: flagged) (auto simp: uncovered_result_def Let_def split: if_splits)
    then have "\<forall>r \<in> set (CheckUncoveredSymbols img (fde_ranges_of fdes)). verdict r = kReview" by (auto simp: CheckUncoveredSymbols_def)
    moreover have "\<forall>r \<in> set (CheckUncoveredSymbols img (fde_ranges_of fdes)). verdict r = kBlessed" using blessed rs(2) that by simp
    ultimately show ?thesis by (cases "CheckUncoveredSymbols img (fde_ranges_of fdes)") auto
  qed
  ultimately show ?thesis using idx by blast
qed

lemma full_check_returns:
  assumes "decoder_ok (opt_disasm opts)" "image_ok (opt_image opts)"
  shows "\<exists>res tr. CheckWithGuessing opts c e = Some (res, tr)"
proof -
  have R: "\<exists>res tr. Check opts c e g = Some (res, tr)" for g
    using Run_returns [of "\<lparr>options = opts, cfi = c, at_function_entry = e, guessing_enabled = g\<rparr>"] assms
    by (auto simp: Check_def)
  show ?thesis using R [of False] R [of True] by (auto simp: CheckWithGuessing_def)
qed

lemma check_one_returns:
  assumes "decoder_ok Z" "image_ok img"
  shows "\<exists>r. check_one flags (make_options flags img Z cs) img c = Some r"
proof (cases "flag_full flags")
  case True
  have "\<exists>res tr. CheckWithGuessing (make_options flags img Z cs) c e = Some (res, tr)" for e
    using assms by (intro full_check_returns) (simp_all add: make_options_def)
  with True show ?thesis by (simp add: check_one_def Let_def)
next
  case False
  have "\<exists>r. light_loop (make_options flags img Z cs) c pc n k = Some r" for pc n k
    using assms(1) by (intro light_loop_returns) (simp add: make_options_def)
  with False show ?thesis by (auto simp: check_one_def LightCheck_def Let_def)
qed

text \<open>A run always ends: whatever the image, the driver fails before looking at any FDE or returns its
  results and exit code, if the disassembler consumes between one byte and the bytes it is given and
  no segment of the image wraps around the address space.\<close>

lemma DriverRun_ends:
  assumes "decoder_ok Z" "image_ok img"
  shows "\<exists>r. DriverRun flags demangle Z img = Some r"
proof -
  have "\<exists>rs. check_all flags (make_options flags img Z cs) img xs = Some rs" for cs xs
    using check_one_returns [OF assms] by (intro check_all_returns) blast
  then show ?thesis by (auto simp: DriverRun_def Let_def split: prod.split)
qed

subsection \<open>A small image\<close>

text \<open>The section of \<open>Table_Props\<close> and the function it describes, in one executable segment. The section
  is followed by a record whose length overruns it, which belongs to the section when it ends
  at \<open>0x13b\<close> instead of \<open>0x133\<close>.\<close>

definition small_memory :: memory where
  "small_memory = (\<lambda>a. if a < 0x1000 then bytes_at 0x100 (sample_section @ [100, 0, 0, 0, 0, 0, 0, 0]) a else bytes_at 0x1000 [0x55, 0x5d, 0xc3] a)"

definition small_image :: "u64 \<Rightarrow> ELFImage" where
  "small_image e =
     \<lparr>img_mem = small_memory, img_bias = 0,
      segments = [\<lparr>seg_vaddr = 0, seg_memsz = 0x2000, seg_filesz = 0x2000, seg_offset = 0, seg_flags = 5\<rparr>],
      func_symbols = [\<lparr>fs_vaddr = 0x1000, fs_size = 3, fs_name = ''f''\<rparr>],
      img_eh_frame_start = 0x100, img_eh_frame_end = e, img_eh_frame_hdr = 0, plt_ranges = [],
      has_debug_line = False, has_debug_link = False\<rparr>"

definition small_cfi :: CFI where
  "small_cfi =
     \<lparr>fde_addr = 0x112, pc_begin = 0x1000, pc_end = 0x1003, return_reg = 16, signal_frame = False, lsda_addr = 0,
      has_exotic_regs = False,
      rows = [sample_row 0x1000 8 RegRule0,
              sample_row 0x1001 16 \<lparr>rule_kind = RAtCFAOffset, rule_reg = 0, rule_offset = - 16\<rparr>,
              sample_row 0x1002 8 RegRule0]\<rparr>"

definition small_flags :: DriverFlags where
  "small_flags = \<lparr>flag_full = False, flag_check_unmentioned = False, flag_report_coverage_gaps = True,
     flag_report_uncovered_symbols = True, flag_max_findings = 8, flag_pc = None, flag_function = None\<rparr>"

definition small_cie :: CIEInfo where
  "small_cie = \<lparr>cie_code_align = 1, cie_data_align = - 8, cie_return_reg = 16, cie_fde_ptr_enc = DW_EH_PE_absptr,
     cie_lsda_ptr_enc = DW_EH_PE_omitted, cie_aug_z = False, cie_insns = \<lparr>sl_data = 0x10d, sl_size = 5\<rparr>\<rparr>"

abbreviation small_inputs :: "u64 \<Rightarrow> EHReaderInputs" where
  "small_inputs e \<equiv> \<lparr>lookup_pc = 0, eh_frame_hdr = 0, eh_frame_start = 0x100, eh_frame_end = e\<rparr>"

lemma small_words:
  "ReadU32 small_memory \<lparr>sl_data = 0x112, sl_size = 33\<rparr> = Inr (0x1d, \<lparr>sl_data = 0x116, sl_size = 29\<rparr>)"
  "ReadU32 small_memory \<lparr>sl_data = 0x112, sl_size = 41\<rparr> = Inr (0x1d, \<lparr>sl_data = 0x116, sl_size = 37\<rparr>)"
  "ReadU32 small_memory \<lparr>sl_data = 0x116, sl_size = 29\<rparr> = Inr (0x16, \<lparr>sl_data = 0x11a, sl_size = 25\<rparr>)"
  by code_simp+

lemma small_ParseCIE:
  "ParseCIE small_memory table_builder \<lparr>sl_data = 0x100, sl_size = 51\<rparr> (TableBuilder0 0x112 0) = Inr (True, small_cie, TableBuilder0 0x112 0)"
  "ParseCIE small_memory table_builder \<lparr>sl_data = 0x100, sl_size = 59\<rparr> (TableBuilder0 0x112 0) = Inr (True, small_cie, TableBuilder0 0x112 0)"
  by code_simp+

lemma small_ParseFDEBody:
  "map_sum id result (ParseFDEBody small_memory table_builder (small_inputs e) True small_cie
      \<lparr>sl_data = 0x11a, sl_size = 25\<rparr> (TableBuilder0 0x112 0)) = Inr small_cfi"
  by code_simp

lemma small_ReadFDE:
  assumes "e = 0x133 \<or> e = 0x13b"
  shows "ReadFDE small_memory 0x112 0x100 e 0 = Inr small_cfi"
proof -
  obtain v where v: "ParseFDEBody small_memory table_builder (small_inputs e) True small_cie
      \<lparr>sl_data = 0x11a, sl_size = 25\<rparr> (TableBuilder0 0x112 0) = Inr v" "result v = small_cfi"
    using small_ParseFDEBody [of e]
    by (cases "ParseFDEBody small_memory table_builder (small_inputs e) True small_cie \<lparr>sl_data = 0x11a, sl_size = 25\<rparr> (TableBuilder0 0x112 0)") auto
  have "DecodeFDEAt small_memory table_builder (small_inputs e) 0x112 (TableBuilder0 0x112 0) = Inr v"
    unfolding DecodeFDEAt_def ParseFDE_def MakeSlice_def using assms v(1)
    by (auto simp: small_words small_ParseCIE TruncateSlice_def)
  then show ?thesis using v(2) by (simp add: ReadFDE_def small_cfi_def)
qed

lemma small_Enumerate:
  "EnumerateFDEs small_memory 0x100 0x133 = ([0x112], None)"
  "EnumerateFDEs small_memory 0x100 0x13b = ([0x112], Some (RecordOverrun 0x133 100))"
  by code_simp+

lemma small_LightCheck:
  "map_option verdict (LightCheck \<lparr>opt_image = small_image d, opt_disasm = sample_zydis, check_unmentioned_callee_saved = False,
      report_coverage_gaps = True, max_findings_per_fde = 8, max_iterations = n, all_cfis = [((0x1000, 0x1003), small_cfi)]\<rparr> small_cfi e) =
     Some kBlessed"
  by code_simp

lemma small_light:
  "map_option verdict (check_one small_flags (make_options small_flags (small_image e) sample_zydis [small_cfi]) (small_image e) small_cfi) = Some kBlessed"
proof -
  have "make_cfi_index [small_cfi] = [((0x1000, 0x1003), small_cfi)]" by (simp add: make_cfi_index_def small_cfi_def)
  then show ?thesis using small_LightCheck by (simp add: check_one_def make_options_def small_flags_def)
qed

lemma small_uncovered: "CheckUncoveredSymbols (small_image e) [(0x1000, 0x1003)] = []"
proof -
  have "length (CheckUncoveredSymbols (small_image e) [(0x1000, 0x1003)]) = 0" by code_simp
  then show ?thesis by simp
qed

lemma small_fdes:
  "ReadAllFDEs (small_image 0x133) = ([\<lparr>raw_vaddr = 0x112, raw_cfi = Inr small_cfi\<rparr>], None)"
  "ReadAllFDEs (small_image 0x13b) = ([\<lparr>raw_vaddr = 0x112, raw_cfi = Inr small_cfi\<rparr>], Some (RecordOverrun 0x133 100))"
  by (simp_all add: ReadAllFDEs_def ToVaddr_def small_image_def small_Enumerate small_ReadFDE)

lemma small_structural: "RunStructuralChecks (small_image e) [\<lparr>raw_vaddr = 0x112, raw_cfi = Inr small_cfi\<rparr>] = ([], [small_cfi])"
proof -
  have "screen_fde (small_image e) \<lparr>raw_vaddr = 0x112, raw_cfi = Inr small_cfi\<rparr> = Inr small_cfi"
    by (simp add: screen_fde_Inr IsExecutable_def InPLT_def small_image_def small_cfi_def executable_def Contains_def)
  then show ?thesis by (simp add: RunStructuralChecks_def)
qed

lemma small_run_flags:
  assumes "e = 0x133 \<or> e = 0x13b" and flags: "flags = small_flags\<lparr>flag_full := b\<rparr>"
    and check: "map_option verdict (check_one flags (make_options flags (small_image e) sample_zydis [small_cfi]) (small_image e) small_cfi) = Some kBlessed"
  shows "\<exists>results. DriverRun flags id sample_zydis (small_image e) = Some (Inr (results, 0))"
proof -
  have eh: "has_eh_frame (small_image e)" using assms by (auto simp: has_eh_frame_def small_image_def)
  obtain err where fdes: "ReadAllFDEs (small_image e) = ([\<lparr>raw_vaddr = 0x112, raw_cfi = Inr small_cfi\<rparr>], err)"
    using assms small_fdes by blast
  have ranges: "fde_ranges_of [\<lparr>raw_vaddr = 0x112, raw_cfi = Inr small_cfi\<rparr>] = [(0x1000, 0x1003)]"
    by (simp add: fde_ranges_of_def small_cfi_def)
  have sel: "selected flags id (small_image e) small_cfi" by (simp add: selected_def small_flags_def flags)
  obtain r where r: "check_one flags (make_options flags (small_image e) sample_zydis [small_cfi]) (small_image e) small_cfi = Some r"
    "verdict r = kBlessed" using check by auto
  then have "exit_code (Summarize [r]) = 0" by (simp add: Summarize_counts verdicts_def exit_code_def kExitBlessed_def)
  with r eh sel fdes small_structural small_uncovered ranges show ?thesis by (simp add: DriverRun_def Let_def)
qed

lemma small_run:
  assumes "e = 0x133 \<or> e = 0x13b"
  shows "\<exists>results. DriverRun small_flags id sample_zydis (small_image e) = Some (Inr (results, 0))"
  using small_run_flags [OF assms, of small_flags False] small_light by (simp add: small_flags_def)

theorem DriverRun_exit_zero_witness:
  "\<exists>res. check_one small_flags (make_options small_flags (small_image 0x133) sample_zydis [small_cfi]) (small_image 0x133) small_cfi = Some res \<and>
     verdict res = kBlessed \<and> CheckUncoveredSymbols (small_image 0x133) [(0x1000, 0x1003)] = []"
proof -
  obtain results where "DriverRun small_flags id sample_zydis (small_image 0x133) = Some (Inr (results, 0))" using small_run [of "0x133"] by blast
  note c = DriverRun_exit_zero [OF this small_fdes(1) small_structural]
  have "\<not> InPLT (small_image 0x133) (pc_begin small_cfi) (pc_end small_cfi - pc_begin small_cfi)" by (simp add: InPLT_def small_image_def)
  moreover have "selected small_flags id (small_image 0x133) small_cfi" by (simp add: selected_def small_flags_def)
  moreover have "flag_report_uncovered_symbols small_flags" by (simp add: small_flags_def)
  moreover have "fde_ranges_of [\<lparr>raw_vaddr = 0x112, raw_cfi = Inr small_cfi\<rparr>] = [(0x1000, 0x1003)]"
    by (simp add: fde_ranges_of_def small_cfi_def)
  ultimately show ?thesis using c by auto
qed


text \<open>C37. Exit code 0 does not mean that the whole \<^verbatim>\<open>.eh_frame\<close> section was read: when the walk stops at a
  malformed record after at least one good FDE, the FDEs behind it are not looked at, and the run
  may still end with exit code 0 (the error is only printed).\<close>

theorem exit_zero_despite_walk_error:
  "(\<exists>results. DriverRun small_flags id sample_zydis (small_image 0x13b) = Some (Inr (results, 0))) \<and>
   snd (ReadAllFDEs (small_image 0x13b)) = Some (RecordOverrun 0x133 100)"
  using small_run [of "0x13b"] small_fdes by simp

end
