(* ===== verification/Symbolizer_Props.thy ===== *)
theory Symbolizer_Props
  imports Symbolizer
begin

text \<open>
  What \<open>Prepare\<close> learns from addr2line: exactly the tool's answer for every address asked, for any
  number of addresses and however they fall into batches, as long as its lines fit the buffer they
  are read into. A longer line is read as two, and every answer after it goes to the wrong address.
\<close>

subsection \<open>Lines\<close>

definition good_line :: "string \<Rightarrow> bool" where
  "good_line l \<longleftrightarrow> length l < 4095 \<and> CHR 0x0A \<notin> set l"

lemma takeWhile_line: "CHR 0x0A \<notin> set l \<Longrightarrow> takeWhile (\<lambda>c. c \<noteq> CHR 0x0A) (l @ CHR 0x0A # rest) = l"
  by (subst takeWhile_append2) auto

lemma fgets_line: "good_line l \<Longrightarrow> fgets 4096 (l @ CHR 0x0A # rest) = Some (l @ [CHR 0x0A], rest)"
  by (simp add: fgets_def takeWhile_line good_line_def Let_def min_absorb2)

lemma fgets_long:
  "length l = 4095 \<Longrightarrow> CHR 0x0A \<notin> set l \<Longrightarrow> fgets 4096 (l @ CHR 0x0A # rest) = Some (l, CHR 0x0A # rest)"
  by (auto simp: fgets_def takeWhile_line Let_def min_def)

subsection \<open>One batch\<close>

text \<open>A tool that answers each argument with a function name and a source line.\<close>

definition answer :: "(string \<Rightarrow> string) \<Rightarrow> (string \<Rightarrow> string) \<Rightarrow> string \<Rightarrow> string" where
  "answer fn src s = fn s @ [CHR 0x0A] @ src s @ [CHR 0x0A]"

definition hex_arg :: "u64 \<Rightarrow> string" where
  "hex_arg a = ''0x'' @ fmt_x a"

definition learn :: "(string \<Rightarrow> string) \<Rightarrow> (string \<Rightarrow> string) \<Rightarrow> u64 \<Rightarrow> Symbolizer \<Rightarrow> Symbolizer" where
  "learn fn src a = record_answer a (field_of (fn (hex_arg a) @ [CHR 0x0A])) (field_of (src (hex_arg a) @ [CHR 0x0A]))"

lemma read_answers_learn:
  assumes "\<And>s. good_line (fn s)" "\<And>s. good_line (src s)"
  shows "read_answers as (concat (map (\<lambda>a. answer fn src (hex_arg a)) as)) S = fold (learn fn src) as S"
  using assms by (induction as arbitrary: S) (simp_all add: answer_def fgets_line learn_def)

lemma learn_keeps [simp]:
  "sym_tool (learn fn src a S) = sym_tool S" "sym_path (learn fn src a S) = sym_path S" "sym_image (learn fn src a S) = sym_image S"
  "use_addr2line (learn fn src a S) = use_addr2line S" "queried (learn fn src a S) = queried S"
  by (simp_all add: learn_def record_answer_def Let_def)

lemma learn_maps:
  "map_of (source_lines (learn fn src a S)) b =
     (if b = a \<and> map_of (source_lines S) a = None \<and> field_of (src (hex_arg a) @ [CHR 0x0A]) \<noteq> []
      then Some (field_of (src (hex_arg a) @ [CHR 0x0A])) else map_of (source_lines S) b)"
  "map_of (debug_names (learn fn src a S)) b =
     (if b = a \<and> map_of (debug_names S) a = None \<and> field_of (src (hex_arg a) @ [CHR 0x0A]) \<noteq> [] \<and> field_of (fn (hex_arg a) @ [CHR 0x0A]) \<noteq> []
      then Some (field_of (fn (hex_arg a) @ [CHR 0x0A])) else map_of (debug_names S) b)"
  by (auto simp: learn_def record_answer_def emplace_def Let_def split: option.split)

lemma fold_learn_other:
  "b \<notin> set as \<Longrightarrow> map_of (source_lines (fold (learn fn src) as S)) b = map_of (source_lines S) b \<and>
    map_of (debug_names (fold (learn fn src) as S)) b = map_of (debug_names S) b"
  by (induction as arbitrary: S) (auto simp: learn_maps)

lemma fold_learn:
  assumes "b \<in> set as" "distinct as" "map_of (source_lines S) b = None" "map_of (debug_names S) b = None"
  shows "SourceLine (fold (learn fn src) as S) b = field_of (src (hex_arg b) @ [CHR 0x0A])"
    and "DebugName (debug_names (fold (learn fn src) as S)) b =
      (if field_of (src (hex_arg b) @ [CHR 0x0A]) = [] then [] else field_of (fn (hex_arg b) @ [CHR 0x0A]))"
  using assms
proof (induction as arbitrary: S)
  case (Cons a as)
  { case 1 then show ?case
      using Cons.IH [of "learn fn src a S"] fold_learn_other [of b as fn src "learn fn src a S"]
      by (cases "a = b") (auto simp: SourceLine_def learn_maps) }
  { case 2 then show ?case
      using Cons.IH [of "learn fn src a S"] fold_learn_other [of b as fn src "learn fn src a S"]
      by (cases "a = b") (auto simp: DebugName_def learn_maps) }
qed simp_all

subsection \<open>All batches\<close>

text \<open>addr2line as documented: it starts, prints two lines per address in the order of the arguments,
  and ends.\<close>

definition tool_answers :: "os \<Rightarrow> (string \<Rightarrow> string) \<Rightarrow> (string \<Rightarrow> string) \<Rightarrow> bool" where
  "tool_answers K fn src \<longleftrightarrow> pipes_fresh K \<and> (\<forall>argv acts. \<exists>pid. os_spawn K argv acts = Inr pid) \<and>
     (\<forall>used. \<exists>p. os_pipe K used = Inr p) \<and> (\<forall>pid. \<exists>c. WaitForProcess K pid = Some c) \<and>
     (\<forall>argv. os_output K argv = concat (map (answer fn src) (drop 5 argv)))"

lemma tool_spawn:
  assumes "tool_answers K fn src" "argv \<noteq> []"
  obtains proc st' where
    "SpawnProcess K argv \<lparr>pipe_stdin = False, pipe_stdout = True, discard_stderr = True\<rparr> st = (Inr proc, st')"
    "mset (open_fds (close_fd (sp_stdout_fd proc) st')) = mset (open_fds st)"
    "bad_close (close_fd (sp_stdout_fd proc) st') = bad_close st"
proof -
  let ?opts = "\<lparr>pipe_stdin = False, pipe_stdout = True, discard_stderr = True\<rparr>"
  obtain rd wr where p: "os_pipe K (open_fds st) = Inr (rd, wr)"
    using assms(1) unfolding tool_answers_def by (metis surj_pair)
  then have f: "rd \<ge> 0" "wr \<ge> 0" "rd \<noteq> wr" "rd \<notin> set (open_fds st)"
    using assms(1) by (auto simp: tool_answers_def pipes_fresh_def)
  obtain pid where "os_spawn K argv (spawn_actions ?opts (-1, -1) (rd, wr)) = Inr pid"
    using assms(1) unfolding tool_answers_def by blast
  with p assms(2) f have "SpawnProcess K argv ?opts st =
      (Inr \<lparr>sp_pid = pid, sp_stdin_fd = -1, sp_stdout_fd = rd\<rparr>, st\<lparr>open_fds := rd # open_fds st\<rparr>)"
    by (simp add: SpawnProcess_def make_pipe_def spawn_child_def Let_def close_fd_def)
  from that [OF this] show thesis by (simp add: close_fd_def)
qed

lemma fold_learn_keeps [simp]:
  "sym_tool (fold (learn fn src) as S) = sym_tool S" "sym_path (fold (learn fn src) as S) = sym_path S"
  "queried (fold (learn fn src) as S) = queried S"
  by (induction as arbitrary: S) simp_all

lemma prepare_loop_learn:
  assumes "tool_answers K fn src" "\<And>s. good_line (fn s)" "\<And>s. good_line (src s)"
  shows "\<exists>st'. prepare_loop K pending S st = Some (fold (learn fn src) pending S, st') \<and>
    mset (open_fds st') = mset (open_fds st) \<and> bad_close st' = bad_close st"
proof (induction "length pending" arbitrary: pending S st rule: less_induct)
  case less
  show ?case
  proof (cases "pending = []")
    case False
    let ?batch = "take kBatchSize pending" and ?rest = "drop kBatchSize pending"
    let ?argv = "addr2line_argv S ?batch"
    have "?argv \<noteq> []" by (simp add: addr2line_argv_def)
    obtain proc st1 where sp:
      "SpawnProcess K ?argv \<lparr>pipe_stdin = False, pipe_stdout = True, discard_stderr = True\<rparr> st = (Inr proc, st1)"
      "mset (open_fds (close_fd (sp_stdout_fd proc) st1)) = mset (open_fds st)"
      "bad_close (close_fd (sp_stdout_fd proc) st1) = bad_close st"
      using tool_spawn [OF assms(1) \<open>?argv \<noteq> []\<close>] by metis
    obtain c where c: "WaitForProcess K (sp_pid proc) = Some c"
      using assms(1) unfolding tool_answers_def by blast
    have "os_output K ?argv = concat (map (\<lambda>a. answer fn src (hex_arg a)) ?batch)"
      using assms(1) by (simp add: tool_answers_def addr2line_argv_def hex_arg_def comp_def)
    then have "read_answers ?batch (os_output K ?argv) S = fold (learn fn src) ?batch S"
      using assms(2,3) by (simp add: read_answers_learn)
    with False sp(1) c have "prepare_loop K pending S st =
        prepare_loop K ?rest (fold (learn fn src) ?batch S) (close_fd (sp_stdout_fd proc) st1)"
      by (subst prepare_loop.simps) (simp add: Let_def)
    moreover have "length ?rest < length pending" using False by (simp add: kBatchSize_def)
    moreover have "fold (learn fn src) ?rest (fold (learn fn src) ?batch S) = fold (learn fn src) pending S"
      by (metis append_take_drop_id fold_append o_apply)
    ultimately show ?thesis
      using less [of ?rest "fold (learn fn src) ?batch S" "close_fd (sp_stdout_fd proc) st1"] sp(2,3) by simp
  qed simp
qed

lemma note_queried_pending:
  "note_queried as q = (pending, q') \<Longrightarrow> set pending = set as - set q \<and> distinct pending \<and> set q' = set as \<union> set q"
  by (induction as arbitrary: q pending q') (fastforce split: if_splits prod.splits)+


text \<open>A tool whose answers are fixed.\<close>

definition tool_os :: "(string \<Rightarrow> string) \<Rightarrow> (string \<Rightarrow> string) \<Rightarrow> os" where
  "tool_os fn src = sample_os\<lparr>os_spawn := (\<lambda>argv acts. Inr 100), os_output := (\<lambda>argv. concat (map (answer fn src) (drop 5 argv)))\<rparr>"

lemma tool_os_answers: "tool_answers (tool_os fn src) fn src"
proof -
  have "pipes_fresh (tool_os fn src)"
    using sample_os_fresh by (simp add: pipes_fresh_def tool_os_def)
  moreover have "WaitForProcess (tool_os fn src) pid = Some 0" for pid
    unfolding WaitForProcess_def by (subst wait_loop.simps) (simp add: tool_os_def sample_os_def)
  ultimately show ?thesis
    by (simp add: tool_answers_def tool_os_def sample_os_def Let_def)
qed

definition no_image :: ELFImage where
  "no_image =
     \<lparr>img_mem = (\<lambda>_. 0), img_bias = 0, segments = [], func_symbols = [], img_eh_frame_start = 0, img_eh_frame_end = 0,
      img_eh_frame_hdr = 0, plt_ranges = [], has_debug_line = True, has_debug_link = False\<rparr>"

abbreviation std_fds :: fds where
  "std_fds \<equiv> \<lparr>open_fds = [0, 1, 2], bad_close = False\<rparr>"

definition bare_symbolizer :: Symbolizer where
  "bare_symbolizer =
     \<lparr>sym_image = no_image, sym_path = ''a.out'', sym_tool = ''addr2line'', use_addr2line = True, disabled_reason = [],
      source_lines = [], debug_names = [], queried = []\<rparr>"

definition sample_src :: "string \<Rightarrow> string" where
  "sample_src s = (if s = ''0x10'' then ''a.c:1'' else ''??:0'')"


subsection \<open>A line that does not fit\<close>

text \<open>C40. A function name of 4095 characters shifts the answers: it fills the buffer, the newline behind it
  is read as the source line, and the next address gets its predecessor's source line for a name
  and its own name for a source line.\<close>

theorem Prepare_long_name_shifts:
  assumes "tool_answers K fn src" "use_addr2line S" "source_lines S = []" "debug_names S = []" "queried S = []"
    and "a < b" "length (fn (hex_arg a)) = 4095" "CHR 0x0A \<notin> set (fn (hex_arg a))"
    and "good_line (src (hex_arg a))" "good_line (fn (hex_arg b))" "good_line (src (hex_arg b))"
  shows "\<exists>S' st'. Prepare K [a, b] S st = Some (S', st') \<and> SourceLine S' a = [] \<and>
    SourceLine S' b = field_of (fn (hex_arg b) @ [CHR 0x0A])"
proof -
  let ?S = "S\<lparr>queried := [b, a]\<rparr>" and ?argv = "addr2line_argv S [a, b]"
  let ?out = "fn (hex_arg a) @ CHR 0x0A # src (hex_arg a) @ CHR 0x0A # fn (hex_arg b) @ CHR 0x0A # src (hex_arg b) @ [CHR 0x0A]"
  have argv: "addr2line_argv ?S [a, b] = ?argv" "?argv \<noteq> []" by (simp_all add: addr2line_argv_def)
  have out: "os_output K ?argv = ?out"
    using assms(1) by (simp add: tool_answers_def addr2line_argv_def answer_def hex_arg_def)
  have nl: "fgets 4096 (CHR 0x0A # rest) = Some ([CHR 0x0A], rest)" for rest
    using fgets_line [of "[]" rest] by (simp add: good_line_def)
  have "field_of [CHR 0x0A] = []" by code_simp
  then have read: "read_answers [a, b] ?out ?S =
      record_answer b (field_of (src (hex_arg a) @ [CHR 0x0A])) (field_of (fn (hex_arg b) @ [CHR 0x0A])) ?S"
    using assms(7-10) by (simp add: fgets_long fgets_line nl record_answer_def)
  obtain proc st1 where sp:
    "SpawnProcess K ?argv \<lparr>pipe_stdin = False, pipe_stdout = True, discard_stderr = True\<rparr> st = (Inr proc, st1)"
    using tool_spawn [OF assms(1) argv(2)] by metis
  obtain c where c: "WaitForProcess K (sp_pid proc) = Some c"
    using assms(1) unfolding tool_answers_def by blast
  have "prepare_loop K [a, b] ?S st = Some (read_answers [a, b] ?out ?S, close_fd (sp_stdout_fd proc) st1)"
    by (subst prepare_loop.simps) (simp add: kBatchSize_def argv sp c out Let_def del: read_answers.simps)
  moreover have "Prepare K [a, b] S st = prepare_loop K [a, b] ?S st"
    using assms(2,5,6) by (auto simp: Prepare_def)
  ultimately show ?thesis
    using read assms(3,4,6) by (auto simp: SourceLine_def record_answer_def emplace_def Let_def)
qed

definition long_name :: "string \<Rightarrow> string" where
  "long_name s = (if s = ''0x10'' then replicate 4095 CHR ''x'' else ''g'')"

theorem Prepare_long_name_shifts_witness:
  "\<exists>S' st'. Prepare (tool_os long_name sample_src) [0x10, 0x20] bare_symbolizer std_fds = Some (S', st') \<and>
     SourceLine S' 0x20 = ''g''"
proof -
  have hex: "hex_arg 0x10 = ''0x10''" "hex_arg 0x20 = ''0x20''" by code_simp+
  have "field_of ''g\<newline>'' = ''g''" by code_simp
  then show ?thesis
    using Prepare_long_name_shifts [OF tool_os_answers [of long_name sample_src], of bare_symbolizer "0x10" "0x20" std_fds]
    by (auto simp: hex long_name_def sample_src_def good_line_def bare_symbolizer_def)
qed

end
