(* ===== verification/Report_Props.thy ===== *)
theory Report_Props
  imports Report Symbolizer_Props Light_Props
begin

text \<open>
  The report: everything found in a listed result is in the text, every address the text
  mentions was handed to the symbolizer beforehand, and the listing always ends.
\<close>

subsection \<open>The listing ends\<close>

lemma list_loop_returns:
  assumes "decoder_ok Z"
  shows "\<exists>ls. list_loop img Z c pc out = Some ls"
proof (induction "unat (pc_end c) - unat pc" arbitrary: pc out rule: less_induct)
  case less
  let ?bytes = "BytesAt img pc (min 16 (pc_end c - pc))"
  show ?case
  proof (cases "pc < pc_end c \<and> ?bytes \<noteq> []")
    case False
    then show ?thesis by (subst list_loop.simps) (auto simp: Let_def split: option.split)
  next
    case True
    show ?thesis
    proof (cases "Decode Z ?bytes pc")
      case None
      with True show ?thesis by (subst list_loop.simps) simp
    next
      case (Some i)
      show ?thesis
      proof (cases "pc + of_nat (insn_size i) > pc_end c")
        case True
        with Some \<open>pc < pc_end c \<and> ?bytes \<noteq> []\<close> show ?thesis by (subst list_loop.simps) simp
      next
        case False
        have "unat pc < unat (pc + of_nat (insn_size i))"
          using light_decode_size [of "\<lparr>opt_image = img, opt_disasm = Z, check_unmentioned_callee_saved = False,
              report_coverage_gaps = False, max_findings_per_fde = 0, max_iterations = 0, all_cfis = []\<rparr>" c pc i] assms Some True
          by (simp add: light_bytes_def)
        with False True Some less [of "pc + of_nat (insn_size i)" "out @ [listed_at Z c pc i]"] show ?thesis
          by (subst list_loop.simps) (auto simp: not_less word_le_nat_alt word_less_nat_alt)
      qed
    qed
  qed
qed

lemma PrintOne_returns: "(\<And>cx. ctx = Some cx \<Longrightarrow> decoder_ok (ctx_disasm cx)) \<Longrightarrow> \<exists>t. PrintOne demangle S ctx r = Some t"
  using list_loop_returns by (fastforce simp: PrintOne_def result_listing_def ListInstructions_def split: option.split)

lemma print_all_returns:
  "(\<And>cx. ctx = Some cx \<Longrightarrow> decoder_ok (ctx_disasm cx)) \<Longrightarrow> \<exists>t. print_all demangle S ctx rs = Some t"
  using PrintOne_returns [of ctx demangle S] by (induction rs) (fastforce split: option.split)+

lemma print_all_contains:
  assumes "print_all demangle S ctx rs = Some t" "r \<in> set rs"
  shows "\<exists>one pre post. PrintOne demangle S ctx r = Some one \<and> t = pre @ one @ post"
  using assms
proof (induction rs arbitrary: t)
  case (Cons q rs)
  then obtain one t' where t: "PrintOne demangle S ctx q = Some one" "print_all demangle S ctx rs = Some t'" "t = one @ t'"
    by (auto split: option.splits)
  show ?case
  proof (cases "r = q")
    case True
    with t have "PrintOne demangle S ctx r = Some one \<and> t = [] @ one @ t'" by simp
    then show ?thesis by blast
  next
    case False
    with Cons.IH [OF t(2)] Cons.prems(2) obtain one' pre post where
      "PrintOne demangle S ctx r = Some one'" "t' = pre @ one' @ post" by auto
    with t(3) have "PrintOne demangle S ctx r = Some one' \<and> t = (one @ pre) @ one' @ post" by simp
    then show ?thesis by blast
  qed
qed simp

subsection \<open>What the text depends on\<close>

definition agree_at :: "u64 list \<Rightarrow> Symbolizer \<Rightarrow> Symbolizer \<Rightarrow> bool" where
  "agree_at as S T \<longleftrightarrow> sym_image S = sym_image T \<and>
     (\<forall>a \<in> set as. map_of (source_lines S) a = map_of (source_lines T) a \<and> map_of (debug_names S) a = map_of (debug_names T) a)"

lemma Location_cong: "agree_at as S T \<Longrightarrow> a \<in> set as \<Longrightarrow> Location S a = Location T a"
  by (simp add: agree_at_def Location_def SourceLine_def)

lemma sym_name_cong: "agree_at as S T \<Longrightarrow> a \<in> set as \<Longrightarrow> sym_name d S a = sym_name d T a"
  by (simp add: agree_at_def sym_name_def Name_def DebugName_def split: option.split)

lemma PrintOne_cong:
  assumes "agree_at as S T" "res_pc_begin r \<in> set as" "f_pc ` set (findings r) \<subseteq> set as"
    and "\<And>g. g \<in> set (guessed_jump_tables r) \<Longrightarrow> set (gj_pc g # gj_targets g) \<subseteq> set as"
  shows "PrintOne demangle S ctx r = PrintOne demangle T ctx r"
proof -
  have h: "header_line demangle S r = header_line demangle T r"
    using sym_name_cong [OF assms(1,2)] by (simp add: header_line_def)
  have f: "map (finding_text S l) (findings r) = map (finding_text T l) (findings r)" for l
    using assms(3) Location_cong [OF assms(1)] by (auto simp: finding_text_def image_subset_iff)
  have g: "map (guessed_table_text S) (guessed_jump_tables r) = map (guessed_table_text T) (guessed_jump_tables r)"
  proof (rule map_cong [OF refl])
    fix g
    assume "g \<in> set (guessed_jump_tables r)"
    from assms(4) [OF this] show "guessed_table_text S g = guessed_table_text T g"
      using Location_cong [OF assms(1)] by (auto simp: guessed_table_text_def subset_iff intro!: arg_cong [of _ _ concat])
  qed
  show ?thesis
    by (simp only: PrintOne_def h f g)
qed

lemma set_listed_results: "\<not> summary_only opts \<Longrightarrow> set (listed_results results opts) = {r \<in> set results. ShouldList (verdict r) opts}"
  by (auto simp: listed_results_def)

lemma print_all_cong:
  assumes "\<And>r. r \<in> set rs \<Longrightarrow> PrintOne demangle S ctx r = PrintOne demangle T ctx r"
  shows "print_all demangle S ctx rs = print_all demangle T ctx rs"
  using assms by (induction rs) (auto split: option.split)

text \<open>C31. Every address the report mentions has been handed to the symbolizer: two symbolizers that know the
  same about the addresses \<open>PrintReport\<close> collects for its one addr2line run print the same
  listing, so no address in it lacks its source line because it was not asked for.\<close>

theorem report_addresses_prepared:
  assumes "agree_at (interesting results opts) S T"
  shows "print_all demangle S ctx (listed_results results opts) = print_all demangle T ctx (listed_results results opts)"
proof (cases "summary_only opts")
  case True
  then show ?thesis by (simp add: listed_results_def)
next
  case False
  show ?thesis
  proof (rule print_all_cong)
    fix r
    assume "r \<in> set (listed_results results opts)"
    then have "set (res_pc_begin r # map f_pc (findings r) @ concat (map (\<lambda>g. gj_pc g # gj_targets g) (guessed_jump_tables r)))
        \<subseteq> set (interesting results opts)"
      using set_listed_results [OF False] by (auto simp: interesting_def)
    then show "PrintOne demangle S ctx r = PrintOne demangle T ctx r"
      by (intro PrintOne_cong [OF assms]) auto
  qed
qed

subsection \<open>What the text shows\<close>

lemma finding_text_shows: "\<exists>pre post. finding_text S l f = pre @ f_message f @ post"
  by (auto simp: finding_text_def) (metis append.assoc append_Cons append_Nil)+

lemma concat_map_contains: "x \<in> set xs \<Longrightarrow> \<exists>pre post. concat (map f xs) = pre @ f x @ post"
  by (metis concat.simps(2) concat_append list.simps(9) map_append split_list)

text \<open>C30. Nothing that was found is left out of the report: when a report with a listing is printed, the
  message of every finding of every result the options ask for stands in it.\<close>

theorem PrintReport_shows_findings:
  assumes "PrintReport K demangle results S opts ctx st = Some (out, st')" "\<not> summary_only opts"
    and "r \<in> set results" "ShouldList (verdict r) opts" "f \<in> set (findings r)"
  shows "\<exists>pre post. out = pre @ f_message f @ post"
proof -
  obtain S1 body rest where out: "print_all demangle S1 ctx (listed_results results opts) = Some body" "out = body @ rest"
    using assms(1,2) by (auto simp: PrintReport_def Let_def split: option.splits)
  have "r \<in> set (listed_results results opts)"
    using assms(2-4) by (simp add: set_listed_results)
  from print_all_contains [OF out(1) this] obtain one pre post where
    one: "PrintOne demangle S1 ctx r = Some one" "body = pre @ one @ post" by blast
  then obtain l rest' where l: "one = header_line demangle S1 r @ concat (map (finding_text S1 l) (findings r)) @ rest'"
    by (auto simp: PrintOne_def)
  obtain p1 q1 where "concat (map (finding_text S1 l) (findings r)) = p1 @ finding_text S1 l f @ q1"
    using concat_map_contains [OF assms(5)] by blast
  moreover obtain p2 q2 where "finding_text S1 l f = p2 @ f_message f @ q2"
    using finding_text_shows by blast
  ultimately have "out = (pre @ header_line demangle S1 r @ p1 @ p2) @ f_message f @ q2 @ q1 @ rest' @ post @ rest"
    using out(2) one(2) l by simp
  then show ?thesis by blast
qed

definition bad_result :: FDEResult where
  "bad_result =
     \<lparr>res_fde_addr = 0x112, res_pc_begin = 0x1000, res_pc_end = 0x1003, res_signal_frame = False, verdict = kMismatch,
      findings = [\<lparr>f_severity = SevMismatch, f_pc = 0x1001, f_message = ''rbp is lost'', f_repeats = 2\<rparr>],
      instructions_checked = 3, guessable_jump_pc = None, guessed_jump_tables = []\<rparr>"

definition list_everything :: ReportOptions where
  "list_everything = \<lparr>show_blessed = True, summary_only = False, only_mismatch = False, only_review = False\<rparr>"

definition quiet_symbolizer :: Symbolizer where
  "quiet_symbolizer = bare_symbolizer\<lparr>use_addr2line := False\<rparr>"

theorem PrintReport_shows_findings_witness:
  "\<exists>out pre post. PrintReport sample_os id [bad_result] quiet_symbolizer list_everything None std_fds = Some (out, std_fds) \<and>
     out = pre @ ''rbp is lost'' @ post"
proof -
  let ?f = "\<lparr>f_severity = SevMismatch, f_pc = 0x1001, f_message = ''rbp is lost'', f_repeats = 2\<rparr>"
  obtain body where "print_all id quiet_symbolizer None (listed_results [bad_result] list_everything) = Some body"
    using print_all_returns [of None] by blast
  then obtain out where out: "PrintReport sample_os id [bad_result] quiet_symbolizer list_everything None std_fds = Some (out, std_fds)"
    by (simp add: PrintReport_def Prepare_def quiet_symbolizer_def list_everything_def Let_def)
  have "\<not> summary_only list_everything" "ShouldList (verdict bad_result) list_everything" "?f \<in> set (findings bad_result)"
    by (simp_all add: list_everything_def ShouldList_def bad_result_def)
  from PrintReport_shows_findings [OF out this(1) _ this(2,3)] out show ?thesis by auto
qed

theorem report_addresses_prepared_witness:
  "print_all id quiet_symbolizer None (listed_results [bad_result] list_everything) =
   print_all id (quiet_symbolizer\<lparr>source_lines := [(0x2000, ''b.c:7'')]\<rparr>) None (listed_results [bad_result] list_everything)"
  by (rule report_addresses_prepared)
    (simp add: agree_at_def interesting_def bad_result_def list_everything_def ShouldList_def quiet_symbolizer_def bare_symbolizer_def)

subsection \<open>Printing ends\<close>

definition waits_end :: "os \<Rightarrow> bool" where
  "waits_end K \<longleftrightarrow> (\<forall>pid. \<exists>c. WaitForProcess K pid = Some c)"

lemma prepare_loop_returns: "waits_end K \<Longrightarrow> \<exists>r. prepare_loop K as S st = Some r"
proof (induction "length as" arbitrary: as S st rule: less_induct)
  case less
  show ?case
  proof (cases "as = []")
    case False
    then have shorter: "length (drop kBatchSize as) < length as" by (simp add: kBatchSize_def)
    let ?argv = "addr2line_argv S (take kBatchSize as)"
    obtain r st1 where sp: "SpawnProcess K ?argv \<lparr>pipe_stdin = False, pipe_stdout = True, discard_stderr = True\<rparr> st = (r, st1)"
      by force
    show ?thesis
    proof (cases r)
      case (Inl e)
      with False sp show ?thesis by (subst prepare_loop.simps) (simp add: Let_def)
    next
      case (Inr proc)
      obtain c where "WaitForProcess K (sp_pid proc) = Some c" using less.prems by (auto simp: waits_end_def)
      with False sp Inr less.hyps [OF shorter less.prems] show ?thesis
        by (subst prepare_loop.simps) (simp add: Let_def)
    qed
  qed simp
qed

lemma PrintReport_returns:
  assumes "waits_end K" "\<And>cx. ctx = Some cx \<Longrightarrow> decoder_ok (ctx_disasm cx)"
  shows "\<exists>r. PrintReport K demangle results S opts ctx st = Some r"
proof -
  obtain S1 st1 where "Prepare K (interesting results opts) S st = Some (S1, st1)"
    using prepare_loop_returns [OF assms(1)] by (fastforce simp: Prepare_def split: prod.split)
  moreover obtain body where "print_all demangle S1 ctx (listed_results results opts) = Some body"
    using print_all_returns [of ctx demangle S1] assms(2) by blast
  ultimately show ?thesis by (simp add: PrintReport_def Let_def)
qed

end
