(* ===== verification/Image_File.thy ===== *)
theory Image_File
  imports Driver
begin

text \<open>
  \<^verbatim>\<open>ELFImage::Open\<close> and \<^verbatim>\<open>~ELFImage\<close> of \<^verbatim>\<open>elf-image.cc\<close> with what they own: the descriptor that a
  cleanup closes on every return, the mapping of the whole file and the reservation of the image.
  The state is the descriptors of the process and the set of its mapped addresses, a predicate. The
  kernel is an argument, a record of what each call answers: \<open>open\<close> sees the descriptors in use and
  \<open>mmap\<close> without an address sees the address space; the bytes of a file are those its mapping shows.
  A length is rounded up to whole pages by \<open>mmap\<close> and \<open>munmap\<close>. The record \<open>mappings\<close> holds the fields
  \<open>image_\<close>, \<open>image_size_\<close>, \<open>file_\<close> and \<open>file_size_\<close> of the object; an address of zero is a null
  pointer. \<open>RunFile\<close> is the function \<open>Run\<close> with the opening and the destruction of its image.
\<close>

subsection \<open>The system\<close>

type_synonym address_space = "u64 \<Rightarrow> bool"

record file_os =
  fs_open :: "string \<Rightarrow> int list \<Rightarrow> string + int"
  fs_stat :: "int \<Rightarrow> string + int"
  fs_data :: "int \<Rightarrow> nat \<Rightarrow> u8"
  fs_mmap :: "address_space \<Rightarrow> u64 \<Rightarrow> string + u64"
  fs_mmap_fixed :: "u64 \<Rightarrow> u64 \<Rightarrow> u64 \<Rightarrow> bool"

record process =
  pr_fds :: fds
  pr_mapped :: address_space

definition in_pages :: "u64 \<Rightarrow> u64 \<Rightarrow> u64 \<Rightarrow> bool" where
  "in_pages start len a \<longleftrightarrow> a - start < RoundUp len kPageSize"

definition map_range :: "u64 \<Rightarrow> u64 \<Rightarrow> address_space \<Rightarrow> address_space" where
  "map_range start len space = (\<lambda>a. in_pages start len a \<or> space a)"

definition unmap_range :: "u64 \<Rightarrow> u64 \<Rightarrow> address_space \<Rightarrow> address_space" where
  "unmap_range start len space = (\<lambda>a. space a \<and> \<not> in_pages start len a)"

subsection \<open>The object and its destructor\<close>

record mappings =
  m_image :: u64
  m_image_size :: u64
  m_file :: u64
  m_file_size :: u64

definition destroy_image :: "mappings \<Rightarrow> address_space \<Rightarrow> address_space" where
  "destroy_image m space =
     (let space1 = (if m_image m \<noteq> 0 then unmap_range (m_image m) (m_image_size m) space else space)
      in if m_file m \<noteq> 0 then unmap_range (m_file m) (m_file_size m) space1 else space1)"

subsection \<open>Opening\<close>

text \<open>The loop over the segments, with the address space: each \<open>MAP_FIXED\<close> mapping that succeeds replaces
  what was there.\<close>

fun place_segments :: "file_os \<Rightarrow> u64 \<Rightarrow> LoadSegment list \<Rightarrow> address_space \<Rightarrow> ELFError option \<times> address_space" where
  "place_segments K b [] space = (None, space)"
| "place_segments K b (seg # segs) space =
     (if seg_filesz seg = 0 then place_segments K b segs space
      else if seg_vaddr seg mod kPageSize \<noteq> seg_offset seg mod kPageSize
        then (Some (UnalignedSegment (seg_vaddr seg) (seg_offset seg)), space)
      else if \<not> fs_mmap_fixed K (seg_page seg + b) (seg_map_len seg) (RoundDown (seg_offset seg) kPageSize)
        then (Some (CannotMapSegment (seg_vaddr seg)), space)
      else place_segments K b segs (map_range (seg_page seg + b) (seg_map_len seg) space))"

text \<open>From the ELF header on: the file is mapped and \<open>img\<close> owns that mapping.\<close>

definition load_image :: "file_os \<Rightarrow> u8 list \<Rightarrow> mappings \<Rightarrow> address_space \<Rightarrow> (ELFError + ELFImage) \<times> mappings \<times> address_space" where
  "load_image K file m space =
     (case plan_image file of
        Inl e \<Rightarrow> (Inl e, m, space)
      | Inr (segs, min_vaddr, span, eh_frame_hdr_vaddr) \<Rightarrow>
         (case fs_mmap K space span of
            Inl _ \<Rightarrow> (Inl (CannotReserve span), m, space)
          | Inr img_addr \<Rightarrow>
             (let m1 = m\<lparr>m_image := img_addr, m_image_size := span\<rparr>; b = img_addr - min_vaddr in
              case place_segments K b segs (map_range img_addr span space) of
                (Some e, space1) \<Rightarrow> (Inl e, m1, space1)
              | (None, space1) \<Rightarrow> (Inr (finish_image file b segs eh_frame_hdr_vaddr), m1, space1))))"

definition file_of :: "file_os \<Rightarrow> int \<Rightarrow> int \<Rightarrow> u8 list" where
  "file_of K fd st_size = map (fs_data K fd) [0..<nat st_size]"

text \<open>From \<open>fstat\<close> on. An early return after \<open>img\<close> exists destroys it.\<close>

definition open_fd :: "file_os \<Rightarrow> int \<Rightarrow> address_space \<Rightarrow> (ELFError + ELFImage \<times> mappings) \<times> address_space" where
  "open_fd K fd space =
     (case fs_stat K fd of
        Inl e \<Rightarrow> (Inl (CannotStat e), space)
      | Inr st_size \<Rightarrow>
          if st_size < 64 then (Inl TooSmall, space)
          else let file_size = word_of_int st_size in
            (case fs_mmap K space file_size of
               Inl e \<Rightarrow> (Inl (CannotMmapFile e), space)
             | Inr mapped_at \<Rightarrow>
                (case load_image K (file_of K fd st_size)
                        \<lparr>m_image = 0, m_image_size = 0, m_file = mapped_at, m_file_size = file_size\<rparr>
                        (map_range mapped_at file_size space) of
                   (Inl e, m, space1) \<Rightarrow> (Inl e, destroy_image m space1)
                 | (Inr img, m, space1) \<Rightarrow> (Inr (img, m), space1))))"

definition OpenFile :: "file_os \<Rightarrow> string \<Rightarrow> process \<Rightarrow> (ELFError + ELFImage \<times> mappings) \<times> process" where
  "OpenFile K path p =
     (case fs_open K path (open_fds (pr_fds p)) of
        Inl e \<Rightarrow> (Inl (CannotOpenFile e), p)
      | Inr fd \<Rightarrow>
         (case open_fd K fd (pr_mapped p) of
            (r, space) \<Rightarrow>
              (r, \<lparr>pr_fds = close_fd fd ((pr_fds p)\<lparr>open_fds := fd # open_fds (pr_fds p)\<rparr>), pr_mapped = space\<rparr>)))"

subsection \<open>The run over a file\<close>

definition RunFile :: "host \<Rightarrow> file_os \<Rightarrow> RunFlags \<Rightarrow> string \<Rightarrow> string \<Rightarrow> process \<Rightarrow> (outcome \<times> address_space) option" where
  "RunFile H K rf path script p =
     (case OpenFile K path p of
        (Inl e, p1) \<Rightarrow> map_option (\<lambda>out. (out, pr_mapped p1)) (RunProgram H rf path script (Inl e) (pr_fds p1))
      | (Inr (img, m), p1) \<Rightarrow>
          map_option (\<lambda>out. (out, destroy_image m (pr_mapped p1))) (RunProgram H rf path script (Inr img) (pr_fds p1)))"

end
