(* ===== verification/File_Sample.thy ===== *)
theory File_Sample
  imports Image_File Elf_Props Table_Props
begin

text \<open>
  A whole file, small enough to evaluate: an ELF header, a segment that covers the file, a pointer to
  \<^verbatim>\<open>.eh_frame_hdr\<close>, the function \<open>push %rbp; pop %rbp; ret\<close> at \<open>0x10b8\<close> and an \<^verbatim>\<open>.eh_frame\<close> of one CIE,
  one FDE and the terminator. It has no sections, so that \<open>Open\<close> takes the fallback. What \<open>Open\<close> makes
  of it is the image \<open>tiny_image\<close>.
\<close>

subsection \<open>The bytes\<close>

definition tiny_phdr :: "u8 list \<Rightarrow> u64 \<Rightarrow> u64 \<Rightarrow> u8 list" where
  "tiny_phdr ty vaddr sz = ty @ [5, 0, 0, 0] @ le64 0 @ le64 vaddr @ le64 0 @ le64 sz @ le64 sz @ le64 0"

definition tiny_head :: "u8 list" where
  "tiny_head = sample_ehdr 2 @ tiny_phdr [1, 0, 0, 0] 0x1000 0xf3 @ tiny_phdr [0x50, 0xe5, 0x74, 0x64] 0x10b0 8"

definition tiny_tail :: "u8 list" where
  "tiny_tail =
     [1, 0x1b, 0xff, 0xff, 8, 0, 0, 0,  0x55, 0x5d, 0xc3, 0,
      0x0e, 0, 0, 0, 0, 0, 0, 0, 1, 0, 1, 0x78, 16, 0x0c, 7, 8, 0x90, 1,
      0x1d, 0, 0, 0, 0x16, 0, 0, 0, 0xb8, 0x10, 0, 0, 0, 0, 0, 0, 3, 0, 0, 0, 0, 0, 0, 0, 0x41, 0x0e, 16, 0x86, 2, 0x41, 0x0e, 8, 0xc6,
      0, 0, 0, 0]"

definition tiny_so :: "u8 list" where "tiny_so = tiny_head @ tiny_tail"

definition tiny_segment :: LoadSegment where
  "tiny_segment = \<lparr>seg_vaddr = 0x1000, seg_memsz = 0xf3, seg_filesz = 0xf3, seg_offset = 0, seg_flags = 5\<rparr>"

lemma tiny_length: "length tiny_head = 176" "length tiny_tail = 67" by code_simp+

subsection \<open>Fields of a part of a file\<close>

lemma fbyte_mid: "off < length mid \<Longrightarrow> fbyte (pre @ mid @ post) (length pre + off) = fbyte mid off"
  by (simp add: fbyte_def nth_append)

lemma fields_mid:
  "off + 8 \<le> length mid \<Longrightarrow> f64 (pre @ mid @ post) (length pre + off) = f64 mid off"
  "off + 4 \<le> length mid \<Longrightarrow> f32 (pre @ mid @ post) (length pre + off) = f32 mid off"
  "off + 2 \<le> length mid \<Longrightarrow> f16 (pre @ mid @ post) (length pre + off) = f16 mid off"
proof -
  have *: "map (fbyte (pre @ mid @ post)) [length pre + off..<length pre + off + n] = map (fbyte mid) [off..<off + n]"
    if "off + n \<le> length mid" for n
    using that by (intro nth_equalityI) (simp_all add: fbyte_mid add.assoc)
  show "off + 8 \<le> length mid \<Longrightarrow> f64 (pre @ mid @ post) (length pre + off) = f64 mid off"
    "off + 4 \<le> length mid \<Longrightarrow> f32 (pre @ mid @ post) (length pre + off) = f32 mid off"
    "off + 2 \<le> length mid \<Longrightarrow> f16 (pre @ mid @ post) (length pre + off) = f16 mid off"
    by (simp_all only: f64_def f32_def f16_def *)
qed

subsection \<open>The headers\<close>

lemma tiny_phdr_fields:
  "length ty = 4 \<Longrightarrow> length (tiny_phdr ty v n) = 56"
  "f32 (tiny_phdr [1, 0, 0, 0] 0x1000 0xf3) 0 = 1" "f32 (tiny_phdr [1, 0, 0, 0] 0x1000 0xf3) 4 = 5"
  "f64 (tiny_phdr [1, 0, 0, 0] 0x1000 0xf3) 8 = 0" "f64 (tiny_phdr [1, 0, 0, 0] 0x1000 0xf3) 16 = 0x1000"
  "f64 (tiny_phdr [1, 0, 0, 0] 0x1000 0xf3) 32 = 0xf3" "f64 (tiny_phdr [1, 0, 0, 0] 0x1000 0xf3) 40 = 0xf3"
  "f32 (tiny_phdr [0x50, 0xe5, 0x74, 0x64] 0x10b0 8) 0 = 0x6474e550" "f64 (tiny_phdr [0x50, 0xe5, 0x74, 0x64] 0x10b0 8) 16 = 0x10b0"
  by (simp add: tiny_phdr_def le64_def) code_simp+

lemma tiny_ehdr_fields:
  "length (sample_ehdr 2) = 64" "map (fbyte (sample_ehdr 2)) [0..<4] = [0x7f, 0x45, 0x4c, 0x46]"
  "fbyte (sample_ehdr 2) 4 = 2" "fbyte (sample_ehdr 2) 5 = 1" "f16 (sample_ehdr 2) 16 = 3" "f16 (sample_ehdr 2) 18 = 62"
  "f64 (sample_ehdr 2) 32 = 64" "f64 (sample_ehdr 2) 40 = 0" "f16 (sample_ehdr 2) 54 = 56" "f16 (sample_ehdr 2) 56 = 2"
  by code_simp+

abbreviation tiny_load :: "u8 list" where "tiny_load \<equiv> tiny_phdr [1, 0, 0, 0] 0x1000 0xf3"
abbreviation tiny_hdr :: "u8 list" where "tiny_hdr \<equiv> tiny_phdr [0x50, 0xe5, 0x74, 0x64] 0x10b0 8"

lemma tiny_fields:
  "length tiny_so = 243"
  "off + 8 \<le> 64 \<Longrightarrow> f64 tiny_so off = f64 (sample_ehdr 2) off" "off + 2 \<le> 64 \<Longrightarrow> f16 tiny_so off = f16 (sample_ehdr 2) off"
  "off < 64 \<Longrightarrow> fbyte tiny_so off = fbyte (sample_ehdr 2) off"
  "off + 8 \<le> 56 \<Longrightarrow> f64 tiny_so (64 + off) = f64 tiny_load off" "off + 4 \<le> 56 \<Longrightarrow> f32 tiny_so (64 + off) = f32 tiny_load off"
  "off + 8 \<le> 56 \<Longrightarrow> f64 tiny_so (120 + off) = f64 tiny_hdr off" "off + 4 \<le> 56 \<Longrightarrow> f32 tiny_so (120 + off) = f32 tiny_hdr off"
  using fields_mid [of off "sample_ehdr 2" "[]" "tiny_load @ tiny_hdr @ tiny_tail"] fbyte_mid [of off "sample_ehdr 2" "[]" "tiny_load @ tiny_hdr @ tiny_tail"]
    fields_mid [of off tiny_load "sample_ehdr 2" "tiny_hdr @ tiny_tail"] fields_mid [of off tiny_hdr "sample_ehdr 2 @ tiny_load" tiny_tail]
  by (simp_all add: tiny_so_def tiny_head_def tiny_length tiny_ehdr_fields tiny_phdr_fields)

lemma tiny_check: "check_ehdr tiny_so = None"
proof -
  have "map (fbyte tiny_so) [0..<4] = map (fbyte (sample_ehdr 2)) [0..<4]" by (simp add: tiny_fields)
  then show ?thesis by (simp add: check_ehdr_def tiny_fields tiny_ehdr_fields FitsIn_def del: upt_rec_numeral)
qed

lemma tiny_scan:
  "scan_phdrs tiny_so 64 (Suc (Suc 0)) \<lparr>ps_segments = [], ps_min = NOT 0, ps_max = 0, ps_hdr = 0\<rparr> =
     Inr \<lparr>ps_segments = [tiny_segment], ps_min = 0x1000, ps_max = 0x10f3, ps_hdr = 0x10b0\<rparr>"
  using tiny_fields(6) [of 0] tiny_fields(6) [of 4] tiny_fields(5) [of 8] tiny_fields(5) [of 16] tiny_fields(5) [of 32] tiny_fields(5) [of 40]
    tiny_fields(8) [of 0] tiny_fields(7) [of 16]
  by (simp add: scan_phdr_def Let_def tiny_fields(1) tiny_phdr_fields FitsIn_def tiny_segment_def)

lemma tiny_plan: "plan_image tiny_so = Inr ([tiny_segment], 0x1000, 0x1000, 0x10b0)"
proof -
  have "RoundDown 0x1000 kPageSize = 0x1000" "RoundUp 0x10f3 kPageSize = 0x2000" by code_simp+
  moreover have "scan_phdrs tiny_so 64 2 = scan_phdrs tiny_so 64 (Suc (Suc 0))" by (simp only: numeral_2_eq_2)
  ultimately show ?thesis
    using tiny_scan by (simp add: plan_image_def tiny_check tiny_fields tiny_ehdr_fields)
qed

subsection \<open>The image\<close>

lemma bytes_at_nth:
  "length bs < 2 ^ 64 \<Longrightarrow> bytes_at a bs x = (if unat (x - a) < length bs then bs ! unat (x - a) else 0)"
proof (induction bs arbitrary: a)
  case (Cons b bs)
  show ?case
  proof (cases "x = a")
    case False
    then have "x - a \<noteq> 0" by simp
    then have "unat (x - (a + 1)) = unat (x - a) - 1" and "0 < unat (x - a)"
      by (simp_all add: diff_diff_eq [symmetric] unat_minus_one unat_gt_0)
    with Cons False show ?thesis by (auto simp: nth_Cons')
  qed (use Cons in simp)
qed simp

definition tiny_memory :: memory where
  "tiny_memory = (\<lambda>a. if a < 0x10b0 then bytes_at 0x1000 tiny_head a else bytes_at 0x10b0 tiny_tail a)"

lemma tiny_loaded: "loaded_byte tiny_so 0 [tiny_segment] = tiny_memory"
proof
  fix a :: u64
  have page: "seg_page tiny_segment = 0x1000" "seg_map_len tiny_segment = 0x1000" "RoundDown (seg_offset tiny_segment) kPageSize = 0"
    by code_simp+
  have len: "length tiny_so = 243" by (simp add: tiny_so_def tiny_length)
  have fs: "seg_filesz tiny_segment \<noteq> 0" by (simp add: tiny_segment_def)
  have L: "loaded_byte tiny_so 0 [tiny_segment] a = (if unat (a - 0x1000) < 243 then tiny_so ! unat (a - 0x1000) else 0)"
    using fs by (simp add: loaded_byte_def covers_page_def page fbyte_def len word_less_nat_alt)
  show "loaded_byte tiny_so 0 [tiny_segment] a = tiny_memory a"
  proof (cases "0x1000 \<le> a")
    case True
    then have u: "unat (a - 0x1000) = unat a - 0x1000" by (simp add: unat_sub)
    from True have ge: "0x1000 \<le> unat a" by (simp add: word_le_nat_alt)
    show ?thesis
    proof (cases "a < 0x10b0")
      case True
      then have "unat a < 0x10b0" by (simp add: word_less_nat_alt)
      with u ge True show ?thesis
        unfolding L by (simp add: tiny_memory_def bytes_at_nth tiny_length tiny_so_def nth_append) arith
    next
      case False
      then have lt: "0x10b0 \<le> unat a" by (simp add: word_less_nat_alt)
      have "unat (a - 0x10b0) = unat a - 0x10b0" using False by (simp add: unat_sub not_less)
      with u lt False show ?thesis
        unfolding L by (auto simp: tiny_memory_def bytes_at_nth tiny_length tiny_so_def nth_append)
    qed
  next
    case False
    then have "unat a < 0x1000" by (simp add: word_le_nat_alt)
    then have "unat (a - 0x1000) = unat a + 2 ^ 64 - 0x1000" by (simp add: unat_sub_if_size word_size)
    moreover have "a < 0x10b0" using \<open>unat a < 0x1000\<close> by (simp add: word_less_nat_alt)
    ultimately show ?thesis by (simp add: L tiny_memory_def bytes_at_nth tiny_length)
  qed
qed

definition tiny_image :: ELFImage where
  "tiny_image =
     \<lparr>img_mem = tiny_memory, img_bias = 0, segments = [tiny_segment], func_symbols = [],
      img_eh_frame_start = 0x10bc, img_eh_frame_end = 0x10f3, img_eh_frame_hdr = 0x10b0, plt_ranges = [],
      has_debug_line = False, has_debug_link = False\<rparr>"

lemma tiny_finish: "finish_image tiny_so 0 [tiny_segment] 0x10b0 = tiny_image"
proof -
  let ?img = "\<lparr>img_mem = tiny_memory, img_bias = 0, segments = [tiny_segment], func_symbols = [], img_eh_frame_start = 0,
      img_eh_frame_end = 0, img_eh_frame_hdr = 0x10b0, plt_ranges = [], has_debug_line = False, has_debug_link = False\<rparr>"
  have "f64 tiny_so 40 = 0" by (simp add: tiny_fields tiny_ehdr_fields)
  then have "read_sections tiny_so img = img" for img by (simp add: read_sections_def)
  moreover have "BytesAt ?img 0x10b0 20 = [1, 0x1b, 0xff, 0xff, 8, 0, 0, 0, 0x55, 0x5d, 0xc3, 0, 0x0e, 0, 0, 0, 0, 0, 0, 0]"
    by code_simp
  moreover have "DecodeEhPtr [8, 0, 0, 0, 0x55, 0x5d, 0xc3, 0, 0x0e, 0, 0, 0, 0, 0, 0, 0] 0x10b4 0x1b = Some 0x10bc" by code_simp
  moreover have "Contains tiny_segment 0x10bc 0" "seg_vaddr tiny_segment + seg_filesz tiny_segment = 0x10f3" by code_simp+
  ultimately show ?thesis
    by (simp add: finish_image_def tiny_loaded eh_frame_fallback_def has_eh_frame_def tiny_image_def)
qed

end
