(* ===== verification/Machine.thy ===== *)
theory Machine
  imports Row_Props Insn_Props
begin

text \<open>
  A concrete machine to measure the analysis against: sixteen registers, byte-addressed memory
  and the two flags unsigned comparisons read. \<open>sound F M s\<close> says that the abstract state \<open>s\<close>
  is true of the machine \<open>M\<close> in the frame \<open>F\<close> (its CFA and the register values at entry). The
  theorems show that \<open>Transfer\<close> keeps it true along the instructions of prologues, epilogues and
  calls, and that a row which holds of the abstract state unwinds the concrete one.
\<close>

subsection \<open>Memory\<close>

definition load64 :: "(u64 \<Rightarrow> u8) \<Rightarrow> u64 \<Rightarrow> u64" where
  "load64 m a = fold (\<lambda>k w. w OR push_bit (8 * k) (ucast (m (a + of_nat k)))) [0..<8] 0"

definition store64 :: "u64 \<Rightarrow> u64 \<Rightarrow> (u64 \<Rightarrow> u8) \<Rightarrow> u64 \<Rightarrow> u8" where
  "store64 a v m b = (if b - a < 8 then ucast (drop_bit (8 * unat (b - a)) v) else m b)"

definition aligned8 :: "u64 \<Rightarrow> bool" where
  "aligned8 a \<longleftrightarrow> 8 dvd unat a"

lemma load64_cong: "(\<And>k. k < 8 \<Longrightarrow> m (a + of_nat k) = m' (a + of_nat k)) \<Longrightarrow> load64 m a = load64 m' a"
  unfolding load64_def by (intro fold_cong) auto

lemma byte_of_bit: "n div 8 = j \<longleftrightarrow> 8 * j \<le> n \<and> n < 8 * j + (8::nat)"
proof
  assume "n div 8 = j"
  then show "8 * j \<le> n \<and> n < 8 * j + 8"
    using times_div_less_eq_dividend [of 8 n] dividend_less_times_div [of 8 n] by simp
next
  assume "8 * j \<le> n \<and> n < 8 * j + 8"
  then show "n div 8 = j" by (intro div_nat_eqI) simp_all
qed

lemma bit_push_byte:
  "bit (push_bit (8 * j) (ucast b) :: u64) n \<longleftrightarrow> n div 8 = j \<and> n < 64 \<and> bit (b :: u8) (n mod 8)"
proof (cases "n div 8 = j")
  case True
  then have "n - 8 * j = n mod 8" using minus_mult_div_eq_mod [of n 8] by simp
  moreover have "8 * j \<le> n" using True by (simp add: byte_of_bit)
  moreover have "n mod 8 < 64" using mod_less_divisor [of 8 n] by linarith
  ultimately show ?thesis using True by (simp add: bit_push_bit_iff bit_ucast_iff)
next
  case False
  then have "\<not> 8 * j \<le> n \<or> 8 \<le> n - 8 * j" by (auto simp: byte_of_bit)
  then show ?thesis using False bit_imp_le_length [of b "n - 8 * j"] by (auto simp: bit_push_bit_iff bit_ucast_iff)
qed

lemma bit_load64_upto:
  "bit (fold (\<lambda>k w. w OR push_bit (8 * k) (ucast (m (a + of_nat k)))) [0..<j] (0 :: u64)) n \<longleftrightarrow>
     n < 8 * j \<and> n < 64 \<and> bit (m (a + of_nat (n div 8)) :: u8) (n mod 8)"
proof (induction j)
  case (Suc j)
  have "n < 8 * Suc j \<longleftrightarrow> n < 8 * j \<or> n div 8 = j" by (auto simp: byte_of_bit)
  then show ?case by (auto simp: bit_or_iff Suc bit_push_byte)
qed simp

lemma bit_load64: "bit (load64 m a) n \<longleftrightarrow> n < 64 \<and> bit (m (a + of_nat (n div 8))) (n mod 8)"
  unfolding load64_def by (subst bit_load64_upto) auto

lemma load64_store64 [simp]: "load64 (store64 a v m) a = v"
proof (rule bit_word_eqI)
  fix n
  assume "n < LENGTH(64)"
  then have n: "n < 64" "n div 8 < 8" "n mod 8 < 8" "8 * (n div 8) + n mod 8 = n" by auto
  then have "unat (of_nat (n div 8) :: u64) = n div 8" by (simp add: unat_of_nat)
  then have "store64 a v m (a + of_nat (n div 8)) = ucast (drop_bit (8 * (n div 8)) v)"
    using n(2) by (simp add: store64_def word_less_nat_alt)
  with n show "bit (load64 (store64 a v m) a) n = bit v n"
    using bit_imp_le_length [of v n] by (auto simp: bit_load64 bit_simps)
qed

text \<open>Two different aligned addresses are at least eight bytes apart, in either direction.\<close>

lemma aligned8_apart:
  assumes "aligned8 a" "aligned8 b" "a \<noteq> b" "k < 8"
  shows "\<not> b + of_nat k - a < 8"
proof
  assume lt: "b + of_nat k - a < 8"
  have al: "8 dvd unat (b - a)"
    using assms(1,2) by (auto simp: aligned8_def unat_sub_if' dvd_diff_nat)
  then have "unat (b - a) + 8 \<le> 2 ^ 64"
    using unsigned_less [of "b - a", where 'a = nat] by (auto elim!: dvdE)
  then have "unat (b - a + of_nat k) = unat (b - a) + k"
    using assms(4) by (simp add: unat_word_ariths unat_of_nat)
  moreover have "b - a + of_nat k = b + of_nat k - a" "unat (8 :: u64) = 8" by simp_all
  ultimately have "unat (b - a) + k < 8" using lt unfolding word_less_nat_alt by metis
  then have "unat (b - a) = 0" using al by (auto elim!: dvdE)
  then have "b - a = 0" by (simp only: unat_eq_0)
  with assms(3) show False by simp
qed

lemma load64_store64_other: "aligned8 a \<Longrightarrow> aligned8 b \<Longrightarrow> a \<noteq> b \<Longrightarrow> load64 (store64 a v m) b = load64 m b"
  by (rule load64_cong) (simp add: store64_def aligned8_apart)

subsection \<open>The machine\<close>

record machine =
  mregs :: "nat \<Rightarrow> u64"
  mmem :: "u64 \<Rightarrow> u8"

record frame =
  fr_cfa :: u64
  fr_orig :: "nat \<Rightarrow> u64"

definition plain_mem :: "zydis \<Rightarrow> Instruction \<Rightarrow> ZydisDecodedOperandMem \<Rightarrow> bool" where
  "plain_mem Z i m \<longleftrightarrow> \<not> has_segment (insn i) \<and> mem_index m = ZYDIS_REGISTER_NONE \<and> IsFull64 Z (mem_base m)"

definition mem_addr :: "zydis \<Rightarrow> machine \<Rightarrow> ZydisDecodedOperandMem \<Rightarrow> u64" where
  "mem_addr Z M m = mregs M (nat (DWARFRegOf Z (mem_base m))) + word_of_int (mem_disp m)"

abbreviation dreg :: "zydis \<Rightarrow> ZydisRegister \<Rightarrow> nat" where
  "dreg Z r \<equiv> nat (DWARFRegOf Z r)"

definition set_reg :: "nat \<Rightarrow> u64 \<Rightarrow> machine \<Rightarrow> machine" where
  "set_reg r v M = M\<lparr>mregs := (mregs M)(r := v)\<rparr>"

definition set_mem :: "u64 \<Rightarrow> u64 \<Rightarrow> machine \<Rightarrow> machine" where
  "set_mem a v M = M\<lparr>mmem := store64 a v (mmem M)\<rparr>"

text \<open>
  One instruction of the machine, in the frame \<open>F\<close>. A call is the whole call: the callee keeps the
  registers the ABI makes it keep, gives \<open>rsp\<close> back, and does not write at or above the \<open>rsp\<close>
  it was called with, which is \<open>d\<close> bytes from the CFA. The rule \<open>regs_only\<close> is every other
  instruction that writes registers only.
\<close>

inductive mstep :: "zydis \<Rightarrow> frame \<Rightarrow> Instruction \<Rightarrow> machine \<Rightarrow> machine \<Rightarrow> bool" for Z F i M where
  push_reg: "insn_id i = PUSH \<Longrightarrow> op_count i = 1 \<Longrightarrow> operand_width (insn i) = 64 \<Longrightarrow>
    op_value (operand i 0) = TypeRegister r \<Longrightarrow> IsFull64 Z r \<Longrightarrow> aligned8 (mregs M 7) \<Longrightarrow>
    M' = set_mem (mregs M 7 - 8) (mregs M (dreg Z r)) (set_reg 7 (mregs M 7 - 8) M) \<Longrightarrow> mstep Z F i M M'"
| pop_reg: "insn_id i = POP \<Longrightarrow> op_count i = 1 \<Longrightarrow> operand_width (insn i) = 64 \<Longrightarrow>
    op_value (operand i 0) = TypeRegister r \<Longrightarrow> IsFull64 Z r \<Longrightarrow>
    M' = set_reg (dreg Z r) (load64 (mmem M) (mregs M 7)) (set_reg 7 (mregs M 7 + 8) M) \<Longrightarrow> mstep Z F i M M'"
| leave: "insn_id i = LEAVE \<Longrightarrow>
    M' = set_reg 7 (mregs M 6 + 8) (set_reg 6 (load64 (mmem M) (mregs M 6)) M) \<Longrightarrow> mstep Z F i M M'"
| lea: "insn_id i = LEA \<Longrightarrow> op_count i = 2 \<Longrightarrow> op_value (operand i 0) = TypeRegister r \<Longrightarrow> IsFull64 Z r \<Longrightarrow>
    op_value (operand i 1) = TypeMemory m \<Longrightarrow> plain_mem Z i m \<Longrightarrow>
    M' = set_reg (dreg Z r) (mem_addr Z M m) M \<Longrightarrow> mstep Z F i M M'"
| add_imm: "insn_id i \<in> {ADD, SUB} \<Longrightarrow> op_count i = 2 \<Longrightarrow> op_value (operand i 0) = TypeRegister r \<Longrightarrow> IsFull64 Z r \<Longrightarrow>
    op_value (operand i 1) = TypeImmediate im \<Longrightarrow>
    M' = set_reg (dreg Z r) (if insn_id i = ADD then mregs M (dreg Z r) + im else mregs M (dreg Z r) - im) M \<Longrightarrow>
    mstep Z F i M M'"
| mov_reg: "insn_id i = MOV \<Longrightarrow> op_count i = 2 \<Longrightarrow> op_value (operand i 0) = TypeRegister r \<Longrightarrow> IsFull64 Z r \<Longrightarrow>
    op_value (operand i 1) = TypeRegister r1 \<Longrightarrow> IsFull64 Z r1 \<Longrightarrow>
    M' = set_reg (dreg Z r) (mregs M (dreg Z r1)) M \<Longrightarrow> mstep Z F i M M'"
| mov_load: "insn_id i = MOV \<Longrightarrow> op_count i = 2 \<Longrightarrow> op_value (operand i 0) = TypeRegister r \<Longrightarrow> IsFull64 Z r \<Longrightarrow>
    op_value (operand i 1) = TypeMemory m \<Longrightarrow> op_size (operand i 1) = 64 \<Longrightarrow> plain_mem Z i m \<Longrightarrow>
    M' = set_reg (dreg Z r) (load64 (mmem M) (mem_addr Z M m)) M \<Longrightarrow> mstep Z F i M M'"
| mov_store: "insn_id i = MOV \<Longrightarrow> op_count i = 2 \<Longrightarrow> op_value (operand i 0) = TypeMemory m \<Longrightarrow> op_size (operand i 0) = 64 \<Longrightarrow>
    plain_mem Z i m \<Longrightarrow> op_value (operand i 1) = TypeRegister r \<Longrightarrow> IsFull64 Z r \<Longrightarrow> aligned8 (mem_addr Z M m) \<Longrightarrow>
    M' = set_mem (mem_addr Z M m) (mregs M (dreg Z r)) M \<Longrightarrow> mstep Z F i M M'"
| call: "insn_id i = CALL \<Longrightarrow> mregs M 7 = fr_cfa F + word_of_int d \<Longrightarrow> in_int64 d \<Longrightarrow>
    (\<And>r. r \<in> {3, 6, 7, 12, 13, 14, 15} \<Longrightarrow> mregs M' r = mregs M r) \<Longrightarrow>
    (\<And>e. in_int64 e \<Longrightarrow> d \<le> e \<Longrightarrow> load64 (mmem M') (fr_cfa F + word_of_int e) = load64 (mmem M) (fr_cfa F + word_of_int e)) \<Longrightarrow>
    mstep Z F i M M'"
| regs_only: "insn_id i = MNEMONIC_OTHER n \<Longrightarrow>
    (\<And>k m. k < operand_count (insn i) \<Longrightarrow> op_value (operand i k) = TypeMemory m \<Longrightarrow> \<not> op_writes (operand i k)) \<Longrightarrow>
    (\<And>q. (\<And>k r. k < operand_count (insn i) \<Longrightarrow> op_value (operand i k) = TypeRegister r \<Longrightarrow> op_writes (operand i k) \<Longrightarrow>
              DWARFRegOf Z r \<noteq> int q) \<Longrightarrow> q < 16 \<Longrightarrow> mregs M' q = mregs M q) \<Longrightarrow>
    mmem M' = mmem M \<Longrightarrow> mstep Z F i M M'"
| nop: "insn_id i \<in> {NOP, ENDBR64} \<Longrightarrow> M' = M \<Longrightarrow> mstep Z F i M M'"

subsection \<open>The meaning of an abstract state\<close>

fun rep :: "frame \<Rightarrow> AbsVal \<Rightarrow> u64 \<Rightarrow> bool" where
  "rep F (CFARel d) x \<longleftrightarrow> x = fr_cfa F + word_of_int d"
| "rep F (OrigReg r) x \<longleftrightarrow> x = fr_orig F r"
| "rep F _ x \<longleftrightarrow> True"

definition slots_sound :: "frame \<Rightarrow> machine \<Rightarrow> AbsState \<Rightarrow> bool" where
  "slots_sound F M s \<longleftrightarrow> (\<forall>off v. map_of (slots s) off = Some v \<longrightarrow>
     in_int64 off \<and> 8 dvd off \<and> rep F v (load64 (mmem M) (fr_cfa F + word_of_int off)))"

definition sound :: "frame \<Rightarrow> machine \<Rightarrow> AbsState \<Rightarrow> bool" where
  "sound F M s \<longleftrightarrow> (\<forall>r < kNumGPRs. rep F (gpr s ! r) (mregs M r)) \<and> slots_sound F M s"

lemma soundI:
  "(\<And>r. r < kNumGPRs \<Longrightarrow> rep F (gpr s ! r) (mregs M r)) \<Longrightarrow> slots_sound F M s \<Longrightarrow> sound F M s"
  by (simp add: sound_def)

lemma sound_reg: "sound F M s \<Longrightarrow> wf_state s \<Longrightarrow> 0 \<le> r \<Longrightarrow> r < 16 \<Longrightarrow> rep F (reg s r) (mregs M (nat r))"
  by (simp add: sound_def reg_def)

lemma DWARFRegOf_full: "IsFull64 Z r \<Longrightarrow> 0 \<le> DWARFRegOf Z r \<and> DWARFRegOf Z r < 16"
  by (auto simp: IsFull64_def DWARFRegOf_def gpr_index_def Let_def split: if_splits)

lemma gpr_SetReg [simp]: "gpr (SetReg r v t s) = (gpr s)[r := v]"
  by (simp add: SetReg_def Let_def InvalidateLastCmpFor_def DropDeadSlots_def DropSlotsBelow_def split: AbsVal.split option.split)

lemma slots_SetReg: "map_of (slots (SetReg r v t s)) off = Some x \<Longrightarrow> map_of (slots s) off = Some x"
  by (auto simp: SetReg_def Let_def InvalidateLastCmpFor_def DropDeadSlots_def DropSlotsBelow_def omap_simps
      split: AbsVal.splits option.splits if_splits)

lemma slots_sound_sub:
  "slots_sound F M s \<Longrightarrow> mmem M' = mmem M \<Longrightarrow> (\<And>off v. map_of (slots s') off = Some v \<Longrightarrow> map_of (slots s) off = Some v) \<Longrightarrow>
   slots_sound F M' s'"
  by (simp add: slots_sound_def)

text \<open>Writing a register: sound if the new abstract value is true of the new concrete one.\<close>

lemma sound_SetReg:
  assumes "sound F M s" "wf_state s" "r < 16" "rep F v x"
  shows "sound F (set_reg r x M) (SetReg r v t s)"
proof (rule soundI)
  fix q
  assume "q < kNumGPRs"
  then show "rep F (gpr (SetReg r v t s) ! q) (mregs (set_reg r x M) q)"
    using assms by (auto simp: sound_def set_reg_def wf_state_def nth_list_update)
next
  show "slots_sound F (set_reg r x M) (SetReg r v t s)"
  proof (rule slots_sound_sub)
    show "slots_sound F M s" using assms(1) by (simp add: sound_def)
    show "mmem (set_reg r x M) = mmem M" by (simp add: set_reg_def)
  qed (rule slots_SetReg)
qed

lemma sound_Slot:
  assumes "sound F M s"
  shows "rep F (Slot s off) (load64 (mmem M) (fr_cfa F + word_of_int off))"
  using assms by (auto simp: Slot_def sound_def slots_sound_def split: option.split)

lemma MemSlot_rep:
  assumes "sound F M s" "wf_state s" "plain_mem Z i m" "MemSlot Z s i m = Some off"
  shows "mem_addr Z M m = fr_cfa F + word_of_int off" "in_int64 off"
proof -
  have b: "0 \<le> DWARFRegOf Z (mem_base m)" "DWARFRegOf Z (mem_base m) < 16"
    using assms(3) DWARFRegOf_full by (auto simp: plain_mem_def)
  obtain d where d: "reg s (DWARFRegOf Z (mem_base m)) = CFARel d" "off = wrap64 (d + mem_disp m)"
    using assms(4) by (auto simp: MemSlot_def split: if_splits AbsVal.splits)
  then show "in_int64 off" by simp
  show "mem_addr Z M m = fr_cfa F + word_of_int off"
    using sound_reg [OF assms(1,2) b] d by (simp add: mem_addr_def)
qed

text \<open>Storing an aligned quadword: the slot there gets the new value, the others are untouched.\<close>

lemma aligned8_offset:
  assumes "aligned8 c" "in_int64 off"
  shows "aligned8 (c + word_of_int off) \<longleftrightarrow> 8 dvd off"
proof -
  have "8 dvd unat w \<longleftrightarrow> 8 dvd uint w" for w :: u64
  proof -
    have "8 dvd unat w \<longleftrightarrow> int 8 dvd int (unat w)" by (simp only: int_dvd_int_iff)
    then show ?thesis by simp
  qed
  moreover have "uint (c + word_of_int off) = (uint c + off) mod 2 ^ 64"
    by (simp add: uint_word_ariths uint_word_of_int mod_simps)
  moreover have "8 dvd (x mod 2 ^ 64 :: int) \<longleftrightarrow> 8 dvd x" for x by (rule dvd_mod_iff) simp
  ultimately show ?thesis using assms(1) by (simp add: aligned8_def dvd_add_right_iff)
qed

lemma sound_store:
  assumes "sound F M s" "wf_state s" "aligned8 (fr_cfa F)" "in_int64 off" "aligned8 (fr_cfa F + word_of_int off)" "rep F v x"
  shows "sound F (set_mem (fr_cfa F + word_of_int off) x M) (SetSlot off v s)"
proof (rule soundI)
  fix q
  assume "q < kNumGPRs"
  then show "rep F (gpr (SetSlot off v s) ! q) (mregs (set_mem (fr_cfa F + word_of_int off) x M) q)"
    using assms(1) by (simp add: sound_def set_mem_def SetSlot_def)
next
  have 8: "8 dvd off" using assms(3,4,5) aligned8_offset by blast
  have "in_int64 o2 \<and> 8 dvd o2 \<and> rep F v2 (load64 (store64 (fr_cfa F + word_of_int off) x (mmem M)) (fr_cfa F + word_of_int o2))"
    if "map_of (slots (SetSlot off v s)) o2 = Some v2" for o2 v2
  proof (cases "o2 = off")
    case True
    then have "v2 = v" using that assms(2) by (auto simp: SetSlot_def omap_simps wf_state_def split: if_splits)
    with True 8 assms(4,6) show ?thesis by simp
  next
    case False
    then have old: "map_of (slots s) o2 = Some v2"
      using that assms(2) by (auto simp: SetSlot_def omap_simps wf_state_def split: if_splits)
    then have o2: "in_int64 o2" "8 dvd o2" "rep F v2 (load64 (mmem M) (fr_cfa F + word_of_int o2))"
      using assms(1) by (auto simp: sound_def slots_sound_def)
    have "fr_cfa F + word_of_int off \<noteq> fr_cfa F + word_of_int o2"
      using False assms(4) o2(1) by (simp add: word_of_int_in_int64_inj)
    with o2 assms(3,5) aligned8_offset [of "fr_cfa F" o2] show ?thesis by (simp add: load64_store64_other)
  qed
  then show "slots_sound F (set_mem (fr_cfa F + word_of_int off) x M) (SetSlot off v s)"
    by (simp add: slots_sound_def set_mem_def)
qed


text \<open>Registers that stay as they are, and registers about which nothing more is claimed.\<close>

lemma sound_ClobberReg_any:
  assumes "sound F M s" "wf_state s" "r < 16" "mmem M' = mmem M" "\<And>q. q < 16 \<Longrightarrow> q \<noteq> r \<Longrightarrow> mregs M' q = mregs M q"
  shows "sound F M' (ClobberReg r s)"
proof -
  have "sound F (set_reg r (mregs M' r) M) (ClobberReg r s)"
    unfolding ClobberReg_def by (rule sound_SetReg [OF assms(1-3)]) simp
  moreover have "mregs (set_reg r (mregs M' r) M) q = mregs M' q" if "q < 16" for q
    using that assms(5) by (simp add: set_reg_def)
  ultimately show ?thesis using assms(4) by (simp add: sound_def slots_sound_def) (simp add: set_reg_def)
qed

lemma sound_clear_guard [simp]: "sound F M (clear_guard i s) = sound F M s"
  by (simp add: sound_def slots_sound_def clear_guard_def)

lemma reg_clear_guard [simp]: "reg (clear_guard i s) r = reg s r" "MemSlot Z (clear_guard i s) i m = MemSlot Z s i m"
  by (simp_all add: clear_guard_def reg_def MemSlot_def)

lemma sound_sp: "sound F M s \<Longrightarrow> wf_state s \<Longrightarrow> reg s 7 = CFARel d \<Longrightarrow> mregs M 7 = fr_cfa F + word_of_int d"
  using sound_reg [of F M s 7] by simp

lemma sound_push:
  assumes "sound F M s" "wf_state s" "aligned8 (fr_cfa F)" "reg s 7 = CFARel d" "aligned8 (mregs M 7)"
    and "insn_id i = PUSH" "op_count i = 1" "operand_width (insn i) = 64" "op_value (operand i 0) = TypeRegister r" "IsFull64 Z r"
  shows "sound F (set_mem (mregs M 7 - 8) (mregs M (dreg Z r)) (set_reg 7 (mregs M 7 - 8) M)) (snd (xfer_push Z i s))"
proof -
  let ?at = "wrap64 (d - 8)"
  have sp: "mregs M 7 - 8 = fr_cfa F + word_of_int ?at"
    using sound_sp [OF assms(1,2,4)] by (simp add: algebra_simps)
  have al: "aligned8 (fr_cfa F + word_of_int ?at)"
  proof -
    have "8 dvd unat (mregs M 7) \<Longrightarrow> 8 dvd unat (mregs M 7 - 8)" by (auto simp: unat_sub_if' dvd_diff_nat)
    then show ?thesis using assms(5) unfolding sp [symmetric] aligned8_def by blast
  qed
  have r: "0 \<le> DWARFRegOf Z r" "DWARFRegOf Z r < 16" using DWARFRegOf_full [OF assms(10)] by auto
  have v: "rep F (pushed_value Z i s) (mregs M (dreg Z r))"
    using sound_reg [OF assms(1,2) r] assms(6,9,10) by (simp add: pushed_value_def ReadReg_def)
  have "sound F (set_reg 7 (mregs M 7 - 8) M) (SetReg1 kDWARFRsp (CFARel ?at) s)"
    unfolding SetReg1_def kDWARFRsp_def by (rule sound_SetReg [OF assms(1,2)]) (simp, simp only: rep.simps sp)
  from sound_store [OF this wf_state_writes(1) [OF assms(2)] assms(3) _ al v]
  have "sound F (set_mem (mregs M 7 - 8) (mregs M (dreg Z r)) (set_reg 7 (mregs M 7 - 8) M))
      (SetSlot ?at (pushed_value Z i s) (SetReg1 kDWARFRsp (CFARel ?at) s))"
    by (simp only: sp in_int64_wrap64)
  then show ?thesis using assms(4,6-8) by (simp add: xfer_push_def Let_def)
qed

lemma sound_pop:
  assumes "sound F M s" "wf_state s" "reg s 7 = CFARel d"
    and "insn_id i = POP" "op_count i = 1" "operand_width (insn i) = 64" "op_value (operand i 0) = TypeRegister r" "IsFull64 Z r"
  shows "sound F (set_reg (dreg Z r) (load64 (mmem M) (mregs M 7)) (set_reg 7 (mregs M 7 + 8) M)) (snd (xfer_pop Z i s))"
proof -
  have sp: "mregs M 7 = fr_cfa F + word_of_int d" by (rule sound_sp [OF assms(1-3)])
  have r: "0 \<le> DWARFRegOf Z r" "DWARFRegOf Z r < 16" using DWARFRegOf_full [OF assms(8)] by auto
  have 1: "sound F (set_reg 7 (mregs M 7 + 8) M) (SetReg1 kDWARFRsp (CFARel (wrap64 (d + 8))) s)"
    using sound_SetReg [OF assms(1,2), of 7 "CFARel (wrap64 (d + 8))" "mregs M 7 + 8" TV_None] sp
    by (simp add: SetReg1_def)
  have "rep F (Slot s d) (load64 (mmem M) (mregs M 7))" using sound_Slot [OF assms(1), of d] sp by simp
  from sound_SetReg [OF 1 wf_state_writes(1) [OF assms(2)] _ this, of "dreg Z r" TV_None] show ?thesis
    using assms(3-8) r by (simp add: xfer_pop_def pop_into_def Let_def SetReg1_def)
qed

lemma sound_leave:
  assumes "sound F M s" "wf_state s" "reg s 6 = CFARel d"
  shows "sound F (set_reg 7 (mregs M 6 + 8) (set_reg 6 (load64 (mmem M) (mregs M 6)) M)) (xfer_leave s)"
proof -
  have len: "length (gpr s) = 16" using assms(2) by (simp add: wf_state_def)
  have bp: "mregs M 6 = fr_cfa F + word_of_int d" using sound_reg [OF assms(1,2), of 6] assms(3) by simp
  let ?s1 = "CopyReg kDWARFRsp kDWARFRbp s"
  have g: "gpr s ! 6 = CFARel d" using assms(3) by (simp add: reg_def)
  then have r1: "reg ?s1 7 = CFARel d" using len by (simp add: reg_def CopyReg_def)
  have 1: "sound F (set_reg 7 (mregs M 6) M) ?s1"
    using sound_SetReg [OF assms(1,2), of 7 "gpr s ! 6" "mregs M 6" "tbl s ! 6"] g bp by (simp add: CopyReg_def)
  have wf1: "wf_state ?s1" by (simp add: assms(2) wf_state_writes)
  have "rep F (Slot ?s1 d) (load64 (mmem M) (mregs M 6))" using sound_Slot [OF 1, of d] bp by (simp add: set_reg_def)
  from sound_SetReg [OF 1 wf1 _ this, of 6 TV_None]
  have 2: "sound F (set_reg 6 (load64 (mmem M) (mregs M 6)) (set_reg 7 (mregs M 6) M)) (SetReg1 kDWARFRbp (Slot ?s1 d) ?s1)"
    by (simp add: SetReg1_def)
  have "sound F (set_reg 7 (mregs M 6 + 8) (set_reg 6 (load64 (mmem M) (mregs M 6)) (set_reg 7 (mregs M 6) M)))
      (SetReg1 kDWARFRsp (CFARel (wrap64 (d + 8))) (SetReg1 kDWARFRbp (Slot ?s1 d) ?s1))"
    unfolding SetReg1_def [of kDWARFRsp] unfolding kDWARFRsp_def
    by (rule sound_SetReg [OF 2 [unfolded kDWARFRsp_def]]) (use bp wf1 in \<open>simp_all add: wf_state_writes\<close>)
  moreover have "set_reg 7 (mregs M 6 + 8) (set_reg 6 (load64 (mmem M) (mregs M 6)) (set_reg 7 (mregs M 6) M)) =
      set_reg 7 (mregs M 6 + 8) (set_reg 6 (load64 (mmem M) (mregs M 6)) M)"
    by (simp add: set_reg_def fun_upd_twist)
  ultimately show ?thesis using r1 by (simp add: xfer_leave_def Let_def)
qed


lemma sound_lea:
  assumes "sound F M s" "wf_state s" "op_count i = 2" "op_value (operand i 0) = TypeRegister r" "IsFull64 Z r"
    and "op_value (operand i 1) = TypeMemory m" "plain_mem Z i m"
  shows "\<exists>s'. xfer_lea Z i s = Some s' \<and> sound F (set_reg (dreg Z r) (mem_addr Z M m) M) s'"
proof -
  have r: "0 \<le> DWARFRegOf Z r" "DWARFRegOf Z r < 16" using DWARFRegOf_full [OF assms(5)] by auto
  have rip: "mem_base m \<noteq> ZYDIS_REGISTER_RIP"
    using assms(7) by (auto simp: plain_mem_def IsFull64_def gpr_index_def kDwarfGprs_def)
  have "rep F (LeaValue Z s i m) (mem_addr Z M m)"
    using MemSlot_rep [OF assms(1,2,7)] by (auto simp: LeaValue_def split: option.split)
  from sound_SetReg [OF assms(1,2) _ this, of "dreg Z r" TV_None] show ?thesis
    using assms(3-7) r rip by (simp add: xfer_lea_def Let_def SetReg1_def)
qed

lemma sound_add_sub:
  assumes "sound F M s" "wf_state s" "op_count i = 2" "op_value (operand i 0) = TypeRegister r" "IsFull64 Z r"
    and "op_value (operand i 1) = TypeImmediate im"
  shows "\<exists>s'. xfer_add_sub Z i s = Some s' \<and>
    sound F (set_reg (dreg Z r) (if insn_id i = ADD then mregs M (dreg Z r) + im else mregs M (dreg Z r) - im) M) s'"
proof -
  have r: "0 \<le> DWARFRegOf Z r" "DWARFRegOf Z r < 16" "\<not> DWARFRegOf Z r < 0" using DWARFRegOf_full [OF assms(5)] by auto
  let ?x = "if insn_id i = ADD then mregs M (dreg Z r) + im else mregs M (dreg Z r) - im"
  have no: "add_dispatch Z i s = None" using assms(6) by (simp add: add_dispatch_def split: ZydisOperandValue.split)
  show ?thesis
  proof (cases "reg s (DWARFRegOf Z r)")
    case (CFARel d)
    let ?d = "sint (if insn_id i = ADD then word_of_int d + im else word_of_int d - im)"
    have "rep F (CFARel ?d) ?x" using sound_reg [OF assms(1,2) r(1,2)] CFARel by (simp add: algebra_simps)
    from sound_SetReg [OF assms(1,2) _ this, of "dreg Z r" TV_None] show ?thesis
      using assms(3-6) r no CFARel by (auto simp: xfer_add_sub_def add_sub_imm_def Let_def SetReg1_def)
  qed (use assms(3-6) r no sound_SetReg [OF assms(1,2), of "dreg Z r" Top ?x TV_None] in
      \<open>simp_all add: xfer_add_sub_def add_sub_imm_def Let_def ClobberWrittenReg_def upd_tbl_def ClobberReg_def sound_def slots_sound_def\<close>)
qed

lemma sound_mov_reg:
  assumes "sound F M s" "wf_state s" "op_count i = 2" "op_value (operand i 0) = TypeRegister r" "IsFull64 Z r"
    and "op_value (operand i 1) = TypeRegister r1" "IsFull64 Z r1"
  shows "\<exists>s'. xfer_mov Z i s = Some s' \<and> sound F (set_reg (dreg Z r) (mregs M (dreg Z r1)) M) s'"
proof -
  have r: "0 \<le> DWARFRegOf Z r" "DWARFRegOf Z r < 16" "0 \<le> DWARFRegOf Z r1" "DWARFRegOf Z r1 < 16"
    using DWARFRegOf_full [OF assms(5)] DWARFRegOf_full [OF assms(7)] by auto
  have "rep F (gpr s ! dreg Z r1) (mregs M (dreg Z r1))" using assms(1) r by (simp add: sound_def)
  from sound_SetReg [OF assms(1,2) _ this, of "dreg Z r" "tbl s ! dreg Z r1"] show ?thesis
    using assms(3-7) r by (simp add: xfer_mov_def mov_full_def Let_def CopyReg_def)
qed

lemma sound_mov_load:
  assumes "sound F M s" "wf_state s" "op_count i = 2" "op_value (operand i 0) = TypeRegister r" "IsFull64 Z r"
    and "op_value (operand i 1) = TypeMemory m" "op_size (operand i 1) = 64" "plain_mem Z i m"
  shows "\<exists>s'. xfer_mov Z i s = Some s' \<and> sound F (set_reg (dreg Z r) (load64 (mmem M) (mem_addr Z M m)) M) s'"
proof -
  have r: "0 \<le> DWARFRegOf Z r" "DWARFRegOf Z r < 16" using DWARFRegOf_full [OF assms(5)] by auto
  let ?v = "case MemSlot Z s i m of Some slot \<Rightarrow> Slot s slot | None \<Rightarrow> Top"
  have "rep F ?v (load64 (mmem M) (mem_addr Z M m))"
    using MemSlot_rep [OF assms(1,2,8)] sound_Slot [OF assms(1)] by (auto split: option.split)
  from sound_SetReg [OF assms(1,2) _ this, of "dreg Z r" TV_None] show ?thesis
    using assms(3-7) r by (cases "MemSlot Z s i m") (simp_all add: xfer_mov_def mov_full_def Let_def SetReg1_def)
qed

lemma sound_EraseSlots: "sound F M s \<Longrightarrow> sound F M (EraseSlots a n s)"
  by (auto simp: sound_def slots_sound_def EraseSlots_def omap_simps split: if_splits)

lemma sound_mov_store:
  assumes "sound F M s" "wf_state s" "aligned8 (fr_cfa F)" "op_count i = 2" "op_value (operand i 0) = TypeMemory m"
    and "op_size (operand i 0) = 64" "plain_mem Z i m" "op_value (operand i 1) = TypeRegister r" "IsFull64 Z r"
    and "aligned8 (mem_addr Z M m)" "MemSlot Z s i m = Some off"
  shows "\<exists>s'. xfer_mov Z i s = Some s' \<and> sound F (set_mem (mem_addr Z M m) (mregs M (dreg Z r)) M) s'"
proof -
  have r: "0 \<le> DWARFRegOf Z r" "DWARFRegOf Z r < 16" using DWARFRegOf_full [OF assms(9)] by auto
  note a = MemSlot_rep [OF assms(1,2,7,11)]
  let ?s1 = "EraseSlots off 8 s"
  have s1: "sound F M ?s1" "wf_state ?s1" using assms(1,2) by (simp_all add: sound_EraseSlots wf_state_EraseSlots)
  have "rep F (ReadReg Z ?s1 r) (mregs M (dreg Z r))" using sound_reg [OF s1 r] assms(9) by (simp add: ReadReg_def)
  from sound_store [OF s1 assms(3) a(2) _ this] show ?thesis
    using assms(4-11) a(1) by (simp add: xfer_mov_def mov_store_def Let_def)
qed


text \<open>A call: what is below the stack pointer and what the callee may change is forgotten.\<close>

lemma slots_ClobberRegs: "map_of (slots (fold ClobberReg rs s)) off = Some v \<Longrightarrow> map_of (slots s) off = Some v"
  by (induction rs arbitrary: s) (auto simp: ClobberReg_def dest: slots_SetReg)

lemma gpr_ClobberReg [simp]: "gpr (ClobberReg r s) = (gpr s)[r := Top]"
  by (simp add: ClobberReg_def)

lemma gpr_ClobberRegs: "q \<notin> set rs \<Longrightarrow> gpr (fold ClobberReg rs s) ! q = gpr s ! q"
  by (induction rs arbitrary: s) auto

lemma gpr_ClobberRegs_Top: "q \<in> set rs \<Longrightarrow> q < length (gpr s) \<Longrightarrow> gpr (fold ClobberReg rs s) ! q = Top"
proof (induction rs arbitrary: s)
  case (Cons r rs)
  then show ?case by (cases "q \<in> set rs") (auto simp: gpr_ClobberRegs)
qed simp

lemma sound_call:
  assumes "sound F M s" "wf_state s" "reg s 7 = CFARel d" "in_int64 d"
    and "\<And>r. r \<in> {3, 6, 7, 12, 13, 14, 15} \<Longrightarrow> mregs M' r = mregs M r"
    and "\<And>e. in_int64 e \<Longrightarrow> d \<le> e \<Longrightarrow> load64 (mmem M') (fr_cfa F + word_of_int e) = load64 (mmem M) (fr_cfa F + word_of_int e)"
  shows "sound F M' (xfer_call s)"
proof -
  let ?s1 = "DropSlotsBelow d s"
  have x: "xfer_call s = fold ClobberReg kCallerSaved ?s1" using assms(3) by (simp add: xfer_call_def Let_def)
  have len: "length (gpr ?s1) = 16" using assms(2) by (simp add: wf_state_def DropSlotsBelow_def)
  have "rep F (gpr (xfer_call s) ! q) (mregs M' q)" if "q < 16" for q
  proof (cases "q \<in> set kCallerSaved")
    case True
    then have "gpr (xfer_call s) ! q = Top" unfolding x using gpr_ClobberRegs_Top len that by simp
    then show ?thesis by simp
  next
    case False
    then have "gpr (xfer_call s) ! q = gpr s ! q" unfolding x by (simp add: gpr_ClobberRegs DropSlotsBelow_def)
    moreover have "q \<in> {3, 6, 7, 12, 13, 14, 15}" using False that by (simp add: kCallerSaved_def) arith
    ultimately show ?thesis using assms(1) assms(5) [of q] that by (auto simp: sound_def)
  qed
  moreover have "slots_sound F M' (xfer_call s)"
    unfolding slots_sound_def
  proof (intro allI impI)
    fix off v
    assume "map_of (slots (xfer_call s)) off = Some v"
    then have "map_of (slots ?s1) off = Some v" unfolding x by (rule slots_ClobberRegs)
    then have "map_of (slots s) off = Some v" "d \<le> off" by (auto simp: DropSlotsBelow_def omap_simps split: if_splits)
    with assms(1,6) show "in_int64 off \<and> 8 dvd off \<and> rep F v (load64 (mmem M') (fr_cfa F + word_of_int off))"
      by (auto simp: sound_def slots_sound_def)
  qed
  ultimately show ?thesis by (simp add: sound_def)
qed

text \<open>The generic clobber, for an instruction that writes registers only.\<close>

definition written :: "zydis \<Rightarrow> ZydisDecodedOperand list \<Rightarrow> nat set" where
  "written Z ops = {q. \<exists>op \<in> set ops. \<exists>r. op_value op = TypeRegister r \<and> op_writes op \<and> DWARFRegOf Z r = int q}"

lemma sound_clobber_fold:
  assumes "sound F M s" "wf_state s" "\<And>op m. op \<in> set ops \<Longrightarrow> op_value op = TypeMemory m \<Longrightarrow> \<not> op_writes op"
    and "mmem M' = mmem M" "\<And>q. q < 16 \<Longrightarrow> q \<notin> written Z ops \<Longrightarrow> mregs M' q = mregs M q"
  shows "sound F M' (fold (clobber_operand Z i) ops s)"
  using assms
proof (induction ops arbitrary: M s)
  case Nil
  then show ?case by (simp add: sound_def slots_sound_def written_def)
next
  case (Cons op ops)
  define M1 where "M1 = M\<lparr>mregs := (\<lambda>q. if q \<in> written Z [op] then mregs M' q else mregs M q)\<rparr>"
  have 1: "sound F M1 (clobber_operand Z i op s)"
  proof (cases "\<exists>r. op_value op = TypeRegister r \<and> op_writes op \<and> 0 \<le> DWARFRegOf Z r")
    case True
    then obtain r where r: "op_value op = TypeRegister r" "op_writes op" "0 \<le> DWARFRegOf Z r" by blast
    then have w: "written Z [op] = {dreg Z r}" by (auto simp: written_def)
    have lt: "dreg Z r < 16" using r(3) by (auto simp: DWARFRegOf_def gpr_index_def Let_def split: if_splits)
    have "sound F M1 (ClobberReg (dreg Z r) s)"
      by (rule sound_ClobberReg_any [OF Cons.prems(1,2) lt]) (simp_all add: M1_def w)
    then show ?thesis
      using r by (simp add: clobber_operand_def Let_def ClobberWrittenReg_def upd_tbl_def sound_def slots_sound_def)
  next
    case False
    then have "written Z [op] = {}" by (auto simp: written_def)
    moreover have "clobber_operand Z i op s = s"
      using False Cons.prems(3) [of op] by (auto simp: clobber_operand_def Let_def HandleUnplacedMemWrite_def split: ZydisOperandValue.split)
    ultimately show ?thesis using Cons.prems(1) by (simp add: M1_def sound_def slots_sound_def)
  qed
  have "sound F M' (fold (clobber_operand Z i) ops (clobber_operand Z i op s))"
  proof (rule Cons.IH [OF 1])
    fix q
    assume "q < 16" "q \<notin> written Z ops"
    then show "mregs M' q = mregs M1 q" using Cons.prems(5) [of q] by (auto simp: M1_def written_def)
  qed (use Cons.prems in \<open>auto simp: M1_def wf_state_clobber_operand\<close>)
  then show ?case by simp
qed

subsection \<open>Soundness of Transfer\<close>

text \<open>What the analysis must know for its claim about an instruction: where the stack pointer is for
  \<open>push\<close>, \<open>pop\<close> and \<open>call\<close>, where the frame pointer is for \<open>leave\<close>, where a store goes.\<close>

definition placed :: "zydis \<Rightarrow> Instruction \<Rightarrow> AbsState \<Rightarrow> bool" where
  "placed Z i s \<longleftrightarrow>
     (insn_id i \<in> set [PUSH, POP, CALL] \<longrightarrow> (case reg s 7 of CFARel d \<Rightarrow> in_int64 d | _ \<Rightarrow> False)) \<and>
     (insn_id i = LEAVE \<longrightarrow> is_cfarel (reg s 6)) \<and>
     (case op_value (operand i 0) of
        TypeMemory m \<Rightarrow> insn_id i = MOV \<longrightarrow> MemSlot Z s i m \<noteq> None
      | _ \<Rightarrow> True)"

lemma placed_iff:
  "placed Z i s \<longleftrightarrow>
     (insn_id i \<in> {PUSH, POP, CALL} \<longrightarrow> (\<exists>d. reg s 7 = CFARel d \<and> in_int64 d)) \<and>
     (insn_id i = LEAVE \<longrightarrow> (\<exists>d. reg s 6 = CFARel d)) \<and>
     (\<forall>m. insn_id i = MOV \<and> op_value (operand i 0) = TypeMemory m \<longrightarrow> MemSlot Z s i m \<noteq> None)"
proof -
  have sp: "(case v of CFARel d \<Rightarrow> in_int64 d | _ \<Rightarrow> False) = (\<exists>d. v = CFARel d \<and> in_int64 d)" for v
    by (cases v) auto
  have fp: "is_cfarel v = (\<exists>d. v = CFARel d)" for v by (cases v) (auto simp: is_cfarel_def)
  have st: "(case v of TypeMemory m \<Rightarrow> insn_id i = MOV \<longrightarrow> MemSlot Z s i m \<noteq> None | _ \<Rightarrow> True) =
    (\<forall>m. insn_id i = MOV \<and> v = TypeMemory m \<longrightarrow> MemSlot Z s i m \<noteq> None)" for v
    by (cases v) auto
  have mem: "(insn_id i \<in> set [PUSH, POP, CALL]) = (insn_id i \<in> {PUSH, POP, CALL})" by (simp only: list.set)
  show ?thesis unfolding placed_def sp fp st mem ..
qed

lemma Transfer_other:
  assumes "category (insn i) = CATEGORY_OTHER" "insn_id i \<notin> {RET, IRET, IRETD, IRETQ, UD0, UD1, UD2, HLT, INT3}"
  shows "Transfer Z i s = transfer_switch Z i (clear_guard i s)"
  using assms by (auto simp: Transfer_def Let_def)

lemma sound_regs_only:
  assumes "sound F M s" "wf_state s" "insn_id i = MNEMONIC_OTHER n" "mmem M' = mmem M"
    and "\<And>k m. k < operand_count (insn i) \<Longrightarrow> op_value (operand i k) = TypeMemory m \<Longrightarrow> \<not> op_writes (operand i k)"
    and "\<And>q. (\<And>k r. k < operand_count (insn i) \<Longrightarrow> op_value (operand i k) = TypeRegister r \<Longrightarrow> op_writes (operand i k) \<Longrightarrow>
              DWARFRegOf Z r \<noteq> int q) \<Longrightarrow> q < 16 \<Longrightarrow> mregs M' q = mregs M q"
  shows "sound F M' (snd (transfer_switch Z i s))"
proof -
  have "sound F M' (ClobberWrites Z i s)"
    unfolding ClobberWrites_def
  proof (rule sound_clobber_fold [OF assms(1,2)])
    fix q
    assume "q < 16" "q \<notin> written Z (map (operand i) [0..<operand_count (insn i)])"
    then show "mregs M' q = mregs M q" using assms(6) [of q] by (auto simp: written_def)
  qed (use assms(4,5) in auto)
  then show ?thesis using assms(3) by (simp add: transfer_switch_def or_clobber_def)
qed

lemma sound_call_step:
  assumes "sound F M s" "wf_state s" "placed Z i s" "insn_id i = CALL" "mregs M 7 = fr_cfa F + word_of_int d" "in_int64 d"
    and "\<And>r. r \<in> {3, 6, 7, 12, 13, 14, 15} \<Longrightarrow> mregs M' r = mregs M r"
    and "\<And>e. in_int64 e \<Longrightarrow> d \<le> e \<Longrightarrow> load64 (mmem M') (fr_cfa F + word_of_int e) = load64 (mmem M) (fr_cfa F + word_of_int e)"
  shows "sound F M' (snd (transfer_switch Z i s))"
proof -
  obtain d' where d': "reg s 7 = CFARel d'" "in_int64 d'" using assms(3,4) by (auto simp: placed_iff)
  then have "d' = d" using sound_sp [OF assms(1,2) d'(1)] assms(5,6) by (simp add: word_of_int_in_int64_inj)
  with d' sound_call [OF assms(1,2) d' assms(7)] assms(8) have "sound F M' (xfer_call s)" by blast
  then show ?thesis using assms(4) by (simp add: transfer_switch_def)
qed

lemma Transfer_sound_aux:
  assumes "mstep Z F i M M'" "sound F M s" "wf_state s" "aligned8 (fr_cfa F)" "placed Z i s" "category (insn i) = CATEGORY_OTHER"
  shows "sound F M' (snd (Transfer Z i s))"
proof -
  let ?s = "clear_guard i s"
  have s: "sound F M ?s" "wf_state ?s" using assms(2,3) by (simp_all add: wf_state_clear_guard)
  have p: "placed Z i ?s" using assms(5) by (simp add: placed_iff)
  note T = Transfer_other [OF assms(6)] transfer_switch_def
  show ?thesis
    using assms(1)
  proof cases
    case (push_reg r)
    obtain d where "reg ?s 7 = CFARel d" using p push_reg(1) by (auto simp: placed_iff)
    from sound_push [OF s assms(4) this push_reg(6,1-5)] show ?thesis using push_reg by (simp add: T)
  next
    case (pop_reg r)
    obtain d where "reg ?s 7 = CFARel d" using p pop_reg(1) by (auto simp: placed_iff)
    from sound_pop [OF s this pop_reg(1-5)] show ?thesis using pop_reg by (simp add: T)
  next
    case leave
    obtain d where "reg ?s 6 = CFARel d" using p leave(1) by (auto simp: placed_iff)
    from sound_leave [OF s this] show ?thesis using leave by (simp add: T)
  next
    case (lea r m)
    from sound_lea [OF s lea(2-6)] show ?thesis using lea by (auto simp: T or_clobber_def)
  next
    case (add_imm r im)
    from sound_add_sub [OF s add_imm(2-5)] show ?thesis using add_imm by (auto simp: T or_clobber_def)
  next
    case (mov_reg r r1)
    from sound_mov_reg [OF s mov_reg(2-6)] show ?thesis using mov_reg by (auto simp: T or_clobber_def)
  next
    case (mov_load r m)
    from sound_mov_load [OF s mov_load(2-7)] show ?thesis using mov_load by (auto simp: T or_clobber_def)
  next
    case (mov_store m r)
    obtain off where "MemSlot Z ?s i m = Some off" using p mov_store(1,3) by (auto simp: placed_iff)
    from sound_mov_store [OF s assms(4) mov_store(2-8) this] show ?thesis using mov_store by (auto simp: T or_clobber_def)
  next
    case (call d)
    from sound_call_step [OF s p call] show ?thesis using call(1) by (simp add: Transfer_other [OF assms(6)])
  next
    case (regs_only n)
    from sound_regs_only [OF s regs_only(1,4,2,3)] show ?thesis using regs_only(1) by (simp add: Transfer_other [OF assms(6)])
  next
    case nop
    then show ?thesis using s by (auto simp: T)
  qed
qed


subsection \<open>What a row is for\<close>

text \<open>Unwinding with a row, as DWARF defines it: the CFA, and the caller's value of a register for the
  rules that say where it is.\<close>

definition unwind_cfa :: "CFIRow \<Rightarrow> machine \<Rightarrow> u64" where
  "unwind_cfa row M = mregs M (cfa_reg (row_cfa row)) + word_of_int (cfa_offset (row_cfa row))"

definition unwind_reg :: "CFIRow \<Rightarrow> machine \<Rightarrow> nat \<Rightarrow> u64 option" where
  "unwind_reg row M r = (let rule = row_regs row ! r in case rule_kind rule of
       RSameValue \<Rightarrow> Some (mregs M r)
     | RAtCFAOffset \<Rightarrow> Some (load64 (mmem M) (unwind_cfa row M + word_of_int (rule_offset rule)))
     | RInRegister \<Rightarrow> Some (mregs M (rule_reg rule))
     | _ \<Rightarrow> None)"

definition unwinds :: "frame \<Rightarrow> machine \<Rightarrow> CFIRow \<Rightarrow> bool" where
  "unwinds F M row \<longleftrightarrow> unwind_cfa row M = fr_cfa F \<and>
     (\<forall>r < kNumDWARFRegs. \<forall>x. unwind_reg row M r = Some x \<longrightarrow> x = fr_orig F r)"

lemma sound_reg_known:
  assumes "sound F M s" "reg s (int r) = v" "v \<noteq> Bottom"
  shows "rep F v (mregs M r)"
proof -
  have "r < 16" using assms(2,3) by (auto simp: reg_def split: if_splits)
  then show ?thesis using assms(1,2) by (auto simp: sound_def reg_def)
qed

lemma row_holds_unwinds:
  assumes "sound F M s" "row_holds u row s"
  shows "unwinds F M row"
proof -
  obtain d where d: "reg s (int (cfa_reg (row_cfa row))) = CFARel d" "wrap64 (d + cfa_offset (row_cfa row)) = 0"
    using assms(2) by (auto simp: row_holds_def cfa_holds_def)
  have z: "word_of_int d + word_of_int (cfa_offset (row_cfa row)) = (0 :: u64)"
    using arg_cong [OF d(2), of "word_of_int :: int \<Rightarrow> u64"] by simp
  have "mregs M (cfa_reg (row_cfa row)) = fr_cfa F + word_of_int d" using sound_reg_known [OF assms(1) d(1)] by simp
  then have cfa: "unwind_cfa row M = fr_cfa F" using z by (simp add: unwind_cfa_def add.assoc)
  have "x = fr_orig F r" if r: "r < kNumDWARFRegs" and x: "unwind_reg row M r = Some x" for r x
  proof -
    let ?rule = "row_regs row ! r"
    have holds: "reg_holds u r ?rule s" using assms(2) r by (simp add: row_holds_def)
    consider "rule_kind ?rule = RSameValue" "x = mregs M r"
      | "rule_kind ?rule = RAtCFAOffset" "x = load64 (mmem M) (fr_cfa F + word_of_int (rule_offset ?rule))"
      | "rule_kind ?rule = RInRegister" "x = mregs M (rule_reg ?rule)"
      using x by (auto simp: unwind_reg_def cfa Let_def split: RegRuleKind.splits)
    then show ?thesis
    proof cases
      case 1
      then show ?thesis using holds sound_reg_known [OF assms(1), of r "OrigReg r"] by (simp add: reg_holds_def)
    next
      case 2
      then show ?thesis using holds sound_Slot [OF assms(1), of "rule_offset ?rule"] by (simp add: reg_holds_def)
    next
      case 3
      then show ?thesis using holds sound_reg_known [OF assms(1), of "rule_reg ?rule" "OrigReg r"] by (simp add: reg_holds_def)
    qed
  qed
  with cfa show ?thesis by (simp add: unwinds_def)
qed

text \<open>A state may be replaced by one that claims no more.\<close>

definition claims_le :: "AbsState \<Rightarrow> AbsState \<Rightarrow> bool" where
  "claims_le u s \<longleftrightarrow> (\<forall>r \<in> set [0..<kNumGPRs]. gpr u ! r = gpr s ! r \<or> is_unknown (gpr u ! r) \<or> gpr u ! r = Other) \<and>
     (\<forall>(off, v) \<in> set (slots u). Slot s off = v \<or> is_unknown v \<or> v = Other) \<and>
     (\<forall>(off, v) \<in> set (slots u). in_int64 off \<and> 8 dvd off)"

lemma sound_claims_le:
  assumes "sound F M s" "claims_le u s"
  shows "sound F M u"
proof (rule soundI)
  fix r
  assume "r < kNumGPRs"
  then have "rep F (gpr s ! r) (mregs M r)" "r \<in> set [0..<kNumGPRs]" using assms(1) by (simp_all add: sound_def)
  moreover from this have "gpr u ! r = gpr s ! r \<or> is_unknown (gpr u ! r) \<or> gpr u ! r = Other"
    using assms(2) unfolding claims_le_def by blast
  ultimately show "rep F (gpr u ! r) (mregs M r)" by (auto simp: is_unknown_def)
next
  show "slots_sound F M u"
    using assms sound_Slot [OF assms(1)] unfolding slots_sound_def claims_le_def is_unknown_def
    by (fastforce dest!: map_of_SomeD)
qed

end
