(* ===== verification/Run_Props.thy ===== *)
theory Run_Props
  imports Machine Check_Props
begin

text \<open>
  The analysis against the machine: what a row that holds of a true state is worth, the machine the
  examples run on, and why a join may lose soundness, which the theorems on whole runs have to
  rule out.
\<close>

subsection \<open>One step\<close>

text \<open>A machine at the entry of a function whose frame has the CFA \<open>0x8000\<close>.\<close>

definition sample_frame :: frame where
  "sample_frame = \<lparr>fr_cfa = 0x8000, fr_orig = (\<lambda>r. if r = 16 then load64 (\<lambda>_. 0) 0x7ff8 else of_nat (r + 1))\<rparr>"

definition sample_machine :: machine where
  "sample_machine = \<lparr>mregs = (\<lambda>r. if r = 7 then 0x7ff8 else of_nat (r + 1)), mmem = (\<lambda>_. 0)\<rparr>"

definition sample_push :: Instruction where
  "sample_push = \<lparr>address = 0x1000, insn_size = 1, insn_id = PUSH, op_count = 1, operands = [sample_rbp False], insn = sample_insn PUSH 1\<rparr>"

abbreviation sample_pushed :: machine where
  "sample_pushed \<equiv> set_mem (mregs sample_machine 7 - 8) (mregs sample_machine 6) (set_reg 7 (mregs sample_machine 7 - 8) sample_machine)"

lemma sample_dreg: "DWARFRegOf sample_zydis ZYDIS_REGISTER_RBP = 6" "IsFull64 sample_zydis ZYDIS_REGISTER_RBP"
  by code_simp+

lemma sample_mstep: "mstep sample_zydis F sample_push sample_machine sample_pushed"
  using mstep.push_reg [of sample_push ZYDIS_REGISTER_RBP sample_zydis sample_machine sample_pushed F] sample_dreg
  by (simp add: sample_push_def operand_def sample_rbp_def sample_insn_def sample_machine_def aligned8_def)

lemma sample_sound: "sound sample_frame sample_machine Entry"
proof (rule soundI)
  fix r
  assume "r < kNumGPRs"
  then show "rep sample_frame (gpr Entry ! r) (mregs sample_machine r)"
    by (cases "r = 7") (auto simp: Entry_def sample_frame_def sample_machine_def)
next
  show "slots_sound sample_frame sample_machine Entry"
    by (auto simp: slots_sound_def Entry_def sample_frame_def sample_machine_def in_int64_def split: if_splits)
qed

text \<open>What the row check is worth: if the abstract state is true of the machine and the row holds
  of the abstract state, unwinding the machine with the row gives the CFA of the frame and, for
  every register whose rule says where its value is, the value it had at entry.\<close>

lemma row_check_unwinds:
  assumes "sound F M s" "RowMatchesCleanly opts pc row s force"
  shows "unwind_cfa row M = fr_cfa F \<and> (\<forall>r < kNumDWARFRegs. \<forall>x. unwind_reg row M r = Some x \<longrightarrow> x = fr_orig F r)"
  using row_holds_unwinds [OF assms(1)] assms(2) unfolding RowMatchesCleanly_row_holds unwinds_def by blast

lemma sample_row_clean: "RowMatchesCleanly sample_options 0x1000 (sample_row 0x1000 8 RegRule0) Entry False"
  by code_simp

text \<open>The soundness of a state is about its frame half only.\<close>

lemma sound_cong: "gpr s = gpr t \<Longrightarrow> slots s = slots t \<Longrightarrow> sound F M s = sound F M t"
  by (simp add: sound_def slots_sound_def)

abbreviation sample_seed :: AbsState where
  "sample_seed \<equiv> SeedFromRow (sample_row 0x1000 8 RegRule0) (IsCanonicalEntry (sample_row 0x1000 8 RegRule0))"

lemma sample_seed_sound: "sound sample_frame sample_machine sample_seed"
proof -
  have "sample_seed = Entry" by code_simp
  with sample_sound show ?thesis by simp
qed

subsection \<open>Joins\<close>

text \<open>C36. The proviso of the theorem on runs is needed, because an unknown value is neutral in a join: where
  the stored state knows nothing of a register, the joined state takes over the claim of the
  incoming one, with no conflict reported, although the path the stored state stands for may have
  left any value there.\<close>

theorem Join_keeps_one_sided_claim:
  assumes "wf_state s" "r < kNumGPRs" "gpr s ! r = Top" "gpr t ! r = OrigReg r"
    and "sound F M s" "mregs M r \<noteq> fr_orig F r"
  shows "gpr (fst (snd (Join t s))) ! r = OrigReg r \<and> (\<forall>jc \<in> set (snd (snd (Join t s))). jc_reg jc \<noteq> int r) \<and>
    \<not> sound F M (fst (snd (Join t s)))"
proof -
  have g: "gpr (fst (snd (Join t s))) ! r = OrigReg r"
    using gpr_Join [of s r t] assms(1-4) by (simp add: wf_state_def sup_Top)
  moreover have "\<not> sound F M (fst (snd (Join t s)))"
    using g assms(2,6) by (auto simp: sound_def)
  moreover have "\<forall>jc \<in> set (snd (snd (Join t s))). jc_reg jc \<noteq> int r"
    using assms(3) by (auto simp: Join_def Let_def JoinValue_def is_top_def kSlotConflict_def)
  ultimately show ?thesis by blast
qed

definition sample_clobbered :: machine where
  "sample_clobbered = set_reg 3 0 sample_machine"

theorem Join_keeps_one_sided_claim_witness:
  "sound sample_frame sample_clobbered (ClobberReg 3 Entry) \<and>
   \<not> sound sample_frame sample_clobbered (fst (snd (Join Entry (ClobberReg 3 Entry))))"
proof -
  have s: "sound sample_frame sample_clobbered (ClobberReg 3 Entry)"
    by (rule sound_ClobberReg_any [OF sample_sound wf_state_Entry]) (simp_all add: sample_clobbered_def set_reg_def)
  have "wf_state (ClobberReg 3 Entry)" by (rule wf_state_writes(4) [OF wf_state_Entry])
  moreover have "gpr (ClobberReg 3 Entry) ! 3 = Top" "gpr Entry ! 3 = OrigReg 3" by code_simp+
  moreover have "mregs sample_clobbered 3 \<noteq> fr_orig sample_frame 3"
    by (simp add: sample_clobbered_def set_reg_def sample_frame_def)
  ultimately have "\<not> sound sample_frame sample_clobbered (fst (snd (Join Entry (ClobberReg 3 Entry))))"
    using Join_keeps_one_sided_claim [OF _ _ _ _ s, of 3 Entry] by simp
  with s show ?thesis ..
qed

end
