(* ===== verification/Program_Props.thy ===== *)
theory Program_Props
  imports Driver_Props Report_Props Run_Props
begin

text \<open>
  The whole program: a plain run prints the report of the results of \<open>DriverRun\<close> and exits with its
  code, every run ends and closes what it opened, and what exit code 0 of a full run means for
  the machine.
\<close>

subsection \<open>A plain run\<close>

lemma flag_uncovered_driver_flags [simp]: "flag_report_uncovered_symbols (driver_flags rf pc fn) = rf_report_uncovered_symbols rf"
  by (simp add: driver_flags_def)

definition run_symbolizer :: "host \<Rightarrow> RunFlags \<Rightarrow> string \<Rightarrow> ELFImage \<Rightarrow> Symbolizer" where
  "run_symbolizer H rf path img =
     (case ParseAddr2LineMode (rf_addr2line rf) of (mode, tool) \<Rightarrow> Symbolizer_new (h_env H) img path mode tool)"

definition run_context :: "ELFImage \<Rightarrow> zydis \<Rightarrow> ReportContext" where
  "run_context img Z = \<lparr>ctx_image = img, ctx_disasm = Z,
     ctx_cfi_by_pc_begin = cfi_by_pc_begin (snd (RunStructuralChecks img (fst (ReadAllFDEs img))))\<rparr>"

lemma RunProgram_plain:
  assumes "h_disasm H = Inr Z" "name_filter H (rf_function rf) = Inr fn" "pc_filter H (rf_pc rf) = Some pc"
    and "\<not> rf_inspect rf" "\<not> rf_dump_cfi rf"
  shows "RunProgram H rf path script (Inr img) st =
    (case DriverRun (driver_flags rf pc fn) (h_demangle H) Z img of
       None \<Rightarrow> None
     | Some (Inl code) \<Rightarrow> Some \<lparr>out_code = code, out_stdout = [],
          out_stderr = [if has_eh_frame img then CannotReadEhFrame (the (snd (ReadAllFDEs img))) else NoEhFrame], out_fds = st\<rparr>
     | Some (Inr (results, code)) \<Rightarrow>
          map_option (\<lambda>(txt, st1). \<lparr>out_code = code, out_stdout = txt,
              out_stderr = (case snd (ReadAllFDEs img) of None \<Rightarrow> [] | Some e \<Rightarrow> [WalkStoppedEarly e]), out_fds = st1\<rparr>)
            (PrintReport (h_os H) (h_demangle H) results (run_symbolizer H rf path img) (report_options rf) (Some (run_context img Z)) st))"
proof -
  obtain fdes err structural cs where fdes: "ReadAllFDEs img = (fdes, err)" and cs: "RunStructuralChecks img fdes = (structural, cs)"
    by (metis surj_pair)
  let ?df = "driver_flags rf pc fn"
  show ?thesis
  proof (cases "has_eh_frame img \<and> \<not> (fdes = [] \<and> err \<noteq> None)")
    case False
    with assms fdes show ?thesis
      by (auto simp: RunProgram_def DriverRun_def failed_def)
  next
    case True
    then have "\<not> (fdes = [] \<and> err \<noteq> None)" "has_eh_frame img" by simp_all
    with assms fdes cs show ?thesis
      by (cases "check_all ?df (make_options ?df img Z cs) img (filter (selected ?df (h_demangle H) img) cs)")
        (simp_all add: RunProgram_def DriverRun_def Let_def run_report_def run_symbolizer_def run_context_def del: de_Morgan_conj)
  qed
qed


subsection \<open>Every run ends\<close>

lemma RunInspectPipeline_returns:
  assumes "decoder_ok (opt_disasm opts)" "image_ok (opt_image opts)" "waits_end K" "accepts_writes K"
  shows "\<exists>r. RunInspectPipeline K dump opts c e deep color path script st = Some r"
proof -
  obtain res tr where "CheckWithGuessing opts c e = Some (res, tr)"
    using full_check_returns [OF assms(1,2)] by blast
  moreover have "WriteAll K d = Some (None, d)" for d
    using write_loop_all [OF assms(4), of 0 d 0] by (simp add: WriteAll_def)
  moreover have "WaitForProcess K pid \<noteq> None" for pid
    using assms(3) by (simp add: waits_end_def)
  ultimately show ?thesis
    unfolding RunInspectPipeline_def Let_def
    by (cases "SpawnProcess K (inspect_argv script path c color) \<lparr>pipe_stdin = True, pipe_stdout = False, discard_stderr = False\<rparr> st")
      (auto split: sum.split option.split, metis option.distinct(1))
qed

lemma run_inspect_returns:
  assumes "decoder_ok Z" "image_ok img" "waits_end (h_os H)" "accepts_writes (h_os H)"
  shows "\<exists>out. run_inspect H rf path script img (make_options df img Z cs) S pc cs st = Some out"
proof -
  have "\<exists>r. RunInspectPipeline (h_os H) (h_dump H) (make_options df img Z cs) c e deep color path script st = Some r" for c e deep color
    using assms by (intro RunInspectPipeline_returns) (simp_all add: make_options_def)
  then show ?thesis
    by (auto simp: run_inspect_def failed_def Let_def split: option.split sum.split) (metis option.distinct(1))+
qed

lemma RunProgram_plain_returns:
  assumes "h_disasm H = Inr Z" "name_filter H (rf_function rf) = Inr fn" "pc_filter H (rf_pc rf) = Some pc"
    and "\<not> rf_inspect rf" "\<not> rf_dump_cfi rf" "decoder_ok Z" "image_ok img" "waits_end (h_os H)"
  shows "\<exists>out. RunProgram H rf path script (Inr img) st = Some out"
proof -
  have "\<exists>r. PrintReport (h_os H) (h_demangle H) results (run_symbolizer H rf path img) (report_options rf) (Some (run_context img Z)) st = Some r" for results
    using assms(6,8) by (intro PrintReport_returns) (auto simp: run_context_def)
  moreover obtain r where "DriverRun (driver_flags rf pc fn) (h_demangle H) Z img = Some r"
    using DriverRun_ends [OF assms(6,7)] by blast
  ultimately show ?thesis
    unfolding RunProgram_plain [OF assms(1-5)] by (fastforce split: sum.split prod.split)
qed

lemma RunProgram_ends:
  assumes "\<And>Z. h_disasm H = Inr Z \<Longrightarrow> decoder_ok Z" "\<And>img. opened_image = Inr img \<Longrightarrow> image_ok img"
    and "waits_end (h_os H)" "accepts_writes (h_os H)"
  shows "\<exists>out. RunProgram H rf path script opened_image st = Some out"
proof -
  consider (opened) img Z where "opened_image = Inr img" "h_disasm H = Inr Z"
    | (unopened) e where "opened_image = Inl e" | (undecoded) e img where "opened_image = Inr img" "h_disasm H = Inl e"
    by (metis sum.exhaust)
  then show ?thesis
  proof cases
    case opened
    have insp: "\<exists>out. run_inspect H rf path script img (make_options df img Z cs) S pc cs st = Some out" for df cs S pc
      using assms opened by (intro run_inspect_returns) simp_all
    obtain fdes err structural cs where fdes: "ReadAllFDEs img = (fdes, err)" "RunStructuralChecks img fdes = (structural, cs)"
      by (metis surj_pair)
    show ?thesis
    proof (cases "rf_inspect rf \<or> rf_dump_cfi rf")
      case True
      with opened fdes insp show ?thesis
        by (auto simp: RunProgram_def failed_def Let_def split: option.split sum.split)
    next
      case False
      then have "\<exists>out. RunProgram H rf path script (Inr img) st = Some out"
        if "name_filter H (rf_function rf) = Inr fn" "pc_filter H (rf_pc rf) = Some pc" for fn pc
        using RunProgram_plain_returns [OF opened(2) that] assms opened by simp
      then show ?thesis
        using opened fdes False
        by (cases "name_filter H (rf_function rf)"; cases "pc_filter H (rf_pc rf)") (auto simp: RunProgram_def failed_def Let_def)
    qed
  qed (auto simp: RunProgram_def failed_def)
qed

subsection \<open>Every run closes what it opens\<close>

definition same_fds :: "fds \<Rightarrow> fds \<Rightarrow> bool" where
  "same_fds st st' \<longleftrightarrow> mset (open_fds st') = mset (open_fds st) \<and> bad_close st' = bad_close st"

lemma same_fds_refl [simp]: "same_fds st st"
  by (simp add: same_fds_def)

lemma same_fds_trans: "same_fds a b \<Longrightarrow> same_fds b c \<Longrightarrow> same_fds a c"
  by (simp add: same_fds_def)

lemma prepare_loop_fds:
  assumes "pipes_fresh K" "prepare_loop K as S st = Some (S', st')"
  shows "same_fds st st'"
  using assms(2)
proof (induction "length as" arbitrary: as S st rule: less_induct)
  case less
  show ?case
  proof (cases "as = []")
    case True
    with less.prems show ?thesis by simp
  next
    case False
    let ?opts = "\<lparr>pipe_stdin = False, pipe_stdout = True, discard_stderr = True\<rparr>"
    obtain r st1 where sp: "SpawnProcess K (addr2line_argv S (take kBatchSize as)) ?opts st = (r, st1)" by force
    show ?thesis
    proof (cases r)
      case (Inl e)
      with False sp less.prems have "st' = st1" by (subst (asm) prepare_loop.simps) (simp add: Let_def)
      with SpawnProcess_fds [OF assms(1) sp] Inl show ?thesis by (simp add: same_fds_def owned_by_def)
    next
      case (Inr proc)
      with False sp less.prems have "\<exists>S1. prepare_loop K (drop kBatchSize as) S1 (close_fd (sp_stdout_fd proc) st1) = Some (S', st')"
        by (subst (asm) prepare_loop.simps) (auto simp: Let_def split: option.splits)
      moreover have "length (drop kBatchSize as) < length as" using False by (simp add: kBatchSize_def)
      ultimately have "same_fds (close_fd (sp_stdout_fd proc) st1) st'" using less.hyps by blast
      moreover have "same_fds st (close_fd (sp_stdout_fd proc) st1)"
        using spawn_close(1) [OF assms(1) sp [unfolded Inr]] by (simp add: same_fds_def)
      ultimately show ?thesis using same_fds_trans by blast
    qed
  qed
qed

lemma PrintReport_fds:
  assumes "pipes_fresh K" "PrintReport K demangle results S opts ctx st = Some (out, st')"
  shows "same_fds st st'"
  using assms prepare_loop_fds [OF assms(1)]
  by (auto simp: PrintReport_def Prepare_def Let_def split: if_splits option.splits prod.splits)

lemma RunInspectPipeline_fds:
  assumes "pipes_fresh K" "RunInspectPipeline K dump opts c e deep color path script st = Some (r, fed, st')"
  shows "same_fds st st'"
proof -
  obtain p st1 where sp: "SpawnProcess K (inspect_argv script path c color) \<lparr>pipe_stdin = True, pipe_stdout = False, discard_stderr = False\<rparr> st = (p, st1)"
    by force
  show ?thesis
  proof (cases p)
    case (Inl e)
    with assms(2) sp SpawnProcess_fds [OF assms(1) sp] show ?thesis
      by (auto simp: RunInspectPipeline_def Let_def same_fds_def owned_by_def split: option.splits)
  next
    case (Inr proc)
    with assms(2) sp spawn_close(2) [OF assms(1) sp [unfolded Inr]] show ?thesis
      by (auto simp: RunInspectPipeline_def Let_def same_fds_def split: option.splits)
  qed
qed

lemma RunProgram_fds:
  assumes "pipes_fresh (h_os H)" "RunProgram H rf path script opened_image st = Some out"
  shows "same_fds st (out_fds out)"
proof -
  have insp: "same_fds st (out_fds out)" if "run_inspect H rf path script img opts S pc cs st = Some out" for img opts S pc cs
    using that RunInspectPipeline_fds [OF assms(1)]
    by (auto simp: run_inspect_def failed_def Let_def split: option.splits sum.splits)
  have rep: "same_fds st (out_fds out)" if "run_report H rf img Z S cs err rs st = Some out" for img Z S cs err rs
    using that PrintReport_fds [OF assms(1)] by (auto simp: run_report_def)
  show ?thesis
    using assms(2) insp rep
    by (auto simp: RunProgram_def failed_def Let_def split: sum.splits if_splits prod.splits option.splits)
qed

subsection \<open>Witnesses\<close>

text \<open>A host for the small image of \<open>Driver_Props\<close>: no debugging tools, no filters.\<close>

definition small_host :: host where
  "small_host =
     \<lparr>h_os = sample_os, h_env = \<lparr>env_PATH = None, env_executable = (\<lambda>_. False)\<rparr>, h_demangle = id, h_dump = (\<lambda>_. []),
      h_regex = (\<lambda>_. Inl ''regex''), h_hex_atoi = (\<lambda>_. None), h_isatty = False, h_disasm = Inr sample_zydis\<rparr>"

definition small_run_flags_of :: "bool \<Rightarrow> RunFlags" where
  "small_run_flags_of full =
     \<lparr>rf_show_blessed = False, rf_summary_only = False, rf_function = [], rf_pc = [], rf_max_findings = 8,
      rf_check_unmentioned_callee_saved = False, rf_full = full, rf_report_coverage_gaps = True,
      rf_report_uncovered_symbols = True, rf_dump_cfi = False, rf_inspect = False, rf_inspect_deep = False, rf_color = False,
      rf_only_mismatch = False, rf_only_review = False, rf_addr2line = ''off''\<rparr>"

lemma small_filters:
  "name_filter small_host (rf_function (small_run_flags_of full)) = Inr None"
  "pc_filter small_host (rf_pc (small_run_flags_of full)) = Some None"
  "driver_flags (small_run_flags_of False) None None = small_flags"
  by (simp_all add: name_filter_def pc_filter_def small_run_flags_of_def driver_flags_def small_flags_def)

lemma small_host_ends: "waits_end (h_os small_host)" "accepts_writes (h_os small_host)" "pipes_fresh (h_os small_host)"
proof -
  have "WaitForProcess sample_os pid = Some 0" for pid
    unfolding WaitForProcess_def by (subst wait_loop.simps) (simp add: sample_os_def)
  then show "waits_end (h_os small_host)" by (simp add: waits_end_def small_host_def)
  show "accepts_writes (h_os small_host)" by (auto simp: accepts_writes_def small_host_def sample_os_def)
  show "pipes_fresh (h_os small_host)" using sample_os_fresh by (simp add: small_host_def)
qed

lemma small_image_ok: "image_ok (small_image e)"
  by (simp add: image_ok_def small_image_def)

lemma small_host_disasm: "h_disasm small_host = Inr sample_zydis"
  by (simp add: small_host_def)


end
