(* ===== verification/File_Props.thy ===== *)
theory File_Props
  imports File_Sample Program_Props
begin

text \<open>
  What a run does to the process around it: the image that \<open>OpenFile\<close> hands out is the one \<open>Open\<close>
  builds from the bytes of the file, and whatever happens on the way, the descriptors and the address
  space are afterwards as they were before.
\<close>

subsection \<open>Ranges of pages\<close>

lemma RoundUp_pages:
  assumes "4096 dvd unat v"
  shows "RoundUp v kPageSize = v"
proof -
  obtain k where k: "unat v = 4096 * k" using assms by blast
  have "unat v < 2 ^ 64" using unsigned_less [of v] by simp
  with k have "k < 2 ^ 52" by simp
  with k have "unat (RoundUp v kPageSize) = unat v" by (subst unat_RoundUp) simp_all
  then show ?thesis by (simp add: word_unat_eq_iff)
qed

lemma RoundUp_dvd: "4096 dvd unat (RoundUp v kPageSize)"
  by (simp add: RoundUp_def unat_RoundDown)

lemma minus_dvd:
  fixes a b :: u64
  assumes "4096 dvd unat a" "4096 dvd unat b"
  shows "4096 dvd unat (a - b)"
proof -
  have "(4096 :: int) dvd uint a" "(4096 :: int) dvd uint b"
    using assms by (metis of_nat_dvd_iff of_nat_numeral uint_nat)+
  then have "(4096 :: int) dvd uint a - uint b" by simp
  then have "(4096 :: int) dvd (uint a - uint b) mod 2 ^ 64" by (simp add: dvd_mod)
  then have "(4096 :: int) dvd uint (a - b)" by (simp add: uint_word_ariths)
  then show ?thesis by (metis of_nat_dvd_iff of_nat_numeral uint_nat)
qed

lemma unat_add_below:
  fixes x y z :: u64
  assumes "unat x + unat y < unat z"
  shows "unat (x + y) = unat x + unat y"
  using assms unsigned_less [of z, where 'a = nat] by (simp add: unat_word_ariths)

lemma unmap_map_range:
  "(\<And>a. in_pages start len a \<Longrightarrow> \<not> space a) \<Longrightarrow> unmap_range start len (map_range start len space) = space"
  by (auto simp: unmap_range_def map_range_def)

lemma map_range_mapped: "(\<And>a. in_pages start len a \<Longrightarrow> space a) \<Longrightarrow> map_range start len space = space"
  by (auto simp: map_range_def)

subsection \<open>The segments stay inside\<close>

text \<open>A file none of whose segments wraps around the address space.\<close>

definition file_no_wrap :: "u8 list \<Rightarrow> bool" where
  "file_no_wrap file \<longleftrightarrow> (case plan_image file of Inl _ \<Rightarrow> True | Inr (segs, _) \<Rightarrow> \<forall>seg \<in> set segs. seg_no_wrap seg)"

lemma plan_image_pages:
  assumes "plan_image file = Inr (segs, lo, span, h)" "\<forall>seg \<in> set segs. seg_no_wrap seg" "seg \<in> set segs"
    and "in_pages (seg_page seg + (A - lo)) (seg_map_len seg) a"
  shows "in_pages A span a"
proof -
  have "4096 dvd unat span"
    using assms(1) by (elim plan_imageE) (simp add: minus_dvd RoundUp_dvd unat_RoundDown)
  note pages = RoundUp_pages [OF this] RoundUp_pages [OF RoundUp_dvd]
  let ?x = "a - (seg_page seg + (A - lo))" and ?y = "seg_page seg - lo"
  have "unat ?x < unat (seg_map_len seg)"
    using assms(4) by (simp add: in_pages_def seg_map_len_def pages word_less_nat_alt)
  with plan_image_inside [OF assms(1-3)] have "unat ?x + unat ?y < unat span" by simp
  moreover from this have "unat (?x + ?y) = unat ?x + unat ?y" by (rule unat_add_below)
  moreover have "?x + ?y = a - A" by simp
  ultimately show ?thesis by (simp add: in_pages_def pages word_less_nat_alt)
qed

lemma place_segments_result: "fst (place_segments K b segs space) = map_segments (fs_mmap_fixed K) b segs"
  by (induction segs arbitrary: space) auto

lemma place_segments_space:
  assumes "\<And>seg a. seg \<in> set segs \<Longrightarrow> in_pages (seg_page seg + b) (seg_map_len seg) a \<Longrightarrow> space a"
  shows "snd (place_segments K b segs space) = space"
  using assms
proof (induction segs)
  case (Cons seg segs)
  then have "map_range (seg_page seg + b) (seg_map_len seg) space = space" by (intro map_range_mapped) auto
  moreover have "snd (place_segments K b segs space) = space" by (rule Cons.IH) (use Cons.prems in auto)
  ultimately show ?case by simp
qed simp

subsection \<open>Opening gives back what it takes\<close>

text \<open>What \<open>mmap\<close> documents of a call that leaves the address to the kernel.\<close>

definition mmap_fresh :: "file_os \<Rightarrow> bool" where
  "mmap_fresh K \<longleftrightarrow> (\<forall>space len A. fs_mmap K space len = Inr A \<longrightarrow> A \<noteq> 0 \<and> (\<forall>a. in_pages A len a \<longrightarrow> \<not> space a))"

lemma mmap_freshD:
  assumes "mmap_fresh K" "fs_mmap K space len = Inr A"
  shows "A \<noteq> 0" "unmap_range A len (map_range A len space) = space"
  using assms by (auto simp: mmap_fresh_def intro!: unmap_map_range)

lemma load_image_space:
  assumes "mmap_fresh K" "file_no_wrap file" "m_image m = 0" "load_image K file m space = (r, m', space')"
  shows "destroy_image m' space' = destroy_image m space"
proof (cases "m' = m \<and> space' = space")
  case False
  obtain segs lo span h A where plan: "plan_image file = Inr (segs, lo, span, h)" and A: "fs_mmap K space span = Inr A"
    using assms(4) False by (auto simp: load_image_def split: sum.splits)
  let ?sp = "map_range A span space"
  have "snd (place_segments K (A - lo) segs ?sp) = ?sp"
    using plan assms(2) plan_image_pages [OF plan]
    by (intro place_segments_space) (auto simp: file_no_wrap_def map_range_def)
  with assms(4) plan A have "m' = m\<lparr>m_image := A, m_image_size := span\<rparr>" "space' = ?sp"
    by (auto simp: load_image_def Let_def split: prod.splits option.splits)
  with mmap_freshD [OF assms(1) A] assms(3) show ?thesis by (simp add: destroy_image_def)
qed simp

definition files_no_wrap :: "file_os \<Rightarrow> bool" where
  "files_no_wrap K \<longleftrightarrow> (\<forall>fd n. fs_stat K fd = Inr n \<longrightarrow> file_no_wrap (file_of K fd n))"

lemma files_no_wrapD: "files_no_wrap K \<Longrightarrow> fs_stat K fd = Inr n \<Longrightarrow> file_no_wrap (file_of K fd n)"
  by (simp add: files_no_wrap_def)

lemma open_fd_space:
  assumes "mmap_fresh K" "files_no_wrap K" "open_fd K fd space = (r, space')"
  shows "(case r of Inl _ \<Rightarrow> space' | Inr (_, m) \<Rightarrow> destroy_image m space') = space"
proof (cases "r \<in> Inl ` UNIV \<and> space' = space")
  case False
  obtain n F where n: "fs_stat K fd = Inr n" "\<not> n < 64" and F: "fs_mmap K space (word_of_int n) = Inr F"
    using assms(3) False by (auto simp: open_fd_def Let_def split: sum.splits if_splits)
  let ?m = "\<lparr>m_image = 0, m_image_size = 0, m_file = F, m_file_size = word_of_int n\<rparr>"
  obtain r1 m1 space1 where load: "load_image K (file_of K fd n) ?m (map_range F (word_of_int n) space) = (r1, m1, space1)"
    by (metis surj_pair)
  have "destroy_image m1 space1 = space"
    using load_image_space [OF assms(1) files_no_wrapD [OF assms(2) n(1)] _ load] mmap_freshD [OF assms(1) F] by (simp add: destroy_image_def)
  with assms(3) n F load show ?thesis by (auto simp: open_fd_def Let_def split: sum.splits)
qed auto

lemma close_opened: "close_fd fd (st\<lparr>open_fds := fd # open_fds st\<rparr>) = st"
  by (simp add: close_fd_def)

lemma OpenFile_fds: "OpenFile K path p = (r, p') \<Longrightarrow> pr_fds p' = pr_fds p"
  by (auto simp: OpenFile_def close_opened split: sum.splits prod.splits)

lemma OpenFile_space:
  assumes "mmap_fresh K" "files_no_wrap K" "OpenFile K path p = (r, p')"
  shows "(case r of Inl _ \<Rightarrow> pr_mapped p' | Inr (_, m) \<Rightarrow> destroy_image m (pr_mapped p')) = pr_mapped p"
  using assms(3) open_fd_space [OF assms(1,2)]
  by (cases "fs_open K path (open_fds (pr_fds p))") (auto simp: OpenFile_def split: prod.splits)

subsection \<open>Opening refines \<open>Open\<close>\<close>

definition reserve_of :: "file_os \<Rightarrow> address_space \<Rightarrow> u64 \<Rightarrow> u64 option" where
  "reserve_of K space n = (case fs_mmap K space n of Inl _ \<Rightarrow> None | Inr A \<Rightarrow> Some A)"

lemma load_image_Open: "fst (load_image K file m space) = Open (reserve_of K space) (fs_mmap_fixed K) file"
proof (cases "plan_image file")
  case (Inr p)
  obtain segs lo span h where p: "p = (segs, lo, span, h)" by (metis surj_pair)
  show ?thesis
  proof (cases "fs_mmap K space span")
    case (Inr A)
    then show ?thesis
      using \<open>plan_image file = Inr p\<close> p place_segments_result [of K "A - lo" segs "map_range A span space"]
      by (cases "place_segments K (A - lo) segs (map_range A span space)")
        (auto simp: load_image_def Open_def reserve_of_def Let_def split: option.splits)
  qed (use Inr p in \<open>simp add: load_image_def Open_def reserve_of_def\<close>)
qed (simp add: load_image_def Open_def)

lemma OpenFile_OpenE:
  assumes "OpenFile K path p = (Inr (img, m), p')"
  obtains fd n space where "fs_open K path (open_fds (pr_fds p)) = Inr fd" "fs_stat K fd = Inr n"
    "Open (reserve_of K space) (fs_mmap_fixed K) (file_of K fd n) = Inr img"
proof -
  obtain fd space where fd: "fs_open K path (open_fds (pr_fds p)) = Inr fd" and opened_fd: "open_fd K fd (pr_mapped p) = (Inr (img, m), space)"
    using assms by (auto simp: OpenFile_def split: sum.splits prod.splits)
  from opened_fd obtain n A where n: "fs_stat K fd = Inr n" "\<not> n < 64" "fs_mmap K (pr_mapped p) (word_of_int n) = Inr A"
    by (auto simp: open_fd_def Let_def split: sum.splits if_splits)
  let ?load = "load_image K (file_of K fd n) \<lparr>m_image = 0, m_image_size = 0, m_file = A, m_file_size = word_of_int n\<rparr>
    (map_range A (word_of_int n) (pr_mapped p))"
  have "fst ?load = Inr img"
    using opened_fd n by (cases ?load; cases "fst ?load") (auto simp: open_fd_def Let_def)
  then show thesis using that [OF fd n(1)] by (simp add: load_image_Open)
qed

lemma Open_image_ok:
  assumes "Open reserve map_ok file = Inr img" "file_no_wrap file"
  shows "image_ok img"
proof -
  obtain segs lo span h where plan: "plan_image file = Inr (segs, lo, span, h)" "segments img = segs"
    using assms(1) by (rule Open_InrE)
  then obtain ps where ps: "scan_ok file ps" "set segs = set (ps_segments ps)" by (elim plan_imageE)
  have "unat (seg_vaddr seg) + unat (seg_filesz seg) < 2 ^ 64" if "seg \<in> set segs" for seg
  proof -
    have "unat (seg_filesz seg) \<le> unat (seg_memsz seg)"
      using ps that by (auto simp: scan_ok_def seg_in_file_def word_le_nat_alt)
    moreover have "unat (seg_vaddr seg) + unat (seg_memsz seg) + 4096 \<le> 2 ^ 64"
      using assms(2) plan(1) that by (simp add: file_no_wrap_def seg_no_wrap_def)
    ultimately show ?thesis by simp
  qed
  with plan(2) show ?thesis by (simp add: image_ok_def)
qed

subsection \<open>The run over a file\<close>

lemma RunFile_ends:
  assumes "\<And>Z. h_disasm H = Inr Z \<Longrightarrow> decoder_ok Z" "files_no_wrap K" "waits_end (h_os H)" "accepts_writes (h_os H)"
  shows "\<exists>r. RunFile H K rf path script p = Some r"
proof -
  obtain r p' where o: "OpenFile K path p = (r, p')" by force
  show ?thesis
  proof (cases r)
    case (Inl e)
    then show ?thesis
      using o RunProgram_ends [OF assms(1) _ assms(3,4), of "Inl e" rf path script "pr_fds p'"] by (auto simp: RunFile_def)
  next
    case (Inr im)
    obtain img m where im: "im = (img, m)" by force
    obtain fd n space where "fs_stat K fd = Inr n" "Open (reserve_of K space) (fs_mmap_fixed K) (file_of K fd n) = Inr img"
      using o Inr im by (auto elim: OpenFile_OpenE)
    then have "image_ok img" using Open_image_ok files_no_wrapD [OF assms(2)] by blast
    then obtain out where "RunProgram H rf path script (Inr img) (pr_fds p') = Some out"
      using RunProgram_ends [OF assms(1) _ assms(3,4), of "Inr img" rf path script "pr_fds p'"] by auto
    with o Inr im show ?thesis by (simp add: RunFile_def)
  qed
qed


text \<open>C15. A run leaves the process as it found it: whatever it was asked to do and however far it got, every
  descriptor it opened, for the file, for addr2line or for the inspect script, has been closed exactly
  once, and every mapping it made has been undone, if no segment wraps around the address space and
  the kernel hands out descriptors and addresses that are free.\<close>

theorem RunFile_no_leak:
  assumes "pipes_fresh (h_os H)" "mmap_fresh K" "files_no_wrap K" "RunFile H K rf path script p = Some (out, space)"
  shows "mset (open_fds (out_fds out)) = mset (open_fds (pr_fds p)) \<and> bad_close (out_fds out) = bad_close (pr_fds p) \<and>
    space = pr_mapped p"
proof -
  obtain r p' where o: "OpenFile K path p = (r, p')" by force
  note same = OpenFile_fds [OF o] OpenFile_space [OF assms(2,3) o]
  obtain opened_image where "RunProgram H rf path script opened_image (pr_fds p') = Some out"
    "space = (case r of Inl _ \<Rightarrow> pr_mapped p' | Inr (_, m) \<Rightarrow> destroy_image m (pr_mapped p'))"
    using assms(4) o by (auto simp: RunFile_def split: sum.splits)
  with RunProgram_fds [OF assms(1)] same show ?thesis by (auto simp: same_fds_def)
qed

subsection \<open>Witnesses\<close>

text \<open>A system whose only file is the one of \<open>File_Sample\<close>, a kernel that maps at two fixed places if they
  are free, and a process with the three standard descriptors.\<close>

definition tiny_file_os :: file_os where
  "tiny_file_os =
     \<lparr>fs_open = (\<lambda>path used. if path = ''a.out'' then Inr 3 else Inl ''ENOENT''), fs_stat = (\<lambda>fd. Inr 243),
      fs_data = (\<lambda>fd. fbyte tiny_so),
      fs_mmap = (\<lambda>space len. let A = (if len = 243 then 0x20000 else 0x1000) in
                   if \<forall>a. in_pages A len a \<longrightarrow> \<not> space a then Inr A else Inl ''ENOMEM''),
      fs_mmap_fixed = (\<lambda>_ _ _. True)\<rparr>"

lemma file_of_tiny: "file_of tiny_file_os fd 243 = tiny_so"
  by (rule nth_equalityI) (simp_all add: file_of_def tiny_file_os_def tiny_fields(1) fbyte_def)

lemma tiny_file_os_ok: "files_no_wrap tiny_file_os" "mmap_fresh tiny_file_os"
proof -
  have "n = 243" if "fs_stat tiny_file_os fd = Inr n" for fd n using that by (simp add: tiny_file_os_def)
  moreover have "file_no_wrap tiny_so" by (simp add: file_no_wrap_def tiny_plan seg_no_wrap_def tiny_segment_def)
  ultimately show "files_no_wrap tiny_file_os" unfolding files_no_wrap_def by (metis file_of_tiny)
  show "mmap_fresh tiny_file_os"
    by (auto simp: mmap_fresh_def tiny_file_os_def Let_def split: if_splits)
qed

definition low_process :: process where
  "low_process = \<lparr>pr_fds = std_fds, pr_mapped = (\<lambda>a. a < 0x1000)\<rparr>"


theorem RunFile_no_leak_witness:
  "\<exists>out space. RunFile small_host tiny_file_os (small_run_flags_of True) ''a.out'' [] low_process = Some (out, space) \<and>
     mset (open_fds (out_fds out)) = {#0, 1, 2#} \<and> space = (\<lambda>a. a < 0x1000)"
proof -
  let ?run = "RunFile small_host tiny_file_os (small_run_flags_of True) ''a.out'' [] low_process"
  obtain out space where out: "?run = Some (out, space)"
    using RunFile_ends [OF _ tiny_file_os_ok(1) small_host_ends(1,2)] sample_decoder_ok small_host_disasm by force
  with RunFile_no_leak [OF small_host_ends(3) tiny_file_os_ok(2,1) out] show ?thesis
    by (simp add: low_process_def)
qed

end
