(* ===== verification/Bound_Props.thy ===== *)
theory Bound_Props
  imports Machine Sample
begin

text \<open>
  The bounds of the table half of the state, against the machine: \<open>value_bound\<close> bounds the whole
  register, a proven guard bounds its low bits. They decide how many entries of a jump table are
  read, so they must never be too small. Shown is what the two places that derive a new bound from
  old ones may rely on: the widening moves, and the edge a conditional branch takes.
\<close>

definition guard_holds :: "machine \<Rightarrow> FlagsGuard \<Rightarrow> bool" where
  "guard_holds M g \<longleftrightarrow> take_bit (width_bits g) (mregs M (fg_reg g)) \<le> proven_bound g"

definition bounds_sound :: "machine \<Rightarrow> AbsState \<Rightarrow> bool" where
  "bounds_sound M s \<longleftrightarrow> (\<forall>r < kNumGPRs. mregs M r \<le> value_bound (tbl s ! r)) \<and>
     (case last_cmp s of None \<Rightarrow> True | Some g \<Rightarrow> guard_holds M g)"

text \<open>What the processor decides: the unsigned comparison of the guarded bits with the immediate.\<close>

definition unsigned_jump :: "ZydisMnemonic \<Rightarrow> u64 \<Rightarrow> u64 \<Rightarrow> bool option" where
  "unsigned_jump m x y = (case m of
     JNBE \<Rightarrow> Some (x > y) | JNB \<Rightarrow> Some (x \<ge> y) | JBE \<Rightarrow> Some (x \<le> y) | JB \<Rightarrow> Some (x < y) | _ \<Rightarrow> None)"

definition takes_edge :: "machine \<Rightarrow> FlagsGuard \<Rightarrow> Instruction \<Rightarrow> BranchEdge \<Rightarrow> bool" where
  "takes_edge M g i edge \<longleftrightarrow>
     (case unsigned_jump (insn_id i) (take_bit (width_bits g) (mregs M (fg_reg g))) (imm g) of
        None \<Rightarrow> True | Some taken \<Rightarrow> taken = (edge = kTaken))"

subsection \<open>Words of a given width\<close>

lemma le_kBoundTop [simp]: "x \<le> kBoundTop"
  by (simp add: kBoundTop_def)

lemma WidthBound_mask: "WidthBound n = mask n"
proof (cases "n \<ge> 64")
  case True
  then have "mask n = (-1 :: u64)"
    by (intro bit_word_eqI) (auto simp: bit_mask_iff)
  with True show ?thesis by (simp add: WidthBound_def kBoundTop_def)
next
  case False
  then show ?thesis by (simp add: WidthBound_def mask_eq_exp_minus_1 push_bit_eq_mult)
qed

lemma take_bit_le_self: "take_bit n (x :: u64) \<le> x"
  by (simp add: word_le_def unsigned_take_bit_eq take_bit_int_less_eq_self_iff)

lemma take_bit_le_mask: "take_bit n (x :: u64) \<le> mask n"
proof -
  have "take_bit n (uint x) = take_bit (min 64 n) (uint x)"
    by (cases "n < 64") (simp_all add: min_def bintr_uint)
  then show ?thesis
    by (simp add: word_le_def unsigned_take_bit_eq uint_mask_eq take_bit_int_less_eq_mask)
qed

lemma le_mask_take_bit:
  assumes "(x :: u64) \<le> mask n"
  shows "take_bit n x = x"
proof (cases "n < 64")
  case True
  with assms have "uint x \<le> mask n"
    by (simp add: word_le_def uint_mask_eq min_def)
  then have "uint x < 2 ^ n"
    by (simp add: mask_eq_exp_minus_1)
  then have "uint (take_bit n x) = uint x"
    by (simp add: unsigned_take_bit_eq take_bit_int_eq_self)
  then show ?thesis by (metis word_of_int_uint)
qed (simp add: take_bit_word_eq_self)

lemma signed_take_bit_below:
  assumes "take_bit n (x :: u64) < push_bit (n - 1) 1" "0 < n"
  shows "signed_take_bit (n - 1) x = take_bit n x"
proof -
  have "push_bit (n - 1) (1 :: u64) \<noteq> 0"
    using assms(1) by (metis not_less word_zero_le)
  then have "n - 1 < 64"
    by (simp add: push_bit_eq_mult)
  moreover have "(0 :: u64) < 2 ^ (n - 1)"
    using \<open>push_bit (n - 1) (1 :: u64) \<noteq> 0\<close> by (simp add: push_bit_eq_mult word_gt_0)
  ultimately have "uint (push_bit (n - 1) 1 :: u64) = 2 ^ (n - 1)"
    by (simp add: push_bit_eq_mult uint_2p)
  then have "uint (take_bit n x) \<le> mask (n - 1)"
    using assms(1) by (simp add: word_less_def mask_eq_exp_minus_1)
  then have "take_bit n x \<le> mask (n - 1)"
    using \<open>n - 1 < 64\<close> by (simp add: word_le_def uint_mask_eq min_def)
  then have "take_bit n x = take_bit (n - 1) (take_bit n x)"
    by (rule le_mask_take_bit [symmetric])
  then have eq: "take_bit n x = take_bit (n - 1) x"
    by simp
  then have "\<not> bit x (n - 1)"
    using assms(2) by (metis bit_take_bit_iff diff_less less_irrefl zero_less_one)
  with eq show ?thesis
    by (simp add: signed_take_bit_eq_if_positive)
qed

text \<open>The bound a read of the low bits of a register may rely on.\<close>

lemma ProvenGuardBound_sound:
  assumes "bounds_sound M s"
  shows "take_bit n (mregs M r) \<le> ProvenGuardBound s (int r) n"
proof -
  have "take_bit n (mregs M r) \<le> proven_bound g"
    if "last_cmp s = Some g" "n \<le> width_bits g" "fg_reg g = r" for g
  proof -
    have "take_bit n (mregs M r) = take_bit n (take_bit (width_bits g) (mregs M r))"
      using that by (simp add: min_def)
    also have "\<dots> \<le> take_bit (width_bits g) (mregs M r)"
      by (rule take_bit_le_self)
    also have "\<dots> \<le> proven_bound g"
      using assms that by (simp add: bounds_sound_def guard_holds_def)
    finally show ?thesis .
  qed
  then show ?thesis
    by (auto simp: ProvenGuardBound_def WidthBound_mask take_bit_le_mask split: option.splits)
qed

lemma low_bits_bound:
  assumes "bounds_sound M s" "r < kNumGPRs"
  shows "take_bit n (mregs M r) \<le>
           min (WidthBound n) (min (value_bound (table s (int r))) (ProvenGuardBound s (int r) n))"
proof -
  have "take_bit n (mregs M r) \<le> value_bound (table s (int r))"
    using assms order_trans [OF take_bit_le_self] by (fastforce simp: bounds_sound_def table_def)
  then show ?thesis
    using ProvenGuardBound_sound [OF assms(1)] by (simp add: WidthBound_mask take_bit_le_mask)
qed

definition bound_machine :: machine where
  "bound_machine = \<lparr>mregs = (\<lambda>r. if r = 0 then 7 else 0x8000000000000000), mmem = (\<lambda>_. 0)\<rparr>"

lemma tbl_AbsState0: "r < kNumGPRs \<Longrightarrow> tbl AbsState0 ! r = TV_None"
  by (simp add: AbsState0_def)

subsection \<open>The edges of a conditional branch\<close>

lemma kNumGPRs_table: "value_bound (table s (int r)) = (if r < kNumGPRs then value_bound (tbl s ! r) else kBoundTop)"
  by (simp add: table_def TV_None_def)

lemma InRangeEdgeOf_sound:
  assumes "takes_edge M g i edge"
  shows "InRangeEdgeOf (insn_id i) edge = GAtMostImm \<Longrightarrow> take_bit (width_bits g) (mregs M (fg_reg g)) \<le> imm g"
    and "InRangeEdgeOf (insn_id i) edge = GBelowImm \<Longrightarrow> take_bit (width_bits g) (mregs M (fg_reg g)) < imm g"
  using assms
  by (auto simp: InRangeEdgeOf_def takes_edge_def unsigned_jump_def split: ZydisMnemonic.splits if_splits)

text \<open>What an edge of a branch adds: nothing, or a bound that holds on it.\<close>

lemma TransferEdge_guard:
  assumes "bounds_sound M s" "last_cmp s = Some g" "\<not> proven g \<longrightarrow> InRangeEdgeOf (insn_id i) edge \<noteq> GNone \<longrightarrow> takes_edge M g i edge"
  obtains (same) "TransferEdge i edge s = s"
  | (proved) b where "\<not> proven g" "take_bit (width_bits g) (mregs M (fg_reg g)) \<le> b"
      "TransferEdge i edge s = s\<lparr>last_cmp := Some (g\<lparr>proven_bound := b\<rparr>)\<rparr>"
  | (applied) b where "\<not> proven g" "take_bit (width_bits g) (mregs M (fg_reg g)) \<le> b" "mregs M (fg_reg g) \<le> b"
      "TransferEdge i edge s = ApplyGuardBound (int (fg_reg g)) b (s\<lparr>last_cmp := Some (g\<lparr>proven_bound := b\<rparr>)\<rparr>)"
proof -
  let ?e = "InRangeEdgeOf (insn_id i) edge" and ?low = "take_bit (width_bits g) (mregs M (fg_reg g))"
  let ?b = "if ?e = GBelowImm then imm g - 1 else imm g"
  let ?s = "s\<lparr>last_cmp := Some (g\<lparr>proven_bound := ?b\<rparr>)\<rparr>"
  let ?wide = "width_bits g \<ge> 64 \<or> value_bound (table ?s (int (fg_reg g))) \<le> WidthBound (width_bits g)"
  consider "?e = GNone \<or> proven g \<or> (?e = GBelowImm \<and> imm g = 0)"
    | "?e \<noteq> GNone" "\<not> proven g" "\<not> (?e = GBelowImm \<and> imm g = 0)" by blast
  then show thesis
  proof cases
    case 1
    with assms(2) show thesis by (intro same) (auto simp: TransferEdge_def Let_def)
  next
    case 2
    then have low: "?low \<le> ?b"
      using InRangeEdgeOf_sound [of M g i edge] assms(3) 2(1,2) by (cases ?e) (auto simp: word_le_nat_alt word_less_nat_alt unat_minus_one)
    have edge: "TransferEdge i edge s = (if ?wide then ApplyGuardBound (int (fg_reg g)) ?b ?s else ?s)"
      using 2 assms(2) by (auto simp: TransferEdge_def Let_def)
    show thesis
    proof (cases ?wide)
      case True
      then have "mregs M (fg_reg g) \<le> WidthBound (width_bits g)"
        using assms(1) by (auto simp: kNumGPRs_table bounds_sound_def WidthBound_def split: if_splits
            intro: order_trans order_trans [OF le_kBoundTop])
      then have "?low = mregs M (fg_reg g)" by (simp add: WidthBound_mask le_mask_take_bit)
      with low edge True 2(2) show thesis by (intro applied [of ?b]) simp_all
    next
      case False
      with low edge 2(2) show thesis by (intro proved [of ?b]) simp_all
    qed
  qed
qed

definition sample_compared :: AbsState where
  "sample_compared = AbsState0\<lparr>last_cmp := Some \<lparr>fg_reg = 0, width_bits = 64, imm = 9, proven_bound = kBoundTop\<rparr>\<rparr>"

definition sample_ja :: Instruction where
  "sample_ja = \<lparr>address = 0x1000, insn_size = 2, insn_id = JNBE, op_count = 0, operands = [], insn = sample_insn JNBE 0\<rparr>"

end
