(* ===== verification/Cpu.thy ===== *)
theory Cpu
  imports Bound_Props Run_Props
begin

text \<open>
  The processor as the program counter sees it: the flags that unsigned jumps read, the
  instructions of a switch dispatch besides those of \<open>Machine\<close>, and where control goes after an
  instruction. Nothing here looks at the edges the analysis computes.
\<close>

subsection \<open>Flags\<close>

record eflags =
  ef_cf :: bool
  ef_zf :: bool

definition compare_flags :: "u64 \<Rightarrow> u64 \<Rightarrow> eflags" where
  "compare_flags x y = \<lparr>ef_cf = (x < y), ef_zf = (x = y)\<rparr>"

text \<open>Whether a conditional jump is taken; \<open>None\<close> for the jumps that read other flags.\<close>

definition jump_taken :: "ZydisMnemonic \<Rightarrow> eflags \<Rightarrow> bool option" where
  "jump_taken m fl = (case m of
     JNBE \<Rightarrow> Some (\<not> ef_cf fl \<and> \<not> ef_zf fl) | JNB \<Rightarrow> Some (\<not> ef_cf fl)
   | JBE \<Rightarrow> Some (ef_cf fl \<or> ef_zf fl) | JB \<Rightarrow> Some (ef_cf fl) | _ \<Rightarrow> None)"

text \<open>What an instruction does to them; \<open>None\<close> are the flags after a call, which the ABI leaves
  undefined. A \<open>cmp\<close> of a register (not one of the byte registers) with an immediate sets them to
  the comparison; any other instruction that writes flags may leave anything.\<close>

definition flags_step :: "zydis \<Rightarrow> Instruction \<Rightarrow> machine \<Rightarrow> eflags option \<Rightarrow> eflags option \<Rightarrow> bool" where
  "flags_step Z i M fl fl' \<longleftrightarrow>
     (if insn_id i = CMP
      then WritesEflags i \<and>
        (\<forall>r im. op_value (operand i 0) = TypeRegister r \<and> op_value (operand i 1) = TypeImmediate im \<and> 0 \<le> DWARFRegOf Z r \<longrightarrow>
           op_size (operand i 0) \<in> {16, 32, 64} \<and>
           fl' = Some (compare_flags (take_bit (op_size (operand i 0)) (mregs M (dreg Z r))) (take_bit (op_size (operand i 0)) im)))
      else if insn_id i = CALL then fl' = None
      else WritesEflags i \<or> fl' = fl)"

subsection \<open>Registers and memory\<close>

definition all_operands :: "Instruction \<Rightarrow> ZydisDecodedOperand list" where
  "all_operands i = map (operand i) [0..<operand_count (insn i)]"

text \<open>Every write of a 32-bit register clears the upper half.\<close>

definition zero_extends :: "zydis \<Rightarrow> Instruction \<Rightarrow> machine \<Rightarrow> bool" where
  "zero_extends Z i M' \<longleftrightarrow>
     (\<forall>op \<in> set (all_operands i). \<forall>r q. op_value op = TypeRegister r \<and> op_writes op \<and> RegWidthBits Z r = 32 \<and>
        DWARFRegOf Z r = int q \<longrightarrow> mregs M' q \<le> mask 32)"

definition writes_only :: "zydis \<Rightarrow> Instruction \<Rightarrow> ZydisRegister \<Rightarrow> bool" where
  "writes_only Z i r \<longleftrightarrow>
     (\<forall>op \<in> set (all_operands i). \<forall>m. op_value op = TypeMemory m \<longrightarrow> \<not> op_writes op) \<and>
     (\<exists>op \<in> set (all_operands i). op_value op = TypeRegister r \<and> op_writes op) \<and>
     written Z (all_operands i) = {dreg Z r} \<and> 0 \<le> DWARFRegOf Z r"

text \<open>The word at an address of a loaded image, sign-extended, and the same read from memory. \<open>in_place\<close>:
  the file's data is still there.\<close>

definition table_word :: "ELFImage \<Rightarrow> u64 \<Rightarrow> u64" where
  "table_word img a = scast (of_nat (le_nat (BytesAt img a 4)) :: u32)"

definition load_bytes :: "machine \<Rightarrow> u64 \<Rightarrow> nat \<Rightarrow> u8 list" where
  "load_bytes M a n = map (\<lambda>k. mmem M (a + of_nat k)) [0..<n]"

definition in_place :: "ELFImage \<Rightarrow> machine \<Rightarrow> u64 \<Rightarrow> bool" where
  "in_place img M a \<longleftrightarrow> (IsFileBackedNonExecutable img a 4 \<longrightarrow> load_bytes M a 4 = BytesAt img a 4)"

definition load32s :: "machine \<Rightarrow> u64 \<Rightarrow> u64" where
  "load32s M a = scast (of_nat (le_nat (load_bytes M a 4)) :: u32)"

definition scaled_addr :: "zydis \<Rightarrow> machine \<Rightarrow> ZydisDecodedOperandMem \<Rightarrow> u64" where
  "scaled_addr Z M m = mem_addr Z M m + of_nat (mem_scale m) * mregs M (dreg Z (mem_index m))"

text \<open>The value a widening move writes: \<open>mov\<close> to a 32-bit register, \<open>movzx\<close>, \<open>movsx\<close> and \<open>movsxd\<close>.\<close>

definition widened :: "ZydisMnemonic \<Rightarrow> nat \<Rightarrow> nat \<Rightarrow> u64 \<Rightarrow> u64" where
  "widened m n width x =
     (let y = (if m \<in> set [MOV, MOVZX] then take_bit n x else signed_take_bit (n - 1) x)
      in if width = 32 then take_bit 32 y else y)"

text \<open>The instructions whose destination register gets a value the analysis derives nothing about.\<close>

definition untracked :: "zydis \<Rightarrow> Instruction \<Rightarrow> ZydisRegister \<Rightarrow> bool" where
  "untracked Z i r \<longleftrightarrow> (case op_value (operand i 1) of
       TypeImmediate _ \<Rightarrow> insn_id i \<in> set [MOV, MOVQ] \<or> (insn_id i \<in> set [ADD, SUB] \<and> \<not> IsFull64 Z r)
     | TypeMemory m \<Rightarrow>
         insn_id i \<in> set [ADD, SUB] \<or>
         (insn_id i \<in> set [MOV, MOVQ] \<and> (op_size (operand i 1) \<noteq> 64 \<or> \<not> IsFull64 Z r \<or> \<not> plain_mem Z i m)) \<or>
         (insn_id i = LEA \<and> (\<not> IsFull64 Z r \<or> (\<not> plain_mem Z i m \<and> mem_base m \<noteq> ZYDIS_REGISTER_RIP))) \<or>
         (insn_id i = MOVSXD \<and> IsFull64 Z r \<and> (mem_index m = ZYDIS_REGISTER_NONE \<or> mem_scale m \<noteq> 4))
     | TypeRegister r1 \<Rightarrow> insn_id i = SUB \<or> (insn_id i = ADD \<and> \<not> (IsFull64 Z r \<and> IsFull64 Z r1)) \<or>
         (insn_id i \<in> set [MOV, MOVQ] \<and> (if IsFull64 Z r then \<not> IsFull64 Z r1 else RegWidthBits Z r \<noteq> 32))
     | _ \<Rightarrow> False)"

text \<open>
  One instruction that is not a branch, on registers and memory. The abstract state \<open>s\<close> enters in
  two rules only: a store the analysis has placed is one of \<open>Machine\<close>; a store it could not place
  leaves the slots it tracks alone, the assumption \<open>HandleUnplacedMemWrite\<close> documents.
\<close>

inductive cstep :: "zydis \<Rightarrow> ELFImage \<Rightarrow> frame \<Rightarrow> AbsState \<Rightarrow> Instruction \<Rightarrow> machine \<Rightarrow> machine \<Rightarrow> bool" for Z img F s i M where
  frame_step: "mstep Z F i M M' \<Longrightarrow> zero_extends Z i M' \<Longrightarrow>
    (\<And>m. insn_id i = MOV \<Longrightarrow> op_value (operand i 0) = TypeMemory m \<Longrightarrow> MemSlot Z s i m \<noteq> None) \<Longrightarrow> cstep Z img F s i M M'"
| unplaced_store: "insn_id i = MOV \<Longrightarrow> op_count i = 2 \<Longrightarrow> op_value (operand i 0) = TypeMemory m \<Longrightarrow> MemSlot Z s i m = None \<Longrightarrow>
    mregs M' = mregs M \<Longrightarrow>
    (\<And>off v. map_of (slots s) off = Some v \<Longrightarrow>
      load64 (mmem M') (fr_cfa F + word_of_int off) = load64 (mmem M) (fr_cfa F + word_of_int off)) \<Longrightarrow>
    cstep Z img F s i M M'"
| lea_rip: "insn_id i = LEA \<Longrightarrow> op_count i = 2 \<Longrightarrow> op_value (operand i 0) = TypeRegister r \<Longrightarrow> IsFull64 Z r \<Longrightarrow>
    op_value (operand i 1) = TypeMemory m \<Longrightarrow> mem_base m = ZYDIS_REGISTER_RIP \<Longrightarrow> mem_index m = ZYDIS_REGISTER_NONE \<Longrightarrow>
    zy_CalcAbsoluteAddress Z (insn i) (operand i 1) (address i) = Some a \<Longrightarrow>
    M' = set_reg (dreg Z r) a M \<Longrightarrow> cstep Z img F s i M M'"
| table_load: "insn_id i = MOVSXD \<Longrightarrow> op_count i = 2 \<Longrightarrow> op_value (operand i 0) = TypeRegister r \<Longrightarrow> IsFull64 Z r \<Longrightarrow>
    op_value (operand i 1) = TypeMemory m \<Longrightarrow> mem_scale m = 4 \<Longrightarrow> IsFull64 Z (mem_base m) \<Longrightarrow> IsFull64 Z (mem_index m) \<Longrightarrow>
    writes_only Z i r \<Longrightarrow> zero_extends Z i M' \<Longrightarrow> in_place img M (scaled_addr Z M m) \<Longrightarrow>
    M' = set_reg (dreg Z r) (load32s M (scaled_addr Z M m)) M \<Longrightarrow> cstep Z img F s i M M'"
| add_regs: "insn_id i = ADD \<Longrightarrow> op_count i = 2 \<Longrightarrow> op_value (operand i 0) = TypeRegister r \<Longrightarrow> IsFull64 Z r \<Longrightarrow>
    op_value (operand i 1) = TypeRegister rs \<Longrightarrow> IsFull64 Z rs \<Longrightarrow> writes_only Z i r \<Longrightarrow> zero_extends Z i M' \<Longrightarrow>
    M' = set_reg (dreg Z r) (mregs M (dreg Z r) + mregs M (dreg Z rs)) M \<Longrightarrow> cstep Z img F s i M M'"
| widen: "insn_id i \<in> {MOV, MOVZX, MOVSX, MOVSXD} \<Longrightarrow> op_count i = 2 \<Longrightarrow>
    op_value (operand i 0) = TypeRegister r \<Longrightarrow> 0 \<le> DWARFRegOf Z r \<Longrightarrow> RegWidthBits Z r \<in> {32, 64} \<Longrightarrow>
    (IsFull64 Z r \<longleftrightarrow> RegWidthBits Z r = 64) \<Longrightarrow>
    op_value (operand i 1) = TypeRegister rs \<Longrightarrow> 0 \<le> DWARFRegOf Z rs \<Longrightarrow>
    op_size (operand i 1) \<in> {16, 32} \<Longrightarrow> RegWidthBits Z rs = op_size (operand i 1) \<Longrightarrow> \<not> IsFull64 Z rs \<Longrightarrow>
    (insn_id i = MOV \<Longrightarrow> RegWidthBits Z r = 32) \<Longrightarrow> (insn_id i = MOVSXD \<Longrightarrow> RegWidthBits Z r = 64) \<Longrightarrow>
    M' = set_reg (dreg Z r) (widened (insn_id i) (op_size (operand i 1)) (RegWidthBits Z r) (mregs M (dreg Z rs))) M \<Longrightarrow>
    cstep Z img F s i M M'"
| compare: "insn_id i = CMP \<Longrightarrow> M' = M \<Longrightarrow> cstep Z img F s i M M'"
| untracked: "untracked Z i r \<Longrightarrow> op_count i = 2 \<Longrightarrow> op_value (operand i 0) = TypeRegister r \<Longrightarrow> writes_only Z i r \<Longrightarrow> zero_extends Z i M' \<Longrightarrow>
    mmem M' = mmem M \<Longrightarrow> (\<And>q. q \<noteq> dreg Z r \<Longrightarrow> mregs M' q = mregs M q) \<Longrightarrow> cstep Z img F s i M M'"

subsection \<open>Where control goes\<close>

definition fetch_end :: "u64 \<Rightarrow> Instruction \<Rightarrow> u64" where
  "fetch_end pc i = pc + of_nat (insn_size i)"

definition branch_target :: "zydis \<Rightarrow> Instruction \<Rightarrow> u64 option" where
  "branch_target Z i = (case op_value (operand i 0) of
       TypeImmediate _ \<Rightarrow> if op_count i \<ge> 1 then zy_CalcAbsoluteAddress Z (insn i) (operand i 0) (address i) else None
     | _ \<Rightarrow> None)"

definition leaves :: "Instruction \<Rightarrow> bool" where
  "leaves i \<longleftrightarrow> insn_id i \<in> set [RET, IRET, IRETD, IRETQ]"

definition stops :: "Instruction \<Rightarrow> bool" where
  "stops i \<longleftrightarrow> insn_id i \<in> set [UD0, UD1, UD2, HLT, INT3]"

text \<open>
  The addresses at which execution may go on. \<open>returns\<close> tells which calls return, \<open>tails\<close> which
  indirect jumps are tail calls, that is, leave the function for good: facts about the program
  that no row records. A call that throws goes on at its landing pad. No conforming program jumps
  on the flags a call has left.
\<close>

inductive cnext :: "walk \<Rightarrow> (u64 \<Rightarrow> bool) \<Rightarrow> (u64 \<Rightarrow> bool) \<Rightarrow> u64 \<Rightarrow> Instruction \<Rightarrow> machine \<Rightarrow> eflags option \<Rightarrow> u64 \<Rightarrow> bool"
  for w returns tails pc i M fl where
  fall_through: "category (insn i) = CATEGORY_OTHER \<Longrightarrow> \<not> leaves i \<Longrightarrow> \<not> stops i \<Longrightarrow> (insn_id i = CALL \<Longrightarrow> returns pc) \<Longrightarrow>
    cnext w returns tails pc i M fl (fetch_end pc i)"
| throws: "category (insn i) = CATEGORY_OTHER \<Longrightarrow> insn_id i = CALL \<Longrightarrow> LandingPadForCall (walk_sites w) pc = Some lp \<Longrightarrow>
    cnext w returns tails pc i M fl lp"
| not_taken: "category (insn i) = CATEGORY_COND_BR \<Longrightarrow> \<not> leaves i \<Longrightarrow> insn_id i \<noteq> JMP \<Longrightarrow>
    fl = Some f \<Longrightarrow> jump_taken (insn_id i) f \<noteq> Some True \<Longrightarrow>
    cnext w returns tails pc i M fl (fetch_end pc i)"
| jump: "category (insn i) \<noteq> CATEGORY_OTHER \<Longrightarrow> \<not> leaves i \<Longrightarrow> branch_target (opt_disasm (options w)) i = Some target \<Longrightarrow>
    (insn_id i \<noteq> JMP \<Longrightarrow> \<exists>f. fl = Some f \<and> jump_taken (insn_id i) f \<noteq> Some False) \<Longrightarrow>
    cnext w returns tails pc i M fl target"
| dispatch: "category (insn i) \<noteq> CATEGORY_OTHER \<Longrightarrow> \<not> leaves i \<Longrightarrow> branch_target (opt_disasm (options w)) i = None \<Longrightarrow> \<not> tails pc \<Longrightarrow>
    (\<And>r. op_value (operand i 0) = TypeRegister r \<Longrightarrow> 1 \<le> op_count i \<Longrightarrow>
       target = mregs M (dreg (opt_disasm (options w)) r)) \<Longrightarrow>
    cnext w returns tails pc i M fl target"

text \<open>One step of the processor. A branch changes no register and no memory.\<close>

definition cpu_step :: "walk \<Rightarrow> frame \<Rightarrow> AbsState \<Rightarrow> Instruction \<Rightarrow> machine \<Rightarrow> eflags option \<Rightarrow> machine \<Rightarrow> eflags option \<Rightarrow> bool" where
  "cpu_step w F s i M fl M' fl' \<longleftrightarrow>
     (if category (insn i) = CATEGORY_OTHER
      then cstep (opt_disasm (options w)) (opt_image (options w)) F s i M M' \<and> flags_step (opt_disasm (options w)) i M fl fl'
      else M' = M \<and> fl' = fl \<and> written (opt_disasm (options w)) (all_operands i) = {})"

end
