(* ===== verification/Cpu_Tables.thy ===== *)
theory Cpu_Tables
  imports Cpu
begin

text \<open>
  The table half of the abstract state against the processor: \<open>tables_sound\<close> says what its bounds,
  constants, table entries, jump targets and the remembered comparison claim of the registers, the
  flags and the image. It is kept by every write of a register, and by the instructions of
  \<open>Machine\<close>.
\<close>

subsection \<open>The meaning of the table half\<close>

definition entry_is :: "ELFImage \<Rightarrow> u64 \<Rightarrow> u64 \<Rightarrow> u64 \<Rightarrow> bool" where
  "entry_is img a k y \<longleftrightarrow> (IsFileBackedNonExecutable img (a + k * 4) 4 \<longrightarrow> y = table_word img (a + k * 4))"

definition tv_rep :: "ELFImage \<Rightarrow> TableVal \<Rightarrow> u64 \<Rightarrow> bool" where
  "tv_rep img t x \<longleftrightarrow> x \<le> value_bound t \<and> (case ident t of
       TNone \<Rightarrow> x \<le> table_bound t
     | TConflict \<Rightarrow> True
     | TConst c \<Rightarrow> x = c \<and> x \<le> table_bound t
     | TTableEntry a r b \<Rightarrow> b = a \<and> (\<exists>k \<le> table_bound t. entry_is img a k x)
     | TJumpTarget a r \<Rightarrow> \<exists>k \<le> table_bound t. entry_is img a k (x - a))"

definition guard_sound :: "machine \<Rightarrow> eflags option \<Rightarrow> FlagsGuard \<Rightarrow> bool" where
  "guard_sound M fl g \<longleftrightarrow> fg_reg g < kNumGPRs \<and> guard_holds M g \<and>
     (\<not> proven g \<longrightarrow> fl \<noteq> None \<longrightarrow> fl = Some (compare_flags (take_bit (width_bits g) (mregs M (fg_reg g))) (imm g)))"

definition tables_sound :: "ELFImage \<Rightarrow> machine \<Rightarrow> eflags option \<Rightarrow> AbsState \<Rightarrow> bool" where
  "tables_sound img M fl s \<longleftrightarrow> (\<forall>r < kNumGPRs. tv_rep img (tbl s ! r) (mregs M r)) \<and>
     (case last_cmp s of None \<Rightarrow> True | Some g \<Rightarrow> guard_sound M fl g)"

lemma tv_rep_plain [simp]: "tv_rep img TV_None x" "tv_rep img (TV_None\<lparr>value_bound := b\<rparr>) x \<longleftrightarrow> x \<le> b" "tv_rep img (TV_Const x) x"
  by (simp_all add: tv_rep_def TV_None_def TV_Const_def)

lemma tables_cong:
  "(\<And>q. q < kNumGPRs \<Longrightarrow> mregs M' q = mregs M q) \<Longrightarrow> tbl s' = tbl s \<Longrightarrow> last_cmp s' = last_cmp s \<Longrightarrow>
   tables_sound img M fl s \<Longrightarrow> tables_sound img M' fl s'"
  by (auto simp: tables_sound_def guard_sound_def guard_holds_def split: option.split)

lemma tbl_SetReg [simp]: "tbl (SetReg r v t s) = (tbl s)[r := t]"
  by (simp add: SetReg_def Let_def InvalidateLastCmpFor_def DropDeadSlots_def DropSlotsBelow_def split: AbsVal.split option.split)

lemma last_cmp_SetReg:
  "last_cmp (SetReg r v t s) = (case last_cmp s of Some g \<Rightarrow> if fg_reg g = r then None else Some g | None \<Rightarrow> None)"
  by (simp add: SetReg_def Let_def InvalidateLastCmpFor_def DropDeadSlots_def DropSlotsBelow_def split: AbsVal.split option.split)

lemma tables_SetReg:
  assumes "tables_sound img M fl s" "wf_state s" "r < kNumGPRs" "tv_rep img t (mregs M' r)"
    and "\<And>q. q < kNumGPRs \<Longrightarrow> q \<noteq> r \<Longrightarrow> mregs M' q = mregs M q"
  shows "tables_sound img M' fl (SetReg r v t s)"
proof -
  have "tv_rep img ((tbl s)[r := t] ! q) (mregs M' q)" if "q < kNumGPRs" for q
    using that assms by (cases "q = r") (simp_all add: tables_sound_def wf_state_def)
  moreover have "guard_sound M' fl g" if "last_cmp s = Some g" "fg_reg g \<noteq> r" for g
    using that assms(1,5) by (auto simp: tables_sound_def guard_sound_def guard_holds_def)
  ultimately show ?thesis
    by (auto simp: tables_sound_def last_cmp_SetReg split: option.split)
qed

lemma tables_SetSlot [simp]: "tables_sound img M fl (SetSlot off v s) = tables_sound img M fl s"
  by (simp add: tables_sound_def SetSlot_def)

lemma tables_EraseSlots [simp]: "tables_sound img M fl (EraseSlots a n s) = tables_sound img M fl s"
  by (simp add: tables_sound_def EraseSlots_def)

lemma tables_DropSlotsBelow [simp]: "tables_sound img M fl (DropSlotsBelow d s) = tables_sound img M fl s"
  by (simp add: tables_sound_def DropSlotsBelow_def)

text \<open>A written register whose new value is bounded by its width only.\<close>

lemma tables_upd_SetReg:
  assumes "tables_sound img M fl s" "wf_state s" "r < kNumGPRs" "tv_rep img (f t) (mregs M' r)"
    and "\<And>q. q < kNumGPRs \<Longrightarrow> q \<noteq> r \<Longrightarrow> mregs M' q = mregs M q"
  shows "tables_sound img M' fl (upd_tbl r f (SetReg r v t s))"
proof -
  have "tables_sound img M' fl (SetReg r v (f t) s)" by (rule tables_SetReg [OF assms])
  then show ?thesis using assms(2,3)
    by (simp add: tables_sound_def upd_tbl_def last_cmp_SetReg wf_state_def)
qed

lemma tables_ClobberReg:
  assumes "tables_sound img M fl s" "wf_state s" "r < kNumGPRs"
    and "\<And>q. q < kNumGPRs \<Longrightarrow> q \<noteq> r \<Longrightarrow> mregs M' q = mregs M q"
  shows "tables_sound img M' fl (ClobberReg r s)"
  unfolding ClobberReg_def by (rule tables_SetReg [OF assms(1-3) _ assms(4)]) simp

lemma tables_ClobberWrittenReg:
  assumes "tables_sound img M fl s" "wf_state s" "r < kNumGPRs" "mregs M' r \<le> WrittenRegBound Z zr"
    and "\<And>q. q < kNumGPRs \<Longrightarrow> q \<noteq> r \<Longrightarrow> mregs M' q = mregs M q"
  shows "tables_sound img M' fl (ClobberWrittenReg Z zr r s)"
  unfolding ClobberWrittenReg_def ClobberReg_def by (rule tables_upd_SetReg [OF assms(1-3) _ assms(5)]) (simp add: assms(4))

lemma tables_ClobberRegs:
  assumes "tables_sound img M fl s" "wf_state s" "set rs \<subseteq> {..<kNumGPRs}"
    and "\<And>q. q < kNumGPRs \<Longrightarrow> q \<notin> set rs \<Longrightarrow> mregs M' q = mregs M q"
  shows "tables_sound img M' fl (fold ClobberReg rs s)"
  using assms
proof (induction rs arbitrary: M s)
  case Nil
  then show ?case using tables_cong [of M' M s s img fl] by simp
next
  case (Cons r rs)
  let ?M = "M\<lparr>mregs := (mregs M)(r := mregs M' r)\<rparr>"
  have "tables_sound img ?M fl (ClobberReg r s)"
    by (rule tables_ClobberReg [OF Cons.prems(1,2)]) (use Cons.prems(3) in auto)
  from Cons.IH [OF this] show ?case using Cons.prems(2-) by (auto simp: wf_state_writes)
qed

text \<open>The generic clobber.\<close>

lemma tables_clobber_fold:
  assumes "tables_sound img M fl s" "wf_state s" "\<And>q. q < kNumGPRs \<Longrightarrow> q \<notin> written Z ops \<Longrightarrow> mregs M' q = mregs M q"
    and "\<And>op r q. op \<in> set ops \<Longrightarrow> op_value op = TypeRegister r \<Longrightarrow> op_writes op \<Longrightarrow> RegWidthBits Z r = 32 \<Longrightarrow>
      DWARFRegOf Z r = int q \<Longrightarrow> mregs M' q \<le> mask 32"
  shows "tables_sound img M' fl (fold (clobber_operand Z i) ops s)"
  using assms
proof (induction ops arbitrary: M s)
  case Nil
  then show ?case using tables_cong [of M' M s s img fl] by (simp add: written_def)
next
  case (Cons op ops)
  define M1 where "M1 = M\<lparr>mregs := (\<lambda>q. if q \<in> written Z [op] then mregs M' q else mregs M q)\<rparr>"
  have 1: "tables_sound img M1 fl (clobber_operand Z i op s)"
  proof (cases "\<exists>r. op_value op = TypeRegister r \<and> op_writes op \<and> 0 \<le> DWARFRegOf Z r")
    case True
    then obtain r where r: "op_value op = TypeRegister r" "op_writes op" "0 \<le> DWARFRegOf Z r" by blast
    then have w: "written Z [op] = {dreg Z r}" by (auto simp: written_def)
    have lt: "dreg Z r < kNumGPRs" using r(3) by (auto simp: DWARFRegOf_def gpr_index_def Let_def split: if_splits)
    have "mregs M' (dreg Z r) \<le> WrittenRegBound Z r"
      using Cons.prems(4) [of op r "dreg Z r"] r by (simp add: WrittenRegBound_def WidthBound_mask)
    then have "tables_sound img M1 fl (ClobberWrittenReg Z r (dreg Z r) s)"
      by (intro tables_ClobberWrittenReg [OF Cons.prems(1,2) lt]) (simp_all add: M1_def w)
    then show ?thesis using r by (simp add: clobber_operand_def Let_def)
  next
    case False
    then have "written Z [op] = {}" by (auto simp: written_def)
    then have "tables_sound img M1 fl s" using Cons.prems(1) tables_cong [of M1 M s s img fl] by (simp add: M1_def)
    then show ?thesis
      using False by (auto simp: clobber_operand_def Let_def HandleUnplacedMemWrite_def split: ZydisOperandValue.split option.split)
  qed
  have "tables_sound img M' fl (fold (clobber_operand Z i) ops (clobber_operand Z i op s))"
  proof (rule Cons.IH [OF 1])
    fix q
    assume "q < kNumGPRs" "q \<notin> written Z ops"
    then show "mregs M' q = mregs M1 q" using Cons.prems(3) [of q] by (auto simp: M1_def written_def)
  qed (use Cons.prems in \<open>auto simp: wf_state_clobber_operand\<close>)
  then show ?case by simp
qed

lemma tables_clobbered:
  assumes "tables_sound img M fl s" "wf_state s" "zero_extends Z i M'"
    and "\<And>q. q < kNumGPRs \<Longrightarrow> q \<notin> written Z (all_operands i) \<Longrightarrow> mregs M' q = mregs M q"
  shows "tables_sound img M' fl (ClobberWrites Z i s)"
  unfolding ClobberWrites_def all_operands_def [symmetric]
  by (rule tables_clobber_fold [OF assms(1,2,4)]) (use assms(3) in \<open>auto simp: zero_extends_def\<close>)

subsection \<open>One instruction\<close>

definition plain_tv :: "TableVal \<Rightarrow> bool" where
  "plain_tv t \<longleftrightarrow> (case ident t of TNone \<Rightarrow> True | TConst _ \<Rightarrow> True | _ \<Rightarrow> table_bound t = kBoundTop)"

text \<open>The table values the transfer function handles as meant: the bound of a table entry is that of its
  index and not of the entry itself, so a value read in part, or used as an index, is not one; and
  the table is the base the entries are relative to.\<close>

definition plain_operands :: "zydis \<Rightarrow> Instruction \<Rightarrow> AbsState \<Rightarrow> bool" where
  "plain_operands Z i s \<longleftrightarrow>
     (case op_value (operand i 1) of
        TypeRegister r1 \<Rightarrow> IsFull64 Z r1 \<or> plain_tv (table s (DWARFRegOf Z r1))
      | TypeMemory m \<Rightarrow> insn_id i = MOVSXD \<longrightarrow> plain_tv (table s (DWARFRegOf Z (mem_index m))) \<and> mem_disp m = 0
      | _ \<Rightarrow> True)"

definition widths_ok :: "zydis \<Rightarrow> bool" where
  "widths_ok Z \<longleftrightarrow> (\<forall>r. IsFull64 Z r \<longrightarrow> RegWidthBits Z r = 64)"

lemma tables_clear_guard:
  assumes "tables_sound img M fl s" "flags_step Z i M fl fl'"
  shows "tables_sound img M fl' (clear_guard i s)"
  using assms
  by (auto simp: tables_sound_def clear_guard_def flags_step_def guard_sound_def split: option.splits if_splits)

lemma table_clear_guard [simp]: "table (clear_guard i s) r = table s r" "tbl (clear_guard i s) = tbl s"
  by (simp_all add: clear_guard_def table_def)

lemma plain_operands_clear_guard [simp]: "plain_operands Z i (clear_guard i s) = plain_operands Z i s"
  by (simp add: plain_operands_def split: ZydisOperandValue.split)

lemma tv_rep_reg: "tables_sound img M fl s \<Longrightarrow> r < kNumGPRs \<Longrightarrow> tv_rep img (tbl s ! r) (mregs M r)"
  by (simp add: tables_sound_def)

lemma tables_bounds: "tables_sound img M fl s \<Longrightarrow> bounds_sound M s"
  by (auto simp: tables_sound_def bounds_sound_def tv_rep_def guard_sound_def split: option.splits)

lemma plain_tv_bound: "tv_rep img t x \<Longrightarrow> plain_tv t \<Longrightarrow> x \<le> table_bound t"
  by (auto simp: tv_rep_def plain_tv_def split: TableIdent.splits)

lemma set_reg_simps [simp]: "mregs (set_reg r x M) q = (if q = r then x else mregs M q)" "mmem (set_reg r x M) = mmem M"
  "mregs (set_mem a x M) = mregs M"
  by (simp_all add: set_reg_def set_mem_def)

lemma full_reg: "IsFull64 Z r \<Longrightarrow> dreg Z r < kNumGPRs \<and> 0 \<le> DWARFRegOf Z r \<and> \<not> DWARFRegOf Z r < 0"
  using DWARFRegOf_full by fastforce

lemma full_bound: "widths_ok Z \<Longrightarrow> IsFull64 Z r \<Longrightarrow> WrittenRegBound Z r = kBoundTop"
  by (simp add: widths_ok_def WrittenRegBound_def)

text \<open>The instructions of \<open>Machine\<close>.\<close>

lemma tables_SetReg1:
  assumes "tables_sound img M fl s" "wf_state s" "r < kNumGPRs"
  shows "tables_sound img (set_reg r x M) fl (SetReg1 r v s)"
  unfolding SetReg1_def by (rule tables_SetReg [OF assms]) simp_all

lemma tables_push:
  assumes "tables_sound img M fl s" "wf_state s" "placed Z i s" "insn_id i = PUSH" "op_count i = 1" "operand_width (insn i) = 64"
    and "M' = set_mem (mregs M 7 - 8) x (set_reg 7 (mregs M 7 - 8) M)"
  shows "tables_sound img M' fl (snd (transfer_switch Z i s))"
proof -
  obtain d where d: "reg s 7 = CFARel d" using assms(3,4) by (auto simp: placed_iff)
  have "tables_sound img (set_reg 7 (mregs M 7 - 8) M) fl (SetReg1 kDWARFRsp v s)" for v
    using tables_SetReg1 [OF assms(1,2), of 7] by simp
  then have "tables_sound img M' fl (SetReg1 kDWARFRsp v s)" for v
    unfolding assms(7) by (rule tables_cong [rotated 3]) simp_all
  then show ?thesis using assms(4-6) d by (simp add: transfer_switch_def xfer_push_def Let_def)
qed

lemma tables_pop:
  assumes "tables_sound img M fl s" "wf_state s" "placed Z i s" "insn_id i = POP" "op_count i = 1" "operand_width (insn i) = 64"
    and "op_value (operand i 0) = TypeRegister r" "IsFull64 Z r" "M' = set_reg (dreg Z r) x (set_reg 7 (mregs M 7 + 8) M)"
  shows "tables_sound img M' fl (snd (transfer_switch Z i s))"
proof -
  obtain d where d: "reg s 7 = CFARel d" using assms(3,4) by (auto simp: placed_iff)
  note r = full_reg [OF assms(8)]
  have "tables_sound img (set_reg 7 (mregs M 7 + 8) M) fl (SetReg1 kDWARFRsp v s)" for v
    using tables_SetReg1 [OF assms(1,2), of 7] by simp
  from tables_SetReg1 [OF this wf_state_writes(1) [OF assms(2)], of "dreg Z r"] show ?thesis
    using assms(4-9) d r by (simp add: transfer_switch_def xfer_pop_def pop_into_def Let_def)
qed

lemma tables_leave:
  assumes "tables_sound img M fl s" "wf_state s" "placed Z i s" "insn_id i = LEAVE"
    and "M' = set_reg 7 (mregs M 6 + 8) (set_reg 6 x M)"
  shows "tables_sound img M' fl (snd (transfer_switch Z i s))"
proof -
  let ?s1 = "CopyReg kDWARFRsp kDWARFRbp s"
  obtain d where "reg s 6 = CFARel d" using assms(3,4) by (auto simp: placed_iff)
  then have r1: "reg ?s1 7 = CFARel d" using assms(2) by (simp add: reg_def CopyReg_def wf_state_def)
  have 1: "tables_sound img (set_reg 7 (mregs M 6) M) fl ?s1"
    unfolding CopyReg_def by (rule tables_SetReg [OF assms(1,2)]) (use tv_rep_reg [OF assms(1), of 6] in simp_all)
  have wf: "wf_state ?s1" "wf_state (SetReg1 kDWARFRbp (Slot ?s1 d) ?s1)" using assms(2) by (simp_all add: wf_state_writes)
  have 2: "tables_sound img (set_reg 6 x (set_reg 7 (mregs M 6) M)) fl (SetReg1 kDWARFRbp (Slot ?s1 d) ?s1)"
    using tables_SetReg1 [OF 1 wf(1), of 6] by simp
  have "tables_sound img (set_reg 7 (mregs M 6 + 8) (set_reg 6 x (set_reg 7 (mregs M 6) M))) fl
      (SetReg1 kDWARFRsp v (SetReg1 kDWARFRbp (Slot ?s1 d) ?s1))" for v
    using tables_SetReg1 [OF 2 wf(2), of 7] by simp
  then have "tables_sound img M' fl (SetReg1 kDWARFRsp v (SetReg1 kDWARFRbp (Slot ?s1 d) ?s1))" for v
    unfolding assms(5) by (rule tables_cong [rotated 3]) simp_all
  then show ?thesis using assms(4) r1 by (simp add: transfer_switch_def xfer_leave_def Let_def)
qed

lemma tables_add_imm:
  assumes "tables_sound img M fl s" "wf_state s" "widths_ok Z" "insn_id i \<in> {ADD, SUB}" "op_count i = 2"
    and "op_value (operand i 0) = TypeRegister r" "IsFull64 Z r" "op_value (operand i 1) = TypeImmediate im" "M' = set_reg (dreg Z r) x M"
  shows "tables_sound img M' fl (snd (transfer_switch Z i s))"
proof -
  note r = full_reg [OF assms(7)]
  have no: "add_dispatch Z i s = None" using assms(8) by (simp add: add_dispatch_def split: ZydisOperandValue.split)
  have "tables_sound img M' fl (ClobberWrittenReg Z r (dreg Z r) s)"
    using tables_ClobberWrittenReg [OF assms(1,2)] r full_bound [OF assms(3,7)] assms(9) by simp
  moreover have "tables_sound img M' fl (SetReg1 (dreg Z r) v s)" for v
    unfolding assms(9) by (rule tables_SetReg1 [OF assms(1,2)]) (use r in simp)
  moreover have "insn_id i \<noteq> MOV" "insn_id i \<noteq> MOVSXD" using assms(4) by auto
  ultimately show ?thesis
    using assms(4-8) r no by (auto simp: transfer_switch_def or_clobber_def xfer_add_sub_def add_sub_imm_def Let_def split: AbsVal.split)
qed

lemma tables_call:
  assumes "tables_sound img M fl s" "wf_state s" "insn_id i = CALL" "\<And>r. r \<in> {3, 6, 7, 12, 13, 14, 15} \<Longrightarrow> mregs M' r = mregs M r"
  shows "tables_sound img M' fl (snd (transfer_switch Z i s))"
proof -
  have k: "set kCallerSaved \<subseteq> {..<kNumGPRs}" by (simp add: kCallerSaved_def)
  have q: "mregs M' q = mregs M q" if "q < kNumGPRs" "q \<notin> set kCallerSaved" for q
    by (rule assms(4)) (use that in \<open>simp add: kCallerSaved_def, arith\<close>)
  have "tables_sound img M' fl (fold ClobberReg kCallerSaved s)" by (rule tables_ClobberRegs [OF assms(1,2) k q])
  moreover have "tables_sound img M' fl (fold ClobberReg kCallerSaved (DropSlotsBelow e s))" for e
    by (rule tables_ClobberRegs [OF _ _ k q]) (simp_all add: assms(1,2) wf_state_DropSlotsBelow)
  ultimately show ?thesis using assms(3) by (simp add: transfer_switch_def xfer_call_def Let_def split: AbsVal.split)
qed

lemma mstep_tables:
  assumes "mstep Z F i M M'" "zero_extends Z i M'" "tables_sound img M fl s" "wf_state s" "placed Z i s" "widths_ok Z"
  shows "tables_sound img M' fl (snd (transfer_switch Z i s))"
  using assms(1)
proof cases
  case (push_reg r)
  then show ?thesis by (intro tables_push [OF assms(3-5)])
next
  case (pop_reg r)
  then show ?thesis by (intro tables_pop [OF assms(3-5)])
next
  case leave
  then show ?thesis by (intro tables_leave [OF assms(3-5)])
next
  case (lea r m)
  have "mem_base m \<noteq> ZYDIS_REGISTER_RIP" using lea(6) by (auto simp: plain_mem_def IsFull64_def gpr_index_def kDwarfGprs_def)
  then show ?thesis
    using lea full_reg [OF lea(4)] tables_SetReg1 [OF assms(3,4)] by (simp add: transfer_switch_def or_clobber_def xfer_lea_def Let_def)
next
  case (add_imm r im)
  then show ?thesis by (intro tables_add_imm [OF assms(3,4,6)])
next
  case (mov_reg r r1)
  note r = full_reg [OF mov_reg(4)] full_reg [OF mov_reg(6)]
  have "tables_sound img M' fl (CopyReg (dreg Z r) (dreg Z r1) s)"
    unfolding CopyReg_def by (rule tables_SetReg [OF assms(3,4)]) (use r tv_rep_reg [OF assms(3)] mov_reg(7) in simp_all)
  then show ?thesis using mov_reg r by (simp add: transfer_switch_def or_clobber_def xfer_mov_def mov_full_def Let_def)
next
  case (mov_load r m)
  then show ?thesis
    using full_reg [OF mov_load(4)] tables_SetReg1 [OF assms(3,4)]
    by (simp add: transfer_switch_def or_clobber_def xfer_mov_def mov_full_def Let_def split: option.split)
next
  case (mov_store m r)
  have "tables_sound img M' fl s" using assms(3) unfolding mov_store(9) by (rule tables_cong [rotated 3]) simp_all
  then show ?thesis
    using mov_store by (simp add: transfer_switch_def or_clobber_def xfer_mov_def mov_store_def HandleUnplacedMemWrite_def Let_def split: option.split)
next
  case (call d)
  then show ?thesis by (intro tables_call [OF assms(3,4)])
next
  case (regs_only n)
  have "mregs M' q = mregs M q" if "q < kNumGPRs" "q \<notin> written Z (all_operands i)" for q
    using that regs_only(3) [of q] by (auto simp: written_def all_operands_def)
  from tables_clobbered [OF assms(3,4,2) this] show ?thesis using regs_only(1) by (simp add: transfer_switch_def or_clobber_def)
next
  case nop
  then show ?thesis using assms(3) by (auto simp: transfer_switch_def)
qed

end
