(* ===== verification/Cpu_Step.thy ===== *)
theory Cpu_Step
  imports Cpu_Tables
begin

text \<open>
  \<open>Transfer\<close> is sound for every instruction of the processor that is not a branch, in both halves of
  the abstract state: what it says of the frame and what it says of tables, bounds and flags.
\<close>

subsection \<open>The instructions of a dispatch\<close>

lemma sound_upd_tbl [simp]: "sound F M (upd_tbl d f s) = sound F M s"
  by (simp add: sound_def slots_sound_def upd_tbl_def)

lemma sound_SetReg_any:
  assumes "sound F M s" "wf_state s" "r < kNumGPRs" "\<And>x. rep F v x"
    and "mmem M' = mmem M" "\<And>q. q < kNumGPRs \<Longrightarrow> q \<noteq> r \<Longrightarrow> mregs M' q = mregs M q"
  shows "sound F M' (SetReg r v t s)"
proof (rule soundI)
  show "rep F (gpr (SetReg r v t s) ! q) (mregs M' q)" if "q < kNumGPRs" for q
    using that assms by (cases "q = r") (simp_all add: sound_def wf_state_def)
  show "slots_sound F M' (SetReg r v t s)"
  proof (rule slots_sound_sub)
    show "slots_sound F M s" using assms(1) by (simp add: sound_def)
  qed (rule assms(5), rule slots_SetReg)
qed

text \<open>Both halves together, for a register write the frame half knows nothing of.\<close>

lemma written_SetReg:
  assumes "sound F M s" "tables_sound img M fl s" "wf_state s" "r < kNumGPRs" "\<And>x. rep F v x" "tv_rep img t (mregs M' r)"
    and "mmem M' = mmem M" "\<And>q. q < kNumGPRs \<Longrightarrow> q \<noteq> r \<Longrightarrow> mregs M' q = mregs M q"
  shows "sound F M' (SetReg r v t s) \<and> tables_sound img M' fl (SetReg r v t s)"
  using sound_SetReg_any [OF assms(1,3,4,5,7,8)] tables_SetReg [OF assms(2,3,4,6,8)] by blast

lemma written_upd_SetReg:
  assumes "sound F M s" "tables_sound img M fl s" "wf_state s" "r < kNumGPRs" "\<And>x. rep F v x" "tv_rep img (f t) (mregs M' r)"
    and "mmem M' = mmem M" "\<And>q. q < kNumGPRs \<Longrightarrow> q \<noteq> r \<Longrightarrow> mregs M' q = mregs M q"
  shows "sound F M' (upd_tbl r f (SetReg r v t s)) \<and> tables_sound img M' fl (upd_tbl r f (SetReg r v t s))"
  using sound_SetReg_any [OF assms(1,3,4,5,7,8)] tables_upd_SetReg [of img M fl s r f t M', OF assms(2,3,4,6,8)] by simp

lemma written_clobbered:
  assumes "sound F M s" "tables_sound img M fl s" "wf_state s" "writes_only Z i r" "zero_extends Z i M'"
    and "mmem M' = mmem M" "\<And>q. q \<noteq> dreg Z r \<Longrightarrow> mregs M' q = mregs M q"
  shows "sound F M' (ClobberWrites Z i s) \<and> tables_sound img M' fl (ClobberWrites Z i s)"
proof
  show "sound F M' (ClobberWrites Z i s)"
    unfolding ClobberWrites_def
    by (rule sound_clobber_fold [OF assms(1,3)]) (use assms(4,6,7) in \<open>auto simp: writes_only_def all_operands_def\<close>)
  show "tables_sound img M' fl (ClobberWrites Z i s)"
    by (rule tables_clobbered [OF assms(2,3,5)]) (use assms(4,7) in \<open>simp add: writes_only_def\<close>)
qed

lemma lt_dreg: "0 \<le> DWARFRegOf Z r \<Longrightarrow> dreg Z r < kNumGPRs"
  by (auto simp: DWARFRegOf_def gpr_index_def Let_def split: if_splits)

lemma table_dreg: "0 \<le> DWARFRegOf Z r \<Longrightarrow> table s (DWARFRegOf Z r) = tbl s ! dreg Z r"
  using lt_dreg [of Z r] by (simp add: table_def)

lemma tv_rep_table: "tables_sound img M fl s \<Longrightarrow> 0 \<le> DWARFRegOf Z r \<Longrightarrow> tv_rep img (table s (DWARFRegOf Z r)) (mregs M (dreg Z r))"
  using tv_rep_reg [OF _ lt_dreg] by (simp add: table_dreg)

text \<open>The load of a table entry.\<close>

lemma tv_rep_TableEntry:
  assumes "k \<le> b" "in_place img M (a + k * 4)"
  shows "tv_rep img (TV_TableEntry a r a b) (load32s M (a + k * 4))"
  using assms by (auto simp: tv_rep_def TV_TableEntry_def entry_is_def in_place_def load32s_def table_word_def)

lemma table_load_sound:
  assumes "sound F M s" "tables_sound img M fl s" "wf_state s" "plain_operands Z i s" "insn_id i = MOVSXD" "op_count i = 2"
    and "op_value (operand i 0) = TypeRegister r" "IsFull64 Z r" "op_value (operand i 1) = TypeMemory m" "mem_scale m = 4"
    and "IsFull64 Z (mem_base m)" "IsFull64 Z (mem_index m)" "writes_only Z i r" "in_place img M (scaled_addr Z M m)" "zero_extends Z i M'"
    and M': "M' = set_reg (dreg Z r) (load32s M (scaled_addr Z M m)) M"
  shows "sound F M' (snd (transfer_switch Z i s)) \<and> tables_sound img M' fl (snd (transfer_switch Z i s))"
proof (cases "movsxd_load Z (dreg Z r) m s")
  case None
  then have "snd (transfer_switch Z i s) = ClobberWrites Z i s"
    using assms(5-9) full_reg [OF assms(8)] by (simp add: transfer_switch_def or_clobber_def xfer_movsxd_def Let_def)
  moreover have "sound F M' (ClobberWrites Z i s) \<and> tables_sound img M' fl (ClobberWrites Z i s)"
    by (rule written_clobbered [OF assms(1-3,13,15)]) (simp_all add: M')
  ultimately show ?thesis by simp
next
  case (Some s')
  note regs = full_reg [OF assms(8)] full_reg [OF assms(11)] full_reg [OF assms(12)]
  let ?b = "table s (DWARFRegOf Z (mem_base m))" and ?x = "table s (DWARFRegOf Z (mem_index m))"
  have plain: "plain_tv ?x" "mem_disp m = 0" using assms(4,5,9) by (simp_all add: plain_operands_def)
  obtain a where a: "ident ?b = TConst a"
    "s' = SetTableReg (dreg Z r) (TV_TableEntry a (dreg Z (mem_index m)) a (table_bound ?x)) s"
    using Some plain(2) by (auto simp: movsxd_load_def Let_def split: if_splits TableIdent.splits)
  have "mregs M (dreg Z (mem_base m)) = a"
    using tv_rep_table [OF assms(2), of Z "mem_base m"] a(1) regs by (simp add: tv_rep_def)
  then have addr: "scaled_addr Z M m = a + mregs M (dreg Z (mem_index m)) * 4"
    using assms(10) plain(2) by (simp add: scaled_addr_def mem_addr_def)
  have "mregs M (dreg Z (mem_index m)) \<le> table_bound ?x"
    using tv_rep_table [OF assms(2), of Z "mem_index m"] regs plain(1) by (intro plain_tv_bound) simp_all
  from tv_rep_TableEntry [OF this assms(14) [unfolded addr], of "dreg Z (mem_index m)"]
  have "sound F M' s' \<and> tables_sound img M' fl s'"
    unfolding a(2) SetTableReg_def by (intro written_SetReg [OF assms(1-3)]) (use regs in \<open>simp_all add: M' addr\<close>)
  moreover have "snd (transfer_switch Z i s) = s'"
    using Some assms(5-9) regs by (simp add: transfer_switch_def or_clobber_def xfer_movsxd_def Let_def)
  ultimately show ?thesis by simp
qed

text \<open>The addition of the table base.\<close>

lemma tv_rep_resolve_add:
  assumes "resolve_add t u = Some v" "tv_rep img t x" "tv_rep img u y"
  shows "tv_rep img v (x + y)"
  using assms
  by (auto simp: resolve_add_def tv_rep_def TV_JumpTarget_def split: TableIdent.splits if_splits)

lemma add_regs_sound:
  assumes "sound F M s" "tables_sound img M fl s" "wf_state s" "insn_id i = ADD" "op_count i = 2"
    and "op_value (operand i 0) = TypeRegister r" "IsFull64 Z r" "op_value (operand i 1) = TypeRegister r1" "IsFull64 Z r1"
    and "writes_only Z i r" "zero_extends Z i M'"
    and M': "M' = set_reg (dreg Z r) (mregs M (dreg Z r) + mregs M (dreg Z r1)) M"
  shows "sound F M' (snd (transfer_switch Z i s)) \<and> tables_sound img M' fl (snd (transfer_switch Z i s))"
proof (cases "add_dispatch Z i s")
  case None
  then have "snd (transfer_switch Z i s) = ClobberWrites Z i s"
    using assms(4-9) by (simp add: transfer_switch_def or_clobber_def xfer_add_sub_def add_sub_imm_def)
  moreover have "sound F M' (ClobberWrites Z i s) \<and> tables_sound img M' fl (ClobberWrites Z i s)"
    by (rule written_clobbered [OF assms(1-3,10,11)]) (simp_all add: M')
  ultimately show ?thesis by simp
next
  case (Some s')
  note regs = full_reg [OF assms(7)] full_reg [OF assms(9)]
  let ?t = "table s (DWARFRegOf Z r)" and ?u = "table s (DWARFRegOf Z r1)"
  have rep: "tv_rep img ?t (mregs M (dreg Z r))" "tv_rep img ?u (mregs M (dreg Z r1))"
    using tv_rep_table [OF assms(2)] regs by simp_all
  obtain v where v: "resolve_add ?t ?u = Some v \<or> resolve_add ?u ?t = Some v" "s' = SetTableReg (dreg Z r) v s"
    using Some assms(4-9) regs by (auto simp: add_dispatch_def Let_def split: option.splits if_splits)
  have "tv_rep img v (mregs M (dreg Z r) + mregs M (dreg Z r1))"
    using v(1) tv_rep_resolve_add [OF _ rep] tv_rep_resolve_add [OF _ rep(2,1)] by (auto simp: add.commute)
  then have "sound F M' s' \<and> tables_sound img M' fl s'"
    unfolding v(2) SetTableReg_def by (intro written_SetReg [OF assms(1-3)]) (use regs in \<open>simp_all add: M'\<close>)
  moreover have "snd (transfer_switch Z i s) = s'"
    using Some assms(4) by (simp add: transfer_switch_def or_clobber_def xfer_add_sub_def)
  ultimately show ?thesis by simp
qed

subsection \<open>Widening moves\<close>

lemma narrow_read:
  assumes "tables_sound img M fl s" "0 \<le> DWARFRegOf Z r" "plain_tv (table s (DWARFRegOf Z r))"
  shows "take_bit n (mregs M (dreg Z r)) \<le>
      min (WidthBound n) (min (value_bound (table s (DWARFRegOf Z r))) (ProvenGuardBound s (DWARFRegOf Z r) n))"
    and "take_bit n (mregs M (dreg Z r)) \<le> min (table_bound (table s (DWARFRegOf Z r))) (ProvenGuardBound s (DWARFRegOf Z r) n)"
proof -
  note b = tables_bounds [OF assms(1)]
  show "take_bit n (mregs M (dreg Z r)) \<le>
      min (WidthBound n) (min (value_bound (table s (DWARFRegOf Z r))) (ProvenGuardBound s (DWARFRegOf Z r) n))"
    using low_bits_bound [OF b lt_dreg [OF assms(2)], of n] assms(2) by simp
  have "mregs M (dreg Z r) \<le> table_bound (table s (DWARFRegOf Z r))"
    using tv_rep_table [OF assms(1,2)] assms(3) by (rule plain_tv_bound)
  then show "take_bit n (mregs M (dreg Z r)) \<le> min (table_bound (table s (DWARFRegOf Z r))) (ProvenGuardBound s (DWARFRegOf Z r) n)"
    using ProvenGuardBound_sound [OF b, of n "dreg Z r"] order_trans [OF take_bit_le_self] assms(2) by auto
qed

lemma tv_rep_zero_extended:
  assumes "x \<le> min (WidthBound n) (min (value_bound src) g)" "x \<le> min (table_bound src) g" "ident t = TNone"
  shows "tv_rep img (ApplyZeroExtendedFrom src n g t) x"
  using assms by (simp add: tv_rep_def ApplyZeroExtendedFrom_def)

lemma widened_small:
  assumes "n \<le> 32"
  shows "m \<in> {MOV, MOVZX} \<Longrightarrow> widened m n width x = take_bit n x"
    and "width = 32 \<Longrightarrow> widened m n width x \<le> mask 32"
  using assms by (auto simp: widened_def Let_def min_def take_bit_le_mask)

lemma tv_rep_sign_extended:
  assumes "take_bit n x \<le> min (WidthBound n) (min (value_bound src) g)" "take_bit n x \<le> min (table_bound src) g"
    and "ident t = TNone" "0 < n" "n \<le> 32" "m \<notin> {MOV, MOVZX}"
  shows "tv_rep img (ApplySignExtendedFrom src n g t) (widened m n width x)"
proof (cases "n \<ge> 64 \<or> min (WidthBound n) (min (value_bound src) g) \<ge> push_bit (n - 1) 1")
  case True
  then show ?thesis using assms(3) by (simp add: ApplySignExtendedFrom_def ClearBounds_def Let_def tv_rep_def)
next
  case False
  then have "take_bit n x < push_bit (n - 1) 1" using assms(1) by (auto simp: not_le intro: le_less_trans)
  then have "signed_take_bit (n - 1) x = take_bit n x" using assms(4) by (rule signed_take_bit_below)
  then have "widened m n width x = take_bit n x" using assms(5,6) by (simp add: widened_def Let_def min_def)
  moreover have "ApplySignExtendedFrom src n g t =
      t\<lparr>value_bound := min (WidthBound n) (min (value_bound src) g), table_bound := min (table_bound src) g\<rparr>"
    unfolding ApplySignExtendedFrom_def Let_def if_not_P [OF False] ..
  ultimately show ?thesis using assms(1-3) by (simp add: tv_rep_def)
qed

lemma tv_rep_cap: "tv_rep img t x \<Longrightarrow> x \<le> b \<Longrightarrow> tv_rep img (t\<lparr>value_bound := min (value_bound t) b\<rparr>) x"
  by (simp add: tv_rep_def split: TableIdent.splits)

lemma upd_tbl_upd_tbl: "d < length (tbl s) \<Longrightarrow> upd_tbl d f (upd_tbl d g s) = upd_tbl d (\<lambda>t. f (g t)) s"
  by (simp add: upd_tbl_def)

text \<open>What the transfer does for each of them: one update of the destination.\<close>

lemma widen_transfer:
  assumes "insn_id i \<in> {MOV, MOVZX, MOVSX, MOVSXD}" "op_count i = 2" "op_value (operand i 0) = TypeRegister r" "0 \<le> DWARFRegOf Z r"
    and "RegWidthBits Z r \<in> {32, 64}" "IsFull64 Z r \<longleftrightarrow> RegWidthBits Z r = 64" "op_value (operand i 1) = TypeRegister r1"
    and "0 \<le> DWARFRegOf Z r1" "insn_id i = MOV \<Longrightarrow> RegWidthBits Z r = 32" "insn_id i = MOVSXD \<Longrightarrow> RegWidthBits Z r = 64" "wf_state s"
  defines "src \<equiv> table s (DWARFRegOf Z r1)" and "n \<equiv> op_size (operand i 1)" and "g \<equiv> ProvenGuardBound s (DWARFRegOf Z r1) (op_size (operand i 1))"
  obtains f where "snd (transfer_switch Z i s) = upd_tbl (dreg Z r) f (SetReg (dreg Z r) Top TV_None s)"
    and "f TV_None = (if insn_id i \<in> {MOV, MOVZX} then ApplyZeroExtendedFrom src n g (TV_None\<lparr>value_bound := WrittenRegBound Z r\<rparr>)
         else ApplySignExtendedFrom src n g (TV_None\<lparr>value_bound := WrittenRegBound Z r\<rparr>)) \<or>
       f TV_None = (let t = (if insn_id i \<in> {MOV, MOVZX} then ApplyZeroExtendedFrom src n g (TV_None\<lparr>value_bound := WrittenRegBound Z r\<rparr>)
         else ApplySignExtendedFrom src n g (TV_None\<lparr>value_bound := WrittenRegBound Z r\<rparr>))
         in t\<lparr>value_bound := min (value_bound t) (WrittenRegBound Z r)\<rparr>)"
proof -
  have len: "dreg Z r < length (tbl (SetReg (dreg Z r) Top TV_None s))"
    "dreg Z r < length (tbl (upd_tbl (dreg Z r) h (SetReg (dreg Z r) Top TV_None s)))" for h
    using lt_dreg [OF assms(4)] assms(11) by (simp_all add: wf_state_def upd_tbl_def)
  have neg: "\<not> DWARFRegOf Z r < 0" "\<not> DWARFRegOf Z r1 < 0" using assms(4,8) by simp_all
  note defs = transfer_switch_def or_clobber_def Let_def xfer_mov_def mov_narrow_def xfer_movx_def xfer_movsxd_def
    ClobberWrittenReg_def ClobberReg_def src_def n_def g_def
  consider "insn_id i = MOV" | "insn_id i \<in> {MOVZX, MOVSX}" | "insn_id i = MOVSXD" using assms(1) by blast
  then show thesis
  proof cases
    case 1
    then have "RegWidthBits Z r = 32" "\<not> IsFull64 Z r" using assms(6,9) by simp_all
    then show thesis
      using 1 assms(2,3,7,8) neg len
      by (intro that [of "\<lambda>t. ApplyZeroExtendedFrom src n g (t\<lparr>value_bound := WrittenRegBound Z r\<rparr>)"])
        (simp_all add: defs upd_tbl_upd_tbl)
  next
    case 2
    let ?h = "\<lambda>t. if insn_id i = MOVZX then ApplyZeroExtendedFrom src n g (t\<lparr>value_bound := WrittenRegBound Z r\<rparr>)
         else ApplySignExtendedFrom src n g (t\<lparr>value_bound := WrittenRegBound Z r\<rparr>)"
    have ids: "insn_id i \<noteq> MOV" "insn_id i \<noteq> MOVSXD" "insn_id i \<noteq> ADD" "insn_id i \<noteq> SUB" "insn_id i \<in> set [MOVZX, MOVSX]" using 2 by auto
    have w: "\<not> RegWidthBits Z r < 32" using assms(5) by auto
    have x: "xfer_movx Z i s = Some (upd_tbl (dreg Z r) (\<lambda>t. t\<lparr>value_bound := min (value_bound t) (WrittenRegBound Z r)\<rparr>)
        (upd_tbl (dreg Z r) (if insn_id i = MOVZX then ApplyZeroExtendedFrom src n g else ApplySignExtendedFrom src n g)
          (upd_tbl (dreg Z r) (\<lambda>t. t\<lparr>value_bound := WrittenRegBound Z r\<rparr>) (SetReg (dreg Z r) Top TV_None s))))"
      using assms(2,3,7,8) neg w
      by (simp add: xfer_movx_def Let_def ClobberWrittenReg_def ClobberReg_def src_def n_def g_def)
    have "snd (transfer_switch Z i s) = upd_tbl (dreg Z r) (\<lambda>t. ?h t\<lparr>value_bound := min (value_bound (?h t)) (WrittenRegBound Z r)\<rparr>)
        (SetReg (dreg Z r) Top TV_None s)"
      using 2 x len by (auto simp: transfer_switch_def or_clobber_def upd_tbl_upd_tbl)
    then show thesis by (rule that) (use 2 in \<open>auto simp: Let_def\<close>)
  next
    case 3
    then have w: "RegWidthBits Z r = 64" "IsFull64 Z r" using assms(6,10) by simp_all
    then have "WrittenRegBound Z r = value_bound TV_None" by (simp add: WrittenRegBound_def TV_None_def)
    then have "TV_None\<lparr>value_bound := WrittenRegBound Z r\<rparr> = TV_None" by simp
    then show thesis
      using 3 w assms(2,3,7,8) neg len
      by (intro that [of "ApplySignExtendedFrom src n g"]) (simp_all add: defs)
  qed
qed

lemma widen_sound:
  assumes "sound F M s" "tables_sound img M fl s" "wf_state s" "plain_operands Z i s"
    and "insn_id i \<in> {MOV, MOVZX, MOVSX, MOVSXD}" "op_count i = 2" "op_value (operand i 0) = TypeRegister r" "0 \<le> DWARFRegOf Z r"
    and "RegWidthBits Z r \<in> {32, 64}" "IsFull64 Z r \<longleftrightarrow> RegWidthBits Z r = 64" "op_value (operand i 1) = TypeRegister r1"
    and "0 \<le> DWARFRegOf Z r1" "op_size (operand i 1) \<in> {16, 32}" "\<not> IsFull64 Z r1"
    and "insn_id i = MOV \<Longrightarrow> RegWidthBits Z r = 32" "insn_id i = MOVSXD \<Longrightarrow> RegWidthBits Z r = 64"
    and M': "M' = set_reg (dreg Z r) (widened (insn_id i) (op_size (operand i 1)) (RegWidthBits Z r) (mregs M (dreg Z r1))) M"
  shows "sound F M' (snd (transfer_switch Z i s)) \<and> tables_sound img M' fl (snd (transfer_switch Z i s))"
proof -
  let ?n = "op_size (operand i 1)" and ?x = "mregs M (dreg Z r1)"
  let ?src = "table s (DWARFRegOf Z r1)" and ?g = "ProvenGuardBound s (DWARFRegOf Z r1) (op_size (operand i 1))"
  let ?y = "widened (insn_id i) ?n (RegWidthBits Z r) ?x" and ?none = "TV_None\<lparr>value_bound := WrittenRegBound Z r\<rparr>"
  let ?t = "if insn_id i \<in> {MOV, MOVZX} then ApplyZeroExtendedFrom ?src ?n ?g ?none else ApplySignExtendedFrom ?src ?n ?g ?none"
  have n: "?n \<le> 32" "0 < ?n" using assms(13) by auto
  have "plain_tv ?src" using assms(4,11,14) by (simp add: plain_operands_def)
  note low = narrow_read [OF assms(2,12) this, of ?n]
  have none: "ident ?none = TNone" by (simp add: TV_None_def)
  have t: "tv_rep img ?t ?y"
  proof (cases "insn_id i \<in> {MOV, MOVZX}")
    case True
    then show ?thesis using tv_rep_zero_extended [OF low none] widened_small(1) [OF n(1) True] by simp
  next
    case False
    then show ?thesis using tv_rep_sign_extended [OF low none n(2,1) False] by simp
  qed
  have cap: "?y \<le> WrittenRegBound Z r"
    using widened_small(2) [OF n(1)] assms(9) by (auto simp: WrittenRegBound_def WidthBound_mask)
  obtain f where f: "snd (transfer_switch Z i s) = upd_tbl (dreg Z r) f (SetReg (dreg Z r) Top TV_None s)"
    "f TV_None = ?t \<or> f TV_None = (let t = ?t in t\<lparr>value_bound := min (value_bound t) (WrittenRegBound Z r)\<rparr>)"
    by (rule widen_transfer [OF assms(5-12,15,16,3)])
  have "tv_rep img (f TV_None) ?y" using f(2) t tv_rep_cap [OF t cap] by (auto simp: Let_def)
  then show ?thesis
    unfolding f(1) by (intro written_upd_SetReg [OF assms(1-3)]) (use lt_dreg [OF assms(8)] in \<open>simp_all add: M'\<close>)
qed

subsection \<open>Comparisons and the rest\<close>

lemma compare_sound:
  assumes "tables_sound img M fl s" "flags_step Z i M fl fl'" "insn_id i = CMP"
  shows "tables_sound img M fl' (xfer_cmp Z i (clear_guard i s))"
proof -
  let ?s = "clear_guard i s"
  have s: "tables_sound img M fl' ?s" using assms(1,2) by (rule tables_clear_guard)
  show ?thesis
  proof (cases "\<exists>r im. op_value (operand i 0) = TypeRegister r \<and> op_value (operand i 1) = TypeImmediate im \<and> op_count i = 2 \<and> 0 \<le> DWARFRegOf Z r")
    case True
    then obtain r im where r: "op_value (operand i 0) = TypeRegister r" "op_value (operand i 1) = TypeImmediate im" "op_count i = 2"
      "0 \<le> DWARFRegOf Z r" by blast
    let ?n = "op_size (operand i 0)"
    have n: "?n \<in> {16, 32, 64}"
      and fl': "fl' = Some (compare_flags (take_bit ?n (mregs M (dreg Z r))) (take_bit ?n im))"
      using assms(2,3) r by (auto simp: flags_step_def)
    have "(if ?n < 64 then im AND (push_bit ?n 1 - 1) else im) = take_bit ?n im"
      using n by (cases "?n = 64") (simp add: take_bit_word_eq_self, auto simp: take_bit_eq_mask mask_eq_exp_minus_1 push_bit_eq_mult)
    then have "xfer_cmp Z i ?s = ?s\<lparr>last_cmp := Some \<lparr>fg_reg = dreg Z r, width_bits = ?n, imm = take_bit ?n im, proven_bound = kBoundTop\<rparr>\<rparr>"
      using r n by (auto simp: xfer_cmp_def Let_def)
    then show ?thesis
      using s fl' lt_dreg [OF r(4)] by (simp add: tables_sound_def guard_sound_def guard_holds_def)
  next
    case False
    then have "xfer_cmp Z i ?s = ?s"
      by (auto simp: xfer_cmp_def Let_def split: ZydisOperandValue.split)
    with s show ?thesis by simp
  qed
qed

lemma untracked_transfer:
  assumes "untracked Z i r" "op_count i = 2" "op_value (operand i 0) = TypeRegister r" "0 \<le> DWARFRegOf Z r"
  shows "snd (transfer_switch Z i s) \<in> {ClobberReg (dreg Z r) s, ClobberWrittenReg Z r (dreg Z r) s, ClobberWrites Z i s}"
proof -
  have neg: "\<not> DWARFRegOf Z r < 0" using assms(4) by simp
  have slot: "MemSlot Z s i m = None" if "\<not> plain_mem Z i m" for m
    using that by (auto simp: MemSlot_def plain_mem_def)
  have clob: "SetReg1 (dreg Z r) Top s = ClobberReg (dreg Z r) s" by (simp add: SetReg1_def ClobberReg_def)
  note T = transfer_switch_def or_clobber_def
  have mov: "xfer_mov Z i s \<in> {Some (ClobberReg (dreg Z r) s), Some (ClobberWrittenReg Z r (dreg Z r) s)}"
    if "insn_id i \<in> set [MOV, MOVQ]"
    using that assms neg clob slot
    by (cases "op_value (operand i 1)")
      (auto simp: untracked_def xfer_mov_def mov_full_def mov_narrow_def Let_def split: if_splits option.split)
  have arith: "xfer_add_sub Z i s \<in> {None, Some (ClobberWrittenReg Z r (dreg Z r) s)}" if "insn_id i \<in> set [ADD, SUB]"
    using that assms neg
    by (cases "op_value (operand i 1)")
      (auto simp: untracked_def xfer_add_sub_def add_dispatch_def add_sub_imm_def Let_def split: AbsVal.split)
  consider "insn_id i \<in> set [MOV, MOVQ]" | "insn_id i \<in> set [ADD, SUB]" | "insn_id i = LEA" | "insn_id i = MOVSXD"
    using assms(1) by (auto simp: untracked_def split: ZydisOperandValue.splits)
  then show ?thesis
  proof cases
    case 1
    with mov [OF 1] show ?thesis by (auto simp: T)
  next
    case 2
    with arith [OF 2] show ?thesis by (auto simp: T)
  next
    case 3
    with assms neg clob slot show ?thesis
      by (auto simp: untracked_def T xfer_lea_def LeaValue_def Let_def split: ZydisOperandValue.splits)
  next
    case 4
    with assms neg show ?thesis
      by (auto simp: untracked_def T xfer_movsxd_def movsxd_load_def Let_def split: ZydisOperandValue.splits)
  qed
qed

lemma untracked_sound:
  assumes "sound F M s" "tables_sound img M fl s" "wf_state s" "untracked Z i r" "op_count i = 2" "op_value (operand i 0) = TypeRegister r"
    and "writes_only Z i r" "zero_extends Z i M'" "mmem M' = mmem M" "\<And>q. q \<noteq> dreg Z r \<Longrightarrow> mregs M' q = mregs M q"
  shows "sound F M' (snd (transfer_switch Z i s)) \<and> tables_sound img M' fl (snd (transfer_switch Z i s))"
proof -
  have r: "0 \<le> DWARFRegOf Z r" using assms(7) by (simp add: writes_only_def)
  have "mregs M' (dreg Z r) \<le> WrittenRegBound Z r"
    using assms(7,8) r by (auto simp: writes_only_def zero_extends_def WrittenRegBound_def WidthBound_mask)
  then have b: "tv_rep img (TV_None\<lparr>value_bound := WrittenRegBound Z r\<rparr>) (mregs M' (dreg Z r))" by simp
  have "sound F M' (ClobberReg (dreg Z r) s) \<and> tables_sound img M' fl (ClobberReg (dreg Z r) s)"
    unfolding ClobberReg_def by (rule written_SetReg [OF assms(1-3) lt_dreg [OF r]]) (use assms(9,10) in simp_all)
  moreover have "sound F M' (ClobberWrittenReg Z r (dreg Z r) s) \<and> tables_sound img M' fl (ClobberWrittenReg Z r (dreg Z r) s)"
    unfolding ClobberWrittenReg_def ClobberReg_def
    by (rule written_upd_SetReg [OF assms(1-3) lt_dreg [OF r]]) (use assms(9,10) b in simp_all)
  moreover note written_clobbered [OF assms(1-3,7-10)] untracked_transfer [OF assms(4-6) r, of s]
  ultimately show ?thesis by auto
qed

text \<open>Every instruction that is not a branch.\<close>

definition placed_stack :: "Instruction \<Rightarrow> AbsState \<Rightarrow> bool" where
  "placed_stack i s \<longleftrightarrow>
     (insn_id i \<in> set [PUSH, POP, CALL] \<longrightarrow> (case reg s 7 of CFARel d \<Rightarrow> in_int64 d | _ \<Rightarrow> False)) \<and>
     (insn_id i = LEAVE \<longrightarrow> is_cfarel (reg s 6))"

lemma unplaced_store_sound:
  assumes "sound F M s" "tables_sound img M fl s" "insn_id i = MOV" "op_count i = 2" "op_value (operand i 0) = TypeMemory m"
    and "MemSlot Z s i m = None" "mregs M' = mregs M"
    and "\<And>off v. map_of (slots s) off = Some v \<Longrightarrow>
      load64 (mmem M') (fr_cfa F + word_of_int off) = load64 (mmem M) (fr_cfa F + word_of_int off)"
  shows "sound F M' (snd (transfer_switch Z i s)) \<and> tables_sound img M' fl (snd (transfer_switch Z i s))"
proof -
  have "snd (transfer_switch Z i s) = s"
    using assms(3-6) by (simp add: transfer_switch_def or_clobber_def xfer_mov_def mov_store_def HandleUnplacedMemWrite_def)
  moreover have "sound F M' s" using assms(1,7,8) by (auto simp: sound_def slots_sound_def)
  moreover have "tables_sound img M' fl s" by (rule tables_cong [OF _ _ _ assms(2)]) (simp_all add: assms(7))
  ultimately show ?thesis by simp
qed

lemma lea_rip_sound:
  assumes "sound F M s" "tables_sound img M fl s" "wf_state s" "insn_id i = LEA" "op_count i = 2" "op_value (operand i 0) = TypeRegister r"
    and "IsFull64 Z r" "op_value (operand i 1) = TypeMemory m" "mem_base m = ZYDIS_REGISTER_RIP" "mem_index m = ZYDIS_REGISTER_NONE"
    and "zy_CalcAbsoluteAddress Z (insn i) (operand i 1) (address i) = Some a" "M' = set_reg (dreg Z r) a M"
  shows "sound F M' (snd (transfer_switch Z i s)) \<and> tables_sound img M' fl (snd (transfer_switch Z i s))"
proof -
  note r = full_reg [OF assms(7)]
  have "snd (transfer_switch Z i s) = SetReg (dreg Z r) Other (TV_Const a) s"
    using assms(4-11) r by (simp add: transfer_switch_def or_clobber_def xfer_lea_def Let_def SetTableReg_def)
  then show ?thesis using written_SetReg [OF assms(1-3), of "dreg Z r" Other "TV_Const a" M'] r assms(12) by simp
qed

lemma cstep_sound:
  assumes "cstep Z img F s i M M'" "flags_step Z i M fl fl'" "sound F M s" "tables_sound img M fl s" "wf_state s" "aligned8 (fr_cfa F)"
    and "placed_stack i s" "plain_operands Z i s" "widths_ok Z" "category (insn i) = CATEGORY_OTHER" "\<not> leaves i" "\<not> stops i"
  shows "sound F M' (snd (Transfer Z i s)) \<and> tables_sound img M' fl' (snd (Transfer Z i s))"
proof -
  let ?s = "clear_guard i s"
  have s: "sound F M ?s" "tables_sound img M fl' ?s" "wf_state ?s"
    using assms(3,5) tables_clear_guard [OF assms(4,2)] by (simp_all add: wf_state_clear_guard)
  have T: "Transfer Z i s = transfer_switch Z i ?s"
    using assms(10-12) by (intro Transfer_other) (auto simp: leaves_def stops_def)
  have po: "plain_operands Z i ?s" using assms(8) by simp
  show ?thesis
    using assms(1)
  proof cases
    case frame_step
    have "placed Z i s" using assms(7) frame_step(3) by (auto simp: placed_def placed_stack_def split: ZydisOperandValue.split)
    then have "placed Z i ?s" by (simp add: placed_iff)
    then show ?thesis
      using Transfer_sound_aux [OF frame_step(1) assms(3,5,6) \<open>placed Z i s\<close> assms(10)]
        mstep_tables [OF frame_step(1,2) s(2,3) _ assms(9)] by (simp add: T)
  next
    case (unplaced_store m)
    have "MemSlot Z ?s i m = None" using unplaced_store(4) by simp
    moreover have "slots ?s = slots s" by (simp add: clear_guard_def)
    moreover note unplaced_store
    ultimately show ?thesis unfolding T by (intro unplaced_store_sound [OF s(1,2)]) simp_all
  next
    case (lea_rip r m a)
    show ?thesis unfolding T by (rule lea_rip_sound [OF s lea_rip])
  next
    case (table_load r m)
    then show ?thesis unfolding T by (intro table_load_sound [OF s po]) simp_all
  next
    case (add_regs r r1)
    then show ?thesis unfolding T by (intro add_regs_sound [OF s]) simp_all
  next
    case (widen r r1)
    then show ?thesis unfolding T by (intro widen_sound [OF s po]) simp_all
  next
    case compare
    have "sound F M (xfer_cmp Z i ?s)"
      using s(1) by (auto simp: xfer_cmp_def Let_def sound_def slots_sound_def split: ZydisOperandValue.split)
    then show ?thesis using compare compare_sound [OF assms(4,2) compare(1)] by (simp add: T transfer_switch_def)
  next
    case (untracked r)
    then show ?thesis unfolding T by (intro untracked_sound [OF s]) simp_all
  qed
qed

subsection \<open>Transfer\<close>


lemma tables_Entry: "tables_sound img M fl Entry"
  by (simp add: tables_sound_def Entry_def AbsState0_def)


end
