(* ===== verification/Cpu_Run.thy ===== *)
theory Cpu_Run
  imports Cpu_Step Fde_Claims
begin

text \<open>
  Runs of the processor through an FDE. Wherever control may go from an instruction that pass 2 has
  nothing to say about, the walk has an edge with a state that is true there; so along every run
  through a BLESSED FDE the rows unwind correctly.
\<close>

subsection \<open>The edges of a branch\<close>

definition plain_guard :: "AbsState \<Rightarrow> bool" where
  "plain_guard s \<longleftrightarrow> (case last_cmp s of
       None \<Rightarrow> True
     | Some g \<Rightarrow> (case ident (table s (int (fg_reg g))) of TTableEntry _ _ _ \<Rightarrow> False | TJumpTarget _ _ \<Rightarrow> False | _ \<Rightarrow> True))"

lemma tv_rep_guarded:
  assumes "tv_rep img t x" "x \<le> b" "case ident t of TTableEntry _ _ _ \<Rightarrow> False | TJumpTarget _ _ \<Rightarrow> False | _ \<Rightarrow> True"
  shows "tv_rep img (TV_ApplyGuardBound b t) x"
  using assms by (auto simp: tv_rep_def TV_ApplyGuardBound_def split: TableIdent.splits)

lemma jump_takes_edge:
  assumes "guard_sound M (Some f) g" "\<not> proven g" "jump_taken (insn_id i) f = Some (edge = kTaken)"
  shows "takes_edge M g i edge"
  using assms
  by (auto simp: guard_sound_def takes_edge_def jump_taken_def unsigned_jump_def compare_flags_def not_less not_le
      split: ZydisMnemonic.splits)

lemma TransferEdge_tables:
  assumes "tables_sound img M fl s" "wf_state s" "plain_guard s"
    and "InRangeEdgeOf (insn_id i) edge \<noteq> GNone \<Longrightarrow> \<exists>f. fl = Some f \<and> jump_taken (insn_id i) f = Some (edge = kTaken)"
  shows "tables_sound img M fl (TransferEdge i edge s)"
proof (cases "last_cmp s")
  case None
  with assms(1) show ?thesis by (simp add: TransferEdge_def Let_def)
next
  case (Some g)
  have g: "guard_sound M fl g" using assms(1) Some by (simp add: tables_sound_def)
  have "\<not> proven g \<longrightarrow> InRangeEdgeOf (insn_id i) edge \<noteq> GNone \<longrightarrow> takes_edge M g i edge"
    using assms(4) g jump_takes_edge by blast
  then show ?thesis
  proof (cases rule: TransferEdge_guard [OF tables_bounds [OF assms(1)] Some, consumes 1, case_names same proved applied])
    case same
    with assms(1) show ?thesis by simp
  next
    case (proved b)
    with assms(1) Some g show ?thesis by (simp add: tables_sound_def guard_sound_def guard_holds_def)
  next
    case (applied b)
    let ?r = "fg_reg g"
    have r: "?r < kNumGPRs" "length (tbl s) = kNumGPRs" using g assms(2) by (simp_all add: guard_sound_def wf_state_def)
    have "tv_rep img (TV_ApplyGuardBound b (tbl s ! ?r)) (mregs M ?r)"
      by (rule tv_rep_guarded [OF tv_rep_reg [OF assms(1) r(1)] applied(3)])
        (use assms(3) Some r in \<open>simp add: plain_guard_def table_def\<close>)
    then have "tv_rep img ((tbl s)[?r := TV_ApplyGuardBound b (tbl s ! ?r)] ! q) (mregs M q)" if "q < kNumGPRs" for q
      using that assms(1) r by (cases "q = ?r") (simp_all add: tables_sound_def)
    then show ?thesis
      using applied(1,2) g r unfolding applied(4)
      by (simp add: tables_sound_def guard_sound_def guard_holds_def ApplyGuardBound_def)
  qed
qed

text \<open>C14. An edge of a branch only adds what holds on it: when the state is true of the machine and its
  flags, and the flags send the processor along that edge, the state \<open>TransferEdge\<close> returns for the
  edge is true as well. No edge proves a bound it has not established. The compared register must
  not hold a table entry, as its bound would be taken for that of the index.\<close>

theorem TransferEdge_sound:
  assumes "tables_sound img M fl s" "wf_state s" "plain_guard s"
    and "InRangeEdgeOf (insn_id i) edge \<noteq> GNone \<Longrightarrow> \<exists>f. fl = Some f \<and> jump_taken (insn_id i) f = Some (edge = kTaken)"
  shows "tables_sound img M fl (TransferEdge i edge s)"
  using assms by (rule TransferEdge_tables)

theorem TransferEdge_sound_witness:
  "tables_sound sample_image bound_machine (Some (compare_flags 7 9)) (TransferEdge sample_ja kFallThrough sample_compared) \<and>
   value_bound (table (TransferEdge sample_ja kFallThrough sample_compared) 0) = 9"
proof
  have "tables_sound sample_image bound_machine (Some (compare_flags 7 9)) sample_compared"
    by (simp add: tables_sound_def sample_compared_def tbl_AbsState0 guard_sound_def guard_holds_def bound_machine_def take_bit_word_eq_self)
  moreover have "wf_state sample_compared" by (simp add: sample_compared_def wf_state_upd wf_state_AbsState0)
  moreover have "plain_guard sample_compared" by code_simp
  ultimately show "tables_sound sample_image bound_machine (Some (compare_flags 7 9)) (TransferEdge sample_ja kFallThrough sample_compared)"
    by (rule TransferEdge_sound) (simp add: sample_ja_def jump_taken_def compare_flags_def)
qed code_simp

subsection \<open>Resolved tables\<close>

lemma ResolveJumpTable_entries:
  assumes "ResolveJumpTable opts a n \<noteq> []" "k < unat n"
  shows "IsFileBackedNonExecutable (opt_image opts) (a + of_nat k * 4) 4 \<and>
    a + table_word (opt_image opts) (a + of_nat k * 4) \<in> set (ResolveJumpTable opts a n)"
proof -
  obtain ts where ts: "resolve_entries opts a [0..<unat n] = Some ts" "ResolveJumpTable opts a n = ts"
    using assms(1) by (auto simp: ResolveJumpTable_def split: if_splits option.splits)
  then have eq: "map (ResolveTableEntry opts a) [0..<unat n] = map Some ts" by (simp add: resolve_entries_Some)
  then have "length ts = unat n" by (metis diff_zero length_map length_upt)
  with arg_cong [OF eq, of "\<lambda>l. l ! k"] assms(2) have "ResolveTableEntry opts a k = Some (ts ! k)" "ts ! k \<in> set ts" by simp_all
  with ts(2) show ?thesis by (auto simp: ResolveTableEntry_def Let_def table_word_def split: if_splits)
qed

text \<open>A jump through a register that holds a bounded jump target goes to one of the resolved targets.\<close>

lemma jump_target_resolved:
  assumes "tv_rep (opt_image opts) t x" "ident t = TJumpTarget a r" "HasTableBound t"
    and "ResolveJumpTable opts a (table_bound t + 1) \<noteq> []"
  shows "x \<in> set (ResolveJumpTable opts a (table_bound t + 1))"
proof -
  obtain k where k: "k \<le> table_bound t" "entry_is (opt_image opts) a k (x - a)"
    using assms(1,2) by (auto simp: tv_rep_def)
  have "table_bound t + 1 \<noteq> 0"
    using assms(3) by (auto simp: HasTableBound_def kBoundTop_def eq_neg_iff_add_eq_0)
  then have "unat (table_bound t + 1) = unat (table_bound t) + 1" using unatSuc [of "table_bound t"] by (simp add: add.commute)
  then have "unat k < unat (table_bound t + 1)" using k(1) by (simp add: word_le_nat_alt)
  from ResolveJumpTable_entries [OF assms(4) this]
  have e: "IsFileBackedNonExecutable (opt_image opts) (a + k * 4) 4"
    "a + table_word (opt_image opts) (a + k * 4) \<in> set (ResolveJumpTable opts a (table_bound t + 1))" by simp_all
  then have "x - a = table_word (opt_image opts) (a + k * 4)" using k(2) by (simp add: entry_is_def)
  then have "x = a + table_word (opt_image opts) (a + k * 4)" by (simp add: algebra_simps)
  with e(2) show ?thesis by simp
qed

subsection \<open>Joins\<close>

definition tv_weaker :: "TableVal \<Rightarrow> TableVal \<Rightarrow> bool" where
  "tv_weaker u t \<longleftrightarrow> value_bound t \<le> value_bound u \<and>
     (ident u = TConflict \<or> (table_bound t \<le> table_bound u \<and> (ident u = ident t \<or> (ident u = TNone \<and> plain_tv t))) \<or>
      (ident u = TNone \<and> table_bound u = kBoundTop))"

definition tables_le :: "AbsState \<Rightarrow> AbsState \<Rightarrow> bool" where
  "tables_le u s \<longleftrightarrow> (\<forall>r \<in> set [0..<kNumGPRs]. tv_weaker (tbl u ! r) (tbl s ! r)) \<and> (last_cmp u = None \<or> last_cmp u = last_cmp s)"

lemma tv_rep_weaker:
  assumes "tv_rep img t x" "tv_weaker u t"
  shows "tv_rep img u x"
proof -
  have v: "x \<le> value_bound u" using assms by (auto simp: tv_rep_def tv_weaker_def)
  consider "ident u = TConflict" | "ident u = ident t" "table_bound t \<le> table_bound u"
    | "ident u = TNone" "plain_tv t" "table_bound t \<le> table_bound u" | "ident u = TNone" "table_bound u = kBoundTop"
    using assms(2) by (auto simp: tv_weaker_def)
  then show ?thesis
  proof cases
    case 2
    with assms(1) v show ?thesis by (cases "ident t") (auto simp: tv_rep_def intro: order_trans)
  next
    case 3
    with plain_tv_bound [OF assms(1)] v show ?thesis by (auto simp: tv_rep_def)
  qed (use v in \<open>simp_all add: tv_rep_def\<close>)
qed

lemma tables_le_sound: "tables_sound img M fl s \<Longrightarrow> tables_le u s \<Longrightarrow> tables_sound img M fl u"
  by (auto simp: tables_sound_def tables_le_def intro: tv_rep_weaker split: option.splits)

subsection \<open>Where control goes is where the walk goes\<close>

text \<open>What the walk takes for granted at an instruction: where the machine falls through, the walk does so
  too (it may take a fall-through for impossible when the row after it does not fit), and an
  indirect jump through no table that leaves the frame taken down is a tail call.\<close>

definition flow_kept :: "walk \<Rightarrow> (u64 \<Rightarrow> bool) \<Rightarrow> (u64 \<Rightarrow> bool) \<Rightarrow> u64 \<Rightarrow> Instruction \<Rightarrow> AbsState \<Rightarrow> bool" where
  "flow_kept w returns tails pc i s = (case Transfer (opt_disasm (options w)) i s of (out, s') \<Rightarrow>
     (falls_through out \<and> fetch_end pc i < pc_end (cfi w) \<and> (is_call out \<longrightarrow> returns pc) \<longrightarrow>
        FallThroughIsReal (cfi w) (RowIndexAt (cfi w) pc) (fetch_end pc i) (gpr s) s' (is_call out) = Some True) \<and>
     (indirect_branch out \<and> \<not> has_unbounded_jump_target out \<longrightarrow> tails pc))"

lemma transfer_switch_out:
  "falls_through (fst (transfer_switch Z i s)) \<and> (is_call (fst (transfer_switch Z i s)) \<longleftrightarrow> insn_id i = CALL)"
  by (simp add: transfer_switch_def or_clobber_def xfer_push_def xfer_pop_def TransferOutcome0_def Let_def)

lemma Transfer_branch:
  assumes "category (insn i) \<noteq> CATEGORY_OTHER" "\<not> leaves i"
  shows "Transfer Z i s = (xfer_branch Z i (clear_guard i s), clear_guard i s)"
  using assms by (cases "category (insn i)") (auto simp: Transfer_def Let_def leaves_def)

lemma xfer_branch_direct:
  "branch_target Z i = Some t \<Longrightarrow> has_direct_target (xfer_branch Z i s) \<and> direct_target (xfer_branch Z i s) = t"
  "falls_through (xfer_branch Z i s) = (insn_id i \<noteq> JMP)" "\<not> is_call (xfer_branch Z i s)"
  by (auto simp: xfer_branch_def branch_target_def Let_def TransferOutcome0_def
      split: ZydisOperandValue.splits option.splits TableIdent.splits)

text \<open>An indirect jump that is not a tail call.\<close>

lemma xfer_branch_indirect:
  assumes "branch_target Z i = None" "indirect_branch (xfer_branch Z i s) \<Longrightarrow> has_unbounded_jump_target (xfer_branch Z i s)"
    and "\<not> has_unbounded_jump_target (xfer_branch Z i s)"
  obtains r a q where "op_value (operand i 0) = TypeRegister r" "1 \<le> op_count i" "ident (table s (DWARFRegOf Z r)) = TJumpTarget a q"
    "HasTableBound (table s (DWARFRegOf Z r))" "has_jump_table (xfer_branch Z i s)" "jump_table_addr (xfer_branch Z i s) = a"
    "jump_table_entries (xfer_branch Z i s) = table_bound (table s (DWARFRegOf Z r)) + 1"
  using assms
  by (auto simp: xfer_branch_def branch_target_def Let_def TransferOutcome0_def
      split: ZydisOperandValue.splits option.splits TableIdent.splits if_splits)

lemma edge_fall:
  assumes "flow_edges w sites pc i s = Some es" "falls_through (fst (Transfer (opt_disasm (options w)) i s))"
    and "flow_kept w returns tails pc i s" "is_call (fst (Transfer (opt_disasm (options w)) i s)) \<Longrightarrow> returns pc"
    and "in_fde (cfi w) (fetch_end pc i)"
  shows "(fetch_end pc i, TransferEdge i kFallThrough (snd (Transfer (opt_disasm (options w)) i s))) \<in> set es"
  using assms
  by (auto simp: flow_edges_def flow_kept_def fall_through_edges_def fetch_end_def in_fde_def Let_def split: prod.splits if_splits)

lemma edge_direct:
  assumes "flow_edges w sites pc i s = Some es" "has_direct_target (fst (Transfer (opt_disasm (options w)) i s))"
    and "direct_target (fst (Transfer (opt_disasm (options w)) i s)) = t" "in_fde (cfi w) t"
  shows "(t, TransferEdge i kTaken (snd (Transfer (opt_disasm (options w)) i s))) \<in> set es"
  using assms by (auto simp: flow_edges_def direct_edges_def split: prod.splits)

lemma edge_throw:
  assumes "flow_edges w sites pc i s = Some es" "is_call (fst (Transfer (opt_disasm (options w)) i s))"
    and "LandingPadForCall sites pc = Some lp"
  shows "(lp, snd (Transfer (opt_disasm (options w)) i s)) \<in> set es"
  using assms by (auto simp: flow_edges_def call_edges_def split: prod.splits)

lemma edge_table:
  assumes "flow_edges w sites pc i s = Some es" "has_jump_table (fst (Transfer (opt_disasm (options w)) i s))" "in_fde (cfi w) t"
    and "t \<in> set (ResolveJumpTable (options w) (jump_table_addr (fst (Transfer (opt_disasm (options w)) i s)))
                      (jump_table_entries (fst (Transfer (opt_disasm (options w)) i s))))"
  shows "(t, snd (Transfer (opt_disasm (options w)) i s)) \<in> set es"
  using assms by (auto simp: flow_edges_def table_edges_def split: prod.splits)

lemma TransferEdge_other: "InRangeEdgeOf (insn_id i) edge = GNone \<Longrightarrow> TransferEdge i edge s = s"
  by (simp add: TransferEdge_def split: option.split)

lemma sound_TransferEdge [simp]: "sound F M (TransferEdge i edge s) = sound F M s"
  by (rule sound_cong) (auto simp: TransferEdge_def Let_def ApplyGuardBound_def split: option.split)

lemma cstep_no_jump: "cstep Z img F s i M M' \<Longrightarrow> InRangeEdgeOf (insn_id i) edge = GNone"
  by (erule cstep.cases; (erule mstep.cases)?)
    (auto simp: InRangeEdgeOf_def untracked_def split: ZydisOperandValue.splits)

lemma tables_clear_guard_same: "tables_sound img M fl s \<Longrightarrow> tables_sound img M fl (clear_guard i s)"
  by (auto simp: tables_sound_def clear_guard_def split: option.splits)

lemma plain_guard_clear_guard: "plain_guard s \<Longrightarrow> plain_guard (clear_guard i s)"
  by (auto simp: plain_guard_def clear_guard_def table_def split: option.splits)

definition step_ok :: "walk \<Rightarrow> (u64 \<Rightarrow> bool) \<Rightarrow> (u64 \<Rightarrow> bool) \<Rightarrow> u64 \<Rightarrow> Instruction \<Rightarrow> AbsState \<Rightarrow> bool" where
  "step_ok w returns tails pc i s \<longleftrightarrow> placed_stack i s \<and> plain_operands (opt_disasm (options w)) i s \<and>
     (category (insn i) \<noteq> CATEGORY_OTHER \<longrightarrow> plain_guard s) \<and> flow_kept w returns tails pc i s"

text \<open>An instruction that is not a branch.\<close>

lemma next_other:
  assumes "cnext w returns tails pc i M fl pc'" "cpu_step w F s i M fl M' fl'" "flow_edges w (walk_sites w) pc i s = Some es"
    and "in_fde (cfi w) pc'" "step_ok w returns tails pc i s" "category (insn i) = CATEGORY_OTHER"
    and "\<not> leaves i \<Longrightarrow> \<not> stops i \<Longrightarrow> sound F M' (snd (Transfer (opt_disasm (options w)) i s)) \<and>
      tables_sound img M' fl' (snd (Transfer (opt_disasm (options w)) i s))"
  shows "\<exists>s'. (pc', s') \<in> set es \<and> sound F M' s' \<and> tables_sound img M' fl' s'"
proof -
  let ?Z = "opt_disasm (options w)"
  have T: "Transfer ?Z i s = transfer_switch ?Z i (clear_guard i s)" if "\<not> leaves i" "\<not> stops i"
    using that assms(6) by (intro Transfer_other) (auto simp: leaves_def stops_def)
  have E: "TransferEdge i kFallThrough s' = s'" for s'
  proof -
    have "cstep ?Z (opt_image (options w)) F s i M M'" using assms(2,6) by (simp add: cpu_step_def)
    then show ?thesis by (intro TransferEdge_other cstep_no_jump)
  qed
  have K: "flow_kept w returns tails pc i s" using assms(5) by (simp add: step_ok_def)
  show ?thesis
    using assms(1)
  proof cases
    case fall_through
    note out = transfer_switch_out [of ?Z i "clear_guard i s"]
    have "(fetch_end pc i, TransferEdge i kFallThrough (snd (Transfer ?Z i s))) \<in> set es"
      by (rule edge_fall [OF assms(3) _ K]) (use fall_through assms(4) out T in auto)
    with E assms(7) fall_through show ?thesis by auto
  next
    case throws
    then have n: "\<not> leaves i" "\<not> stops i" by (auto simp: leaves_def stops_def)
    have "(pc', snd (Transfer ?Z i s)) \<in> set es"
      by (rule edge_throw [OF assms(3) _ throws(3)]) (use throws transfer_switch_out T [OF n] in auto)
    with assms(7) [OF n] show ?thesis by blast
  qed (use assms(6) in simp_all)
qed

text \<open>A branch.\<close>

lemma next_dispatch:
  assumes "branch_target (opt_disasm (options w)) i = None" "\<not> tails pc"
    and "\<And>r. op_value (operand i 0) = TypeRegister r \<Longrightarrow> 1 \<le> op_count i \<Longrightarrow> pc' = mregs M (dreg (opt_disasm (options w)) r)"
    and "flow_edges w (walk_sites w) pc i s = Some es" "in_fde (cfi w) pc'" "flow_kept w returns tails pc i s"
    and "category (insn i) \<noteq> CATEGORY_OTHER" "\<not> leaves i" "tables_sound (opt_image (options w)) M fl (clear_guard i s)"
    and "outcome_clean w can pc s (fst (Transfer (opt_disasm (options w)) i s))" "\<not> guessing_enabled w"
  shows "(pc', clear_guard i s) \<in> set es"
proof -
  let ?Z = "opt_disasm (options w)" and ?s = "clear_guard i s" and ?img = "opt_image (options w)"
  note T = Transfer_branch [OF assms(7,8), of ?Z s]
  let ?out = "xfer_branch ?Z i ?s"
  have "indirect_branch ?out \<Longrightarrow> has_unbounded_jump_target ?out" using assms(2,6) by (auto simp: flow_kept_def T)
  moreover have "\<not> has_unbounded_jump_target ?out \<or> has_jump_table ?out"
    using assms(10,11) by (auto simp: outcome_clean_def T split: if_splits)
  moreover have "\<not> (has_unbounded_jump_target ?out \<and> has_jump_table ?out)"
    by (auto simp: xfer_branch_def Let_def TransferOutcome0_def split: ZydisOperandValue.splits option.splits TableIdent.splits)
  ultimately obtain r a q where r: "op_value (operand i 0) = TypeRegister r" "1 \<le> op_count i"
    "ident (table ?s (DWARFRegOf ?Z r)) = TJumpTarget a q" "HasTableBound (table ?s (DWARFRegOf ?Z r))"
    "has_jump_table ?out" "jump_table_addr ?out = a" "jump_table_entries ?out = table_bound (table ?s (DWARFRegOf ?Z r)) + 1"
    using xfer_branch_indirect [OF assms(1), of ?s] by blast
  let ?t = "table ?s (DWARFRegOf ?Z r)"
  have "ResolveJumpTable (options w) a (table_bound ?t + 1) \<noteq> []"
    using assms(10) r(5-7) by (simp add: outcome_clean_def T targets_ok_def)
  moreover have "0 \<le> DWARFRegOf ?Z r" using r(3) by (auto simp: table_def TV_None_def split: if_splits)
  then have "tv_rep ?img ?t pc'" using tv_rep_table [OF assms(9)] assms(3) [OF r(1,2)] by simp
  ultimately have "pc' \<in> set (ResolveJumpTable (options w) a (table_bound ?t + 1))"
    using r(3,4) by (intro jump_target_resolved)
  then show ?thesis using edge_table [OF assms(4) _ assms(5)] r(5-7) by (simp add: T)
qed

lemma next_branch:
  assumes "cnext w returns tails pc i M fl pc'" "flow_edges w (walk_sites w) pc i s = Some es"
    and "in_fde (cfi w) pc'" "step_ok w returns tails pc i s" "category (insn i) \<noteq> CATEGORY_OTHER"
    and "sound F M s" "tables_sound (opt_image (options w)) M fl s" "wf_state s"
    and "outcome_clean w can pc s (fst (Transfer (opt_disasm (options w)) i s))" "\<not> guessing_enabled w"
  shows "\<exists>s'. (pc', s') \<in> set es \<and> sound F M s' \<and> tables_sound (opt_image (options w)) M fl s'"
proof -
  let ?Z = "opt_disasm (options w)" and ?s = "clear_guard i s" and ?img = "opt_image (options w)"
  have K: "flow_kept w returns tails pc i s" and G: "plain_guard ?s"
    using assms(4,5) plain_guard_clear_guard by (auto simp: step_ok_def)
  have s: "sound F M ?s" "tables_sound ?img M fl ?s" "wf_state ?s"
    using assms(6-8) tables_clear_guard_same by (simp_all add: wf_state_clear_guard)
  note edge = TransferEdge_tables [OF s(2,3) G]
  show ?thesis
    using assms(1)
  proof cases
    case (not_taken f)
    note T = Transfer_branch [OF assms(5) not_taken(3), of ?Z s]
    have "(pc', TransferEdge i kFallThrough ?s) \<in> set es"
      using edge_fall [OF assms(2) _ K] assms(3) xfer_branch_direct(2,3) [of ?Z i ?s] not_taken by (simp add: T)
    moreover have "tables_sound ?img M fl (TransferEdge i kFallThrough ?s)"
      using not_taken by (intro edge) (auto simp: InRangeEdgeOf_def jump_taken_def split: ZydisMnemonic.splits if_splits)
    ultimately show ?thesis using s(1) by auto
  next
    case jump
    note T = Transfer_branch [OF assms(5) jump(2), of ?Z s]
    have "(pc', TransferEdge i kTaken ?s) \<in> set es"
      using edge_direct [OF assms(2) _ _ assms(3)] xfer_branch_direct(1) [OF jump(3)] by (simp add: T)
    moreover have "tables_sound ?img M fl (TransferEdge i kTaken ?s)"
      using jump(4) by (intro edge) (auto simp: InRangeEdgeOf_def jump_taken_def split: ZydisMnemonic.splits if_splits)
    ultimately show ?thesis using s(1) by auto
  next
    case dispatch
    from next_dispatch [OF dispatch(3,4,5) assms(2,3) K assms(5) dispatch(2) s(2) assms(9,10)] s(1,2) show ?thesis by blast
  qed (use assms(5) in simp_all)
qed

subsection \<open>Runs\<close>

definition known_state :: "InsnTrace list \<Rightarrow> u64 \<Rightarrow> AbsState" where
  "known_state tr pc = (case map_of (trace_states tr) pc of Some s \<Rightarrow> s | None \<Rightarrow> AbsState0)"

text \<open>The runs of the processor inside an FDE, from a machine of which the entry state \<open>s0\<close> is true. The
  trace enters only as the argument of \<open>cpu_step\<close>, in the rule for stores.\<close>

inductive cpu_run :: "walk \<Rightarrow> InsnTrace list \<Rightarrow> (u64 \<Rightarrow> bool) \<Rightarrow> (u64 \<Rightarrow> bool) \<Rightarrow> frame \<Rightarrow> AbsState \<Rightarrow> u64 \<Rightarrow> machine \<Rightarrow> eflags option \<Rightarrow> bool"
  for w tr returns tails F s0 where
  cpu_start: "sound F M s0 \<Longrightarrow> cpu_run w tr returns tails F s0 (pc_begin (cfi w)) M fl"
| cpu_next: "cpu_run w tr returns tails F s0 pc M fl \<Longrightarrow> DecodeAt w pc = Some i \<Longrightarrow>
    cpu_step w F (known_state tr pc) i M fl M' fl' \<Longrightarrow> cnext w returns tails pc i M fl pc' \<Longrightarrow> in_fde (cfi w) pc' \<Longrightarrow>
    cpu_run w tr returns tails F s0 pc' M' fl'"

definition keeps_claims :: "(u64 \<times> AbsState) list \<Rightarrow> u64 \<times> AbsState \<Rightarrow> bool" where
  "keeps_claims m e = (case map_of m (fst e) of None \<Rightarrow> False | Some u \<Rightarrow> claims_le u (snd e) \<and> tables_le u (snd e))"

text \<open>The condition on the trace, which can be evaluated.\<close>

definition faithful_trace :: "walk \<Rightarrow> InsnTrace list \<Rightarrow> (u64 \<Rightarrow> bool) \<Rightarrow> (u64 \<Rightarrow> bool) \<Rightarrow> AbsState \<Rightarrow> bool" where
  "faithful_trace w tr returns tails s0 \<longleftrightarrow> keeps_claims (trace_states tr) (pc_begin (cfi w), s0) \<and>
     (\<forall>t \<in> set tr. (case DecodeAt w (tr_pc t) of None \<Rightarrow> True | Some i \<Rightarrow> step_ok w returns tails (tr_pc t) i (tr_state t)) \<and>
        (case edges_at w (walk_sites w) (tr_pc t) (tr_state t) of
           None \<Rightarrow> True | Some es \<Rightarrow> \<forall>e \<in> set es. keeps_claims (trace_states tr) e))"

lemma keeps_claims_sound:
  assumes "keeps_claims m (pc, s)" "sound F M s" "tables_sound img M fl s"
  obtains u where "map_of m pc = Some u" "sound F M u" "tables_sound img M fl u"
  using assms sound_claims_le tables_le_sound by (auto simp: keeps_claims_def split: option.splits)

lemma cpu_run_sound:
  assumes "cpu_run w tr returns tails F s0 pc M fl" "faithful_trace w tr returns tails s0" "aligned8 (fr_cfa F)"
    and "widths_ok (opt_disasm (options w))" "\<not> guessing_enabled w"
    and "\<And>M fl. tables_sound (opt_image (options w)) M fl s0"
    and "\<And>pc s. map_of (trace_states tr) pc = Some s \<Longrightarrow> wf_state s \<and> insn_clean w can pc s \<and> edges_at w (walk_sites w) pc s \<noteq> None"
  shows "\<exists>s. map_of (trace_states tr) pc = Some s \<and> sound F M s \<and> tables_sound (opt_image (options w)) M fl s"
  using assms(1)
proof (induction rule: cpu_run.induct)
  case (cpu_start M fl)
  have "keeps_claims (trace_states tr) (pc_begin (cfi w), s0)" using assms(2) by (simp add: faithful_trace_def)
  from keeps_claims_sound [OF this cpu_start assms(6)] show ?case by blast
next
  case (cpu_next pc M fl i M' fl' pc')
  let ?Z = "opt_disasm (options w)" and ?img = "opt_image (options w)"
  obtain s where s: "map_of (trace_states tr) pc = Some s" "sound F M s" "tables_sound ?img M fl s" using cpu_next.IH by blast
  from assms(7) [OF s(1)] obtain es where c: "wf_state s" "insn_clean w can pc s" "edges_at w (walk_sites w) pc s = Some es" by blast
  obtain t where t: "t \<in> set tr" "tr_pc t = pc" "tr_state t = s" using map_of_SomeD [OF s(1)] by (auto simp: trace_states_def)
  have ok: "step_ok w returns tails pc i s" and kc: "\<forall>e \<in> set es. keeps_claims (trace_states tr) e"
    using assms(2) t c(3) cpu_next.hyps(2) by (force simp: faithful_trace_def)+
  have fl: "flow_edges w (walk_sites w) pc i s = Some es" using c(3) cpu_next.hyps(2) by (simp add: edges_at_def)
  have st: "cpu_step w F s i M fl M' fl'" using cpu_next.hyps(3) s(1) by (simp add: known_state_def)
  have "\<exists>s'. (pc', s') \<in> set es \<and> sound F M' s' \<and> tables_sound ?img M' fl' s'"
  proof (cases "category (insn i) = CATEGORY_OTHER")
    case True
    then have cs: "cstep ?Z ?img F s i M M'" "flags_step ?Z i M fl fl'" using st by (simp_all add: cpu_step_def)
    have "placed_stack i s" "plain_operands ?Z i s" using ok by (simp_all add: step_ok_def)
    then show ?thesis
      using next_other [OF cpu_next.hyps(4) st fl cpu_next.hyps(5) ok True] cstep_sound [OF cs s(2,3) c(1) assms(3) _ _ assms(4) True] by blast
  next
    case False
    then have "M' = M" "fl' = fl" using st by (simp_all add: cpu_step_def)
    moreover have "outcome_clean w can pc s (fst (Transfer ?Z i s))" using c(2) cpu_next.hyps(2) by (auto simp: insn_clean_def)
    ultimately show ?thesis
      using next_branch [OF cpu_next.hyps(4) fl cpu_next.hyps(5) ok False s(2,3) c(1) _ assms(5)] by blast
  qed
  then obtain s' where s': "(pc', s') \<in> set es" "sound F M' s'" "tables_sound ?img M' fl' s'" by blast
  from keeps_claims_sound [OF _ s'(2,3)] kc s'(1) show ?case by blast
qed

lemma tbl_SeedReg: "tbl (SeedReg row e r s) = tbl s" "last_cmp (SeedReg row e r s) = last_cmp s"
  by (simp_all add: SeedReg_def Let_def split: RegRuleKind.split)

lemma tables_SeedFromRow: "tables_sound img M fl (SeedFromRow row e)"
proof -
  have "tbl (fold (SeedReg row e) rs s) = tbl s" "last_cmp (fold (SeedReg row e) rs s) = last_cmp s" for rs s
    by (induction rs arbitrary: s) (simp_all add: tbl_SeedReg)
  then show ?thesis by (simp add: SeedFromRow_def Let_def tables_sound_def AbsState0_def)
qed

lemma cpu_run_unwinds:
  assumes "Check opts c at_entry False = Some (res, tr)" "verdict res = kBlessed"
    and "RowAt c (pc_begin c) = Some row" "rule_kind (row_regs row ! kDWARFRip) \<noteq> RUndefined"
    and "w = \<lparr>options = opts, cfi = c, at_function_entry = at_entry, guessing_enabled = False\<rparr>"
    and "faithful_trace w tr returns tails (SeedFromRow row (IsCanonicalEntry row))" "aligned8 (fr_cfa F)" "widths_ok (opt_disasm opts)"
    and "cpu_run w tr returns tails F (SeedFromRow row (IsCanonicalEntry row)) pc M fl"
  shows "\<exists>row'. RowAt c pc = Some row' \<and> unwinds F M row'"
proof -
  have w: "Run w = Some (res, tr)" "cfi w = c" "\<not> guessing_enabled w" "widths_ok (opt_disasm (options w))"
    using assms(1,5,8) by (simp_all add: Check_def)
  obtain st where st: "settled w row st" "worklist st = []" "\<forall>pc. map_of (trace_states tr) pc = map_of (in_states st) pc"
    "\<forall>pc s. map_of (in_states st) pc = Some s \<longrightarrow> insn_clean w (IsCanonicalEntry row) pc s"
    using Run_Blessed [OF w(1) assms(2)] assms(3,4) w(2) by metis
  have inv: "wf_state s \<and> insn_clean w (IsCanonicalEntry row) pc s \<and> edges_at w (walk_sites w) pc s \<noteq> None"
    if "map_of (trace_states tr) pc = Some s" for pc s
  proof -
    have in_st: "map_of (in_states st) pc = Some s" using that st(3) by simp
    then have "stable_at w st pc" "wf_state s" "call_sites st = walk_sites w"
      using st(1,2) by (auto simp: settled_def walk_inv_def walk_wf_def)
    with in_st st(4) show ?thesis by (auto simp: stable_at_def state_at_def)
  qed
  obtain s where s: "map_of (trace_states tr) pc = Some s" "sound F M s"
    using cpu_run_sound [OF assms(9,6,7) w(4,3) tables_SeedFromRow inv] by blast
  then obtain row' where "RowAt c pc = Some row'" "row_holds (check_unmentioned_callee_saved (options w)) row' s"
    using inv [OF s(1)] w(2) by (auto simp: insn_clean_def)
  with row_holds_unwinds [OF s(2)] show ?thesis by blast
qed

end
