(* ===== verification/Dispatch.thy ===== *)
theory Dispatch
  imports Cpu_Run
begin

text \<open>
  What a BLESSED verdict is worth on the processor, with the run through a switch table as the
  example, and two things it is not worth.
\<close>

subsection \<open>A function with a switch\<close>

text \<open>The function
  \<^verbatim>\<open>cmp $1,%rax; ja d; lea t(%rip),%rdx; movslq (%rdx,%rax,4),%rax; add %rdx,%rax; jmp *%rax; d: ret; e: ret; f: ret\<close>
  at \<open>0x1000\<close>, each instruction one byte long, and its table of two entries, \<open>e\<close> and \<open>f\<close>, at
  \<open>0x2000\<close>.\<close>

definition reg_operand :: "ZydisRegister \<Rightarrow> bool \<Rightarrow> ZydisDecodedOperand" where
  "reg_operand r wr = \<lparr>op_value = TypeRegister r, op_size = 64, op_writes = wr\<rparr>"

definition mem_operand :: "ZydisRegister \<Rightarrow> ZydisRegister \<Rightarrow> nat \<Rightarrow> ZydisDecodedOperand" where
  "mem_operand b x n = \<lparr>op_value = TypeMemory \<lparr>mem_base = b, mem_index = x, mem_scale = 4, mem_disp = 0\<rparr>, op_size = n, op_writes = False\<rparr>"

definition imm_operand :: "u64 \<Rightarrow> ZydisDecodedOperand" where
  "imm_operand v = \<lparr>op_value = TypeImmediate v, op_size = 32, op_writes = False\<rparr>"

definition flags_insn :: "ZydisMnemonic \<Rightarrow> nat \<Rightarrow> ZydisDecodedInstruction" where
  "flags_insn m n = (sample_insn m n)\<lparr>cpu_flags := Some (sample_flags\<lparr>fl_modified := 1\<rparr>)\<rparr>"

definition switch_decode :: "u8 list \<Rightarrow> (ZydisDecodedInstruction \<times> ZydisDecodedOperand list) option" where
  "switch_decode bytes =
     (case bytes of
        [] \<Rightarrow> None
      | b # _ \<Rightarrow>
          if b = 0x3d then Some (flags_insn CMP 2, [reg_operand ZYDIS_REGISTER_RAX False, imm_operand 1])
          else if b = 0x77 then Some ((sample_insn JNBE 1)\<lparr>category := CATEGORY_COND_BR\<rparr>, [imm_operand 0x1006])
          else if b = 0x8d then Some (sample_insn LEA 2, [reg_operand ZYDIS_REGISTER_RDX True, mem_operand ZYDIS_REGISTER_RIP ZYDIS_REGISTER_NONE 64])
          else if b = 0x63 then Some (sample_insn MOVSXD 2, [reg_operand ZYDIS_REGISTER_RAX True, mem_operand ZYDIS_REGISTER_RDX ZYDIS_REGISTER_RAX 32])
          else if b = 0x01 then Some (flags_insn ADD 2, [reg_operand ZYDIS_REGISTER_RAX True, reg_operand ZYDIS_REGISTER_RDX False])
          else if b = 0xff then Some ((sample_insn JMP 1)\<lparr>category := CATEGORY_UNCOND_BR\<rparr>, [reg_operand ZYDIS_REGISTER_RAX False])
          else if b = 0xc3 then Some (sample_insn RET 0, [])
          else None)"

definition switch_address :: "ZydisDecodedInstruction \<Rightarrow> ZydisDecodedOperand \<Rightarrow> u64 \<Rightarrow> u64 option" where
  "switch_address di op a = (case op_value op of TypeImmediate t \<Rightarrow> Some t | TypeMemory m \<Rightarrow> Some 0x2000 | _ \<Rightarrow> None)"

definition switch_zydis :: zydis where
  "switch_zydis = sample_zydis\<lparr>zy_DecodeFull := switch_decode, zy_CalcAbsoluteAddress := switch_address\<rparr>"

definition switch_text :: "u8 list" where
  "switch_text = [0x3d, 0x77, 0x8d, 0x63, 0x01, 0xff, 0xc3, 0xc3, 0xc3]"

definition switch_table :: "u8 list" where
  "switch_table = [0x07, 0xf0, 0xff, 0xff, 0x08, 0xf0, 0xff, 0xff]"

definition switch_mem :: "u64 \<Rightarrow> u8" where
  "switch_mem a = (if a - 0x1000 < 9 then switch_text ! unat (a - 0x1000)
                   else if a - 0x2000 < 8 then switch_table ! unat (a - 0x2000) else 0)"

definition switch_image :: ELFImage where
  "switch_image = sample_image\<lparr>img_mem := switch_mem,
     segments := [\<lparr>seg_vaddr = 0x1000, seg_memsz = 9, seg_filesz = 9, seg_offset = 0x1000, seg_flags = 5\<rparr>,
                  \<lparr>seg_vaddr = 0x2000, seg_memsz = 8, seg_filesz = 8, seg_offset = 0x2000, seg_flags = 4\<rparr>]\<rparr>"

definition switch_cfi :: CFI where
  "switch_cfi = sample_cfi\<lparr>pc_end := 0x1009, rows := [sample_row 0x1000 8 RegRule0]\<rparr>"

definition switch_options :: FDECheckerOptions where
  "switch_options = sample_options\<lparr>opt_image := switch_image, opt_disasm := switch_zydis, max_iterations := 20,
     all_cfis := [((0x1000, 0x1009), switch_cfi)]\<rparr>"

definition switch_walk :: walk where
  "switch_walk = \<lparr>options = switch_options, cfi = switch_cfi, at_function_entry = True, guessing_enabled = False\<rparr>"

text \<open>The entries of a table read at word width, for evaluation.\<close>

fun le_word32 :: "u8 list \<Rightarrow> u32" where
  "le_word32 [] = 0"
| "le_word32 (b # bs) = ucast b + 256 * le_word32 bs"

definition sext32 :: "u32 \<Rightarrow> u64" where
  "sext32 x = (if x < 0x80000000 then ucast x else ucast x - 0x100000000)"

lemma of_nat_le_nat32: "(of_nat (le_nat bs) :: u32) = le_word32 bs"
  by (induction bs) simp_all

lemma scast_sext32: "(scast x :: u64) = sext32 x"
proof -
  have lt: "uint x < 2 ^ 32" using uint_lt2p [of x] by simp
  have "bit (uint x) 31 \<longleftrightarrow> \<not> uint x < 2 ^ 31"
  proof (cases "uint x < 2 ^ 31")
    case True
    then have "uint x div 2 ^ 31 = 0" by simp
    with True show ?thesis by (simp add: bit_iff_odd)
  next
    case False
    with lt have "uint x div 2 ^ 31 = 1" by (intro div_pos_geq [THEN trans]) auto
    with False show ?thesis by (simp add: bit_iff_odd)
  qed
  then have "sint x = (if uint x < 2 ^ 31 then uint x else uint x - 2 ^ 32)"
    using lt by (simp add: sint_uint signed_take_bit_eq_take_bit_minus take_bit_int_eq_self)
  moreover have "(scast x :: u64) = word_of_int (sint x)" "(ucast x :: u64) = word_of_int (uint x)" by simp_all
  ultimately show ?thesis by (simp add: sext32_def word_less_def of_int_diff)
qed

lemma ResolveTableEntry_code [code]:
  "ResolveTableEntry opts table_addr index =
     (let img = opt_image opts; entry_addr = table_addr + of_nat index * 4; bytes = BytesAt img entry_addr 4;
          target = table_addr + sext32 (le_word32 bytes)
      in if \<not> IsFileBackedNonExecutable img entry_addr 4 then None
         else if length bytes \<noteq> 4 then None
         else if \<not> LandsInsideSomeFDE (all_cfis opts) target then None
         else if Decode (opt_disasm opts) (BytesAt img target 16) target = None then None
         else Some target)"
  by (simp add: ResolveTableEntry_def Let_def of_nat_le_nat32 scast_sext32)

lemma switch_trace:
  "map_option (\<lambda>(res, tr). (verdict res, map tr_pc tr, faithful_trace switch_walk tr (\<lambda>_. True) (\<lambda>_. False) sample_seed))
     (Check switch_options switch_cfi True False) =
   Some (kBlessed, [0x1000, 0x1001, 0x1002, 0x1003, 0x1004, 0x1005, 0x1006, 0x1007, 0x1008], True)"
  by code_simp

subsection \<open>What BLESSED is worth\<close>


text \<open>A run through the table: \<open>rax\<close> is 1, so it ends at the second target.\<close>

definition switch_frame :: frame where
  "switch_frame = \<lparr>fr_cfa = 0x8000, fr_orig = (\<lambda>r. if r = 16 then load64 switch_mem 0x7ff8 else of_nat (r + 1))\<rparr>"

definition switch_machine :: machine where
  "switch_machine = \<lparr>mregs = (\<lambda>r. if r = 7 then 0x7ff8 else of_nat (r + 1)), mmem = switch_mem\<rparr>"

definition decoded :: "u64 \<Rightarrow> ZydisDecodedInstruction \<Rightarrow> ZydisDecodedOperand list \<Rightarrow> Instruction" where
  "decoded a di ops = \<lparr>address = a, insn_size = 1, insn_id = mnemonic di, op_count = operand_count_visible di, operands = ops, insn = di\<rparr>"

abbreviation switch_cmp :: Instruction where
  "switch_cmp \<equiv> decoded 0x1000 (flags_insn CMP 2) [reg_operand ZYDIS_REGISTER_RAX False, imm_operand 1]"
abbreviation switch_ja :: Instruction where
  "switch_ja \<equiv> decoded 0x1001 ((sample_insn JNBE 1)\<lparr>category := CATEGORY_COND_BR\<rparr>) [imm_operand 0x1006]"
abbreviation switch_lea :: Instruction where
  "switch_lea \<equiv> decoded 0x1002 (sample_insn LEA 2)
  [reg_operand ZYDIS_REGISTER_RDX True, mem_operand ZYDIS_REGISTER_RIP ZYDIS_REGISTER_NONE 64]"
abbreviation switch_load :: Instruction where
  "switch_load \<equiv> decoded 0x1003 (sample_insn MOVSXD 2)
  [reg_operand ZYDIS_REGISTER_RAX True, mem_operand ZYDIS_REGISTER_RDX ZYDIS_REGISTER_RAX 32]"
abbreviation switch_add :: Instruction where
  "switch_add \<equiv> decoded 0x1004 (flags_insn ADD 2) [reg_operand ZYDIS_REGISTER_RAX True, reg_operand ZYDIS_REGISTER_RDX False]"
abbreviation switch_jmp :: Instruction where
  "switch_jmp \<equiv> decoded 0x1005 ((sample_insn JMP 1)\<lparr>category := CATEGORY_UNCOND_BR\<rparr>) [reg_operand ZYDIS_REGISTER_RAX False]"

lemma switch_decoded:
  "DecodeAt switch_walk 0x1000 = Some switch_cmp" "DecodeAt switch_walk 0x1001 = Some switch_ja"
  "DecodeAt switch_walk 0x1002 = Some switch_lea" "DecodeAt switch_walk 0x1003 = Some switch_load"
  "DecodeAt switch_walk 0x1004 = Some switch_add" "DecodeAt switch_walk 0x1005 = Some switch_jmp"
  by code_simp+

lemma switch_regs:
  "DWARFRegOf switch_zydis ZYDIS_REGISTER_RAX = 0" "IsFull64 switch_zydis ZYDIS_REGISTER_RAX"
  "DWARFRegOf switch_zydis ZYDIS_REGISTER_RDX = 1" "IsFull64 switch_zydis ZYDIS_REGISTER_RDX"
  "RegWidthBits switch_zydis ZYDIS_REGISTER_RAX = 64"
  by code_simp+

lemma switch_widths: "widths_ok switch_zydis"
  by (simp add: widths_ok_def IsFull64_def RegWidthBits_def switch_zydis_def sample_zydis_def)

lemma switch_options_simps [simp]:
  "options switch_walk = switch_options" "cfi switch_walk = switch_cfi" "opt_disasm switch_options = switch_zydis"
  "opt_image switch_options = switch_image" "pc_begin switch_cfi = 0x1000" "pc_end switch_cfi = 0x1009"
  by (simp_all add: switch_walk_def switch_options_def switch_cfi_def sample_cfi_def)

lemma switch_seed_sound: "sound switch_frame switch_machine sample_seed"
proof -
  have seed: "sample_seed = Entry" by code_simp
  show ?thesis
    unfolding seed
  proof (rule soundI)
    show "rep switch_frame (gpr Entry ! r) (mregs switch_machine r)" if "r < kNumGPRs" for r
      using that by (cases "r = 7") (auto simp: Entry_def switch_frame_def switch_machine_def)
    show "slots_sound switch_frame switch_machine Entry"
      by (auto simp: slots_sound_def Entry_def switch_frame_def switch_machine_def in_int64_def split: if_splits)
  qed
qed

abbreviation switch_run :: "InsnTrace list \<Rightarrow> u64 \<Rightarrow> machine \<Rightarrow> eflags option \<Rightarrow> bool" where
  "switch_run tr \<equiv> cpu_run switch_walk tr (\<lambda>_. True) (\<lambda>_. False) switch_frame sample_seed"

abbreviation switch_lea_machine :: machine where
  "switch_lea_machine \<equiv> set_reg 1 0x2000 switch_machine"

abbreviation switch_load_machine :: machine where
  "switch_load_machine \<equiv> set_reg 0 (load32s switch_lea_machine 0x2004) switch_lea_machine"

abbreviation switch_add_machine :: machine where
  "switch_add_machine \<equiv> set_reg 0 (load32s switch_lea_machine 0x2004 + 0x2000) switch_load_machine"

lemmas decoded_simps = decoded_def operand_def all_operands_def reg_operand_def imm_operand_def mem_operand_def flags_insn_def
  sample_insn_def sample_flags_def fetch_end_def in_fde_def leaves_def stops_def

lemma switch_run_cmp: "switch_run tr 0x1001 switch_machine (Some (compare_flags 1 1))"
proof -
  have 0: "switch_run tr 0x1000 switch_machine None"
    using cpu_start [of switch_frame switch_machine sample_seed switch_walk tr] switch_seed_sound by simp
  have "cstep switch_zydis switch_image switch_frame (known_state tr 0x1000) switch_cmp switch_machine switch_machine"
    by (rule cstep.compare) (simp_all add: decoded_simps)
  then have step: "cpu_step switch_walk switch_frame (known_state tr 0x1000) switch_cmp switch_machine None switch_machine (Some (compare_flags 1 1))"
    using switch_regs
    by (auto simp: cpu_step_def flags_step_def decoded_simps WritesEflags_def switch_machine_def take_bit_word_eq_self)
  have "cnext switch_walk (\<lambda>_. True) (\<lambda>_. False) 0x1000 switch_cmp switch_machine None (fetch_end 0x1000 switch_cmp)"
    by (rule cnext.fall_through) (simp_all add: decoded_simps)
  from cpu_next [OF 0 switch_decoded(1) step this] show ?thesis by (simp add: decoded_simps)
qed

lemma switch_run_ja: "switch_run tr 0x1002 switch_machine (Some (compare_flags 1 1))"
proof -
  have step: "cpu_step switch_walk switch_frame (known_state tr 0x1001) switch_ja switch_machine (Some (compare_flags 1 1))
      switch_machine (Some (compare_flags 1 1))"
    by (simp add: cpu_step_def decoded_simps written_def)
  have "cnext switch_walk (\<lambda>_. True) (\<lambda>_. False) 0x1001 switch_ja switch_machine (Some (compare_flags 1 1)) (fetch_end 0x1001 switch_ja)"
    by (rule cnext.not_taken [OF _ _ _ refl]) (simp_all add: decoded_simps jump_taken_def compare_flags_def)
  from cpu_next [OF switch_run_cmp switch_decoded(2) step this] show ?thesis by (simp add: decoded_simps)
qed

lemma switch_run_lea: "switch_run tr 0x1003 switch_lea_machine (Some (compare_flags 1 1))"
proof -
  have "cstep switch_zydis switch_image switch_frame (known_state tr 0x1002) switch_lea switch_machine switch_lea_machine"
    by (rule cstep.lea_rip [where r = ZYDIS_REGISTER_RDX and a = "0x2000" and
            m = "\<lparr>mem_base = ZYDIS_REGISTER_RIP, mem_index = ZYDIS_REGISTER_NONE, mem_scale = 4, mem_disp = 0\<rparr>"])
      (use switch_regs in \<open>simp_all add: decoded_simps switch_zydis_def switch_address_def\<close>)
  then have step: "cpu_step switch_walk switch_frame (known_state tr 0x1002) switch_lea switch_machine (Some (compare_flags 1 1))
      switch_lea_machine (Some (compare_flags 1 1))"
    by (simp add: cpu_step_def flags_step_def decoded_simps)
  have "cnext switch_walk (\<lambda>_. True) (\<lambda>_. False) 0x1002 switch_lea switch_machine (Some (compare_flags 1 1)) (fetch_end 0x1002 switch_lea)"
    by (rule cnext.fall_through) (simp_all add: decoded_simps)
  from cpu_next [OF switch_run_ja switch_decoded(3) step this] show ?thesis by (simp add: decoded_simps)
qed

lemma switch_load_run: "switch_run tr 0x1004 switch_load_machine (Some (compare_flags 1 1))"
proof -
  let ?m = "\<lparr>mem_base = ZYDIS_REGISTER_RDX, mem_index = ZYDIS_REGISTER_RAX, mem_scale = 4, mem_disp = 0\<rparr>"
  have addr: "scaled_addr switch_zydis switch_lea_machine ?m = 0x2004"
    using switch_regs by (simp add: scaled_addr_def mem_addr_def switch_machine_def)
  have "map (\<lambda>k. switch_mem (0x2004 + of_nat k)) [0..<4] = BytesAt switch_image 0x2004 4" by code_simp
  then have place: "in_place switch_image switch_lea_machine 0x2004"
    by (simp add: in_place_def load_bytes_def switch_machine_def)
  have "cstep switch_zydis switch_image switch_frame (known_state tr 0x1003) switch_load switch_lea_machine switch_load_machine"
    by (rule cstep.table_load [where r = ZYDIS_REGISTER_RAX and m = ?m])
      (use switch_regs addr place in \<open>auto simp: decoded_simps writes_only_def written_def zero_extends_def upt_rec\<close>)
  then have step: "cpu_step switch_walk switch_frame (known_state tr 0x1003) switch_load switch_lea_machine (Some (compare_flags 1 1))
      switch_load_machine (Some (compare_flags 1 1))"
    by (simp add: cpu_step_def flags_step_def decoded_simps)
  have "cnext switch_walk (\<lambda>_. True) (\<lambda>_. False) 0x1003 switch_load switch_lea_machine (Some (compare_flags 1 1)) (fetch_end 0x1003 switch_load)"
    by (rule cnext.fall_through) (simp_all add: decoded_simps)
  from cpu_next [OF switch_run_lea switch_decoded(4) step this] show ?thesis by (simp add: decoded_simps)
qed

lemma switch_run_add: "switch_run tr 0x1005 switch_add_machine None"
proof -
  have "cstep switch_zydis switch_image switch_frame (known_state tr 0x1004) switch_add switch_load_machine switch_add_machine"
    by (rule cstep.add_regs [where r = ZYDIS_REGISTER_RAX and rs = ZYDIS_REGISTER_RDX])
      (use switch_regs in \<open>auto simp: decoded_simps writes_only_def written_def zero_extends_def upt_rec\<close>)
  then have step: "cpu_step switch_walk switch_frame (known_state tr 0x1004) switch_add switch_load_machine (Some (compare_flags 1 1))
      switch_add_machine None"
    by (simp add: cpu_step_def flags_step_def decoded_simps WritesEflags_def)
  have "cnext switch_walk (\<lambda>_. True) (\<lambda>_. False) 0x1004 switch_add switch_load_machine (Some (compare_flags 1 1)) (fetch_end 0x1004 switch_add)"
    by (rule cnext.fall_through) (simp_all add: decoded_simps)
  from cpu_next [OF switch_load_run switch_decoded(5) step this] show ?thesis by (simp add: decoded_simps)
qed

lemma switch_run_jmp: "switch_run tr 0x1008 switch_add_machine None"
proof -
  have "le_word32 (map (\<lambda>k. switch_mem (0x2004 + of_nat k)) [0..<4]) = 0xfffff008" by code_simp
  then have "load32s switch_lea_machine 0x2004 = sext32 0xfffff008"
    by (simp add: load32s_def load_bytes_def of_nat_le_nat32 scast_sext32 switch_machine_def)
  then have rax: "mregs switch_add_machine 0 = 0x1008" by (simp add: sext32_def)
  have step: "cpu_step switch_walk switch_frame (known_state tr 0x1005) switch_jmp switch_add_machine None switch_add_machine None"
    by (auto simp: cpu_step_def decoded_simps written_def)
  have "cnext switch_walk (\<lambda>_. True) (\<lambda>_. False) 0x1005 switch_jmp switch_add_machine None 0x1008"
    by (rule cnext.dispatch) (use rax switch_regs in \<open>simp_all add: decoded_simps branch_target_def\<close>)
  from cpu_next [OF switch_run_add switch_decoded(6) step this] show ?thesis by (simp add: in_fde_def)
qed


subsection \<open>What it is not worth\<close>

definition drop_decode :: "u8 list \<Rightarrow> (ZydisDecodedInstruction \<times> ZydisDecodedOperand list) option" where
  "drop_decode bytes =
     (case bytes of
        [] \<Rightarrow> None
      | b # _ \<Rightarrow>
          if b = 0x74 then Some ((sample_insn (MNEMONIC_OTHER 0) 1)\<lparr>category := CATEGORY_COND_BR\<rparr>, [imm_operand 0x1004])
          else if b = 0xeb then Some ((sample_insn JMP 1)\<lparr>category := CATEGORY_UNCOND_BR\<rparr>, [imm_operand 0x1005])
          else sample_decode bytes)"

definition drop_zydis :: zydis where
  "drop_zydis = sample_zydis\<lparr>zy_DecodeFull := drop_decode, zy_CalcAbsoluteAddress := switch_address\<rparr>"

text \<open>\<^verbatim>\<open>jz b; push %rbp; push %rbp; jmp c; b: push %rbp; c: pop %rbp; pop %rbp; ret\<close>: the row at \<open>c\<close> is that of
  the path with two pushes.\<close>

definition drop_mem :: "u64 \<Rightarrow> u8" where
  "drop_mem a = (if a - 0x1000 < 8 then [0x74, 0x55, 0x55, 0xeb, 0x55, 0x5d, 0x5d, 0xc3] ! unat (a - 0x1000) else 0)"

definition drop_image :: ELFImage where
  "drop_image = sample_image\<lparr>img_mem := drop_mem,
     segments := [\<lparr>seg_vaddr = 0x1000, seg_memsz = 8, seg_filesz = 8, seg_offset = 0x1000, seg_flags = 5\<rparr>]\<rparr>"

definition drop_cfi :: CFI where
  "drop_cfi = sample_cfi\<lparr>pc_end := 0x1008, rows := map (\<lambda>(pc, off). sample_row pc off RegRule0)
     [(0x1000, 8), (0x1002, 16), (0x1003, 24), (0x1004, 8), (0x1005, 24), (0x1006, 16), (0x1007, 8)]\<rparr>"

definition drop_options :: FDECheckerOptions where
  "drop_options = sample_options\<lparr>opt_image := drop_image, opt_disasm := drop_zydis, max_iterations := 20,
     all_cfis := [((0x1000, 0x1008), drop_cfi)]\<rparr>"

definition drop_walk :: walk where
  "drop_walk = \<lparr>options = drop_options, cfi = drop_cfi, at_function_entry = True, guessing_enabled = False\<rparr>"

abbreviation drop_jz :: Instruction where
  "drop_jz \<equiv> decoded 0x1000 ((sample_insn (MNEMONIC_OTHER 0) 1)\<lparr>category := CATEGORY_COND_BR\<rparr>) [imm_operand 0x1004]"

abbreviation drop_push :: Instruction where
  "drop_push \<equiv> decoded 0x1004 (sample_insn PUSH 1) [sample_rbp False]"

lemma drop_facts:
  "map_option (\<lambda>(res, tr). verdict res) (Check drop_options drop_cfi True False) = Some kBlessed"
  "DecodeAt drop_walk 0x1000 = Some drop_jz" "DecodeAt drop_walk 0x1004 = Some drop_push"
  "map_option row_cfa (RowAt drop_cfi 0x1005) = Some (RegOffset 7 24)"
  "DWARFRegOf drop_zydis ZYDIS_REGISTER_RBP = 6" "IsFull64 drop_zydis ZYDIS_REGISTER_RBP"
  by code_simp+

lemma drop_simps [simp]:
  "options drop_walk = drop_options" "cfi drop_walk = drop_cfi" "opt_disasm drop_options = drop_zydis"
  "opt_image drop_options = drop_image" "pc_begin drop_cfi = 0x1000" "pc_end drop_cfi = 0x1008"
  by (simp_all add: drop_walk_def drop_options_def drop_cfi_def sample_cfi_def)

lemma drop_run: "cpu_run drop_walk tr (\<lambda>_. True) (\<lambda>_. False) sample_frame sample_seed 0x1005 sample_pushed (Some f)"
proof -
  let ?run = "cpu_run drop_walk tr (\<lambda>_. True) (\<lambda>_. False) sample_frame sample_seed"
  have 0: "?run 0x1000 sample_machine (Some f)"
    using cpu_start [of sample_frame sample_machine sample_seed drop_walk tr] sample_seed_sound by simp
  have "cpu_step drop_walk sample_frame (known_state tr 0x1000) drop_jz sample_machine (Some f) sample_machine (Some f)"
    by (simp add: cpu_step_def decoded_simps written_def)
  moreover have "cnext drop_walk (\<lambda>_. True) (\<lambda>_. False) 0x1000 drop_jz sample_machine (Some f) 0x1004"
    by (rule cnext.jump) (simp_all add: decoded_simps branch_target_def drop_zydis_def switch_address_def jump_taken_def)
  ultimately have 1: "?run 0x1004 sample_machine (Some f)"
    by (rule cpu_next [OF 0 drop_facts(2)]) (simp add: in_fde_def)
  have "mstep drop_zydis sample_frame drop_push sample_machine sample_pushed"
    using mstep.push_reg [of drop_push ZYDIS_REGISTER_RBP drop_zydis sample_machine sample_pushed sample_frame] drop_facts(5,6)
    by (simp add: decoded_simps sample_rbp_def sample_machine_def aligned8_def)
  then have "cstep drop_zydis drop_image sample_frame (known_state tr 0x1004) drop_push sample_machine sample_pushed"
    by (rule cstep.frame_step) (simp_all add: decoded_simps zero_extends_def sample_rbp_def)
  then have "cpu_step drop_walk sample_frame (known_state tr 0x1004) drop_push sample_machine (Some f) sample_pushed (Some f)"
    by (simp add: cpu_step_def flags_step_def decoded_simps)
  moreover have "cnext drop_walk (\<lambda>_. True) (\<lambda>_. False) 0x1004 drop_push sample_machine (Some f) (fetch_end 0x1004 drop_push)"
    by (rule cnext.fall_through) (simp_all add: decoded_simps)
  ultimately show ?thesis using cpu_next [OF 1 drop_facts(3)] by (simp add: decoded_simps)
qed

text \<open>C33. A fall-through that the walk takes for impossible is not reported when its target is reached
  otherwise: there is a BLESSED FDE, with coverage reporting on, and a run of the processor through it
  that arrives, by falling through from an ordinary instruction, at an address whose row does not
  unwind it. \<open>FallThroughIsReal\<close> drops the edge because the row after it fits neither side of
  the instruction, as it does for what follows a call that does not return.\<close>

theorem Blessed_drops_fall_through:
  "\<exists>res tr row. Check drop_options drop_cfi True False = Some (res, tr) \<and> verdict res = kBlessed \<and> report_coverage_gaps drop_options \<and>
     cpu_run drop_walk tr (\<lambda>_. True) (\<lambda>_. False) sample_frame sample_seed 0x1005 sample_pushed (Some f) \<and>
     RowAt drop_cfi 0x1005 = Some row \<and> \<not> unwinds sample_frame sample_pushed row"
proof -
  obtain res tr where c: "Check drop_options drop_cfi True False = Some (res, tr)" "verdict res = kBlessed"
    using drop_facts(1) by auto
  obtain row where row: "RowAt drop_cfi 0x1005 = Some row" "row_cfa row = RegOffset 7 24" using drop_facts(4) by auto
  have "unwind_cfa row sample_pushed = 0x8008" using row(2) by (simp add: unwind_cfa_def RegOffset_def sample_machine_def)
  then have "\<not> unwinds sample_frame sample_pushed row" by (simp add: unwinds_def sample_frame_def)
  moreover have "report_coverage_gaps drop_options" by (simp add: drop_options_def sample_options_def)
  ultimately show ?thesis using c row(1) drop_run by blast
qed

lemma table_SetReg:
  "wf_state s \<Longrightarrow> r < kNumGPRs \<Longrightarrow> table (SetReg r v t s) q = (if q = int r then t else table s q)"
  by (auto simp: table_def wf_state_def nth_list_update)

lemma full_not_none: "IsFull64 Z r \<Longrightarrow> r \<noteq> ZYDIS_REGISTER_NONE"
  by (auto simp: IsFull64_def gpr_index_def kDwarfGprs_def)

lemma displaced_state:
  assumes "wf_state s" "ident (table s (DWARFRegOf Z (mem_base m))) = TConst b"
    and "category (insn i) = CATEGORY_OTHER" "insn_id i = MOVSXD" "op_count i = 2" "op_value (operand i 0) = TypeRegister r"
    and "op_value (operand i 1) = TypeMemory m" "mem_scale m = 4" "IsFull64 Z r" "IsFull64 Z (mem_base m)" "IsFull64 Z (mem_index m)"
    and "category (insn j) = CATEGORY_OTHER" "insn_id j = ADD" "op_count j = 2" "op_value (operand j 0) = TypeRegister r"
    and "op_value (operand j 1) = TypeRegister (mem_base m)" "dreg Z r \<noteq> dreg Z (mem_base m)"
  shows "ident (table (snd (Transfer Z j (snd (Transfer Z i s)))) (DWARFRegOf Z r)) =
    TJumpTarget (b + word_of_int (mem_disp m)) (dreg Z (mem_index m))"
proof -
  note regs = full_reg [OF assms(9)] full_reg [OF assms(10)] full_reg [OF assms(11)]
  define t where "t = TV_TableEntry (b + word_of_int (mem_disp m)) (dreg Z (mem_index m)) b (table_bound (table s (DWARFRegOf Z (mem_index m))))"
  define s1 where "s1 = clear_guard j (SetTableReg (dreg Z r) t (clear_guard i s))"
  have "Transfer Z i s = transfer_switch Z i (clear_guard i s)" by (rule Transfer_other) (use assms(3,4) in simp_all)
  then have "snd (Transfer Z i s) = SetTableReg (dreg Z r) t (clear_guard i s)"
    using assms(2,4-8) regs full_not_none [OF assms(10)] full_not_none [OF assms(11)] assms(9-11)
    by (simp add: transfer_switch_def or_clobber_def xfer_movsxd_def movsxd_load_def Let_def t_def)
  moreover have "Transfer Z j u = transfer_switch Z j (clear_guard j u)" for u by (rule Transfer_other) (use assms(12,13) in simp_all)
  ultimately have T: "snd (Transfer Z j (snd (Transfer Z i s))) = snd (transfer_switch Z j s1)" by (simp add: s1_def)
  have wf: "wf_state s1" using assms(1) by (simp add: s1_def wf_state_clear_guard wf_state_writes)
  have tr: "table s1 (DWARFRegOf Z r) = t" and tb: "ident (table s1 (DWARFRegOf Z (mem_base m))) = TConst b"
    using assms(1,2,17) regs by (auto simp: s1_def SetTableReg_def table_SetReg wf_state_clear_guard)
  have "resolve_add (table s1 (DWARFRegOf Z r)) (table s1 (DWARFRegOf Z (mem_base m))) = None"
    "resolve_add (table s1 (DWARFRegOf Z (mem_base m))) (table s1 (DWARFRegOf Z r)) =
       Some (TV_JumpTarget (b + word_of_int (mem_disp m)) (dreg Z (mem_index m)) (table_bound t))"
    by (simp_all add: resolve_add_def tr tb) (simp_all add: t_def TV_TableEntry_def)
  then have "snd (transfer_switch Z j s1) =
      SetTableReg (dreg Z r) (TV_JumpTarget (b + word_of_int (mem_disp m)) (dreg Z (mem_index m)) (table_bound t)) s1"
    using assms(13-16) regs assms(9,10) by (simp add: transfer_switch_def or_clobber_def xfer_add_sub_def add_dispatch_def Let_def)
  then show ?thesis using wf regs by (simp add: T SetTableReg_def table_SetReg TV_JumpTarget_def)
qed

text \<open>C34. A table that is read at a displacement from its base is resolved to the wrong targets: the table
  entries are relative to the base, \<open>Transfer\<close> remembers only where the table is, and
  \<open>ResolveTableEntry\<close> adds the entry to that. After \<open>movslq d(%B,%I,4),%T; add %B,%T\<close> the state
  takes \<open>%T\<close> for the target of the table at \<open>B + d\<close>, and the address the processor has in it differs
  by \<open>d\<close> from the target resolved for the entry.\<close>

theorem displaced_table_missed:
  assumes "wf_state s" "ident (table s (DWARFRegOf Z (mem_base m))) = TConst (mregs M (dreg Z (mem_base m)))"
    and "category (insn i) = CATEGORY_OTHER" "insn_id i = MOVSXD" "op_count i = 2" "op_value (operand i 0) = TypeRegister r"
    and "op_value (operand i 1) = TypeMemory m" "mem_scale m = 4" "IsFull64 Z r" "IsFull64 Z (mem_base m)" "IsFull64 Z (mem_index m)"
    and "category (insn j) = CATEGORY_OTHER" "insn_id j = ADD" "op_count j = 2" "op_value (operand j 0) = TypeRegister r"
    and "op_value (operand j 1) = TypeRegister (mem_base m)" "dreg Z r \<noteq> dreg Z (mem_base m)"
    and "in_place (opt_image opts) M (scaled_addr Z M m)"
    and "M1 = set_reg (dreg Z r) (load32s M (scaled_addr Z M m)) M"
    and "M2 = set_reg (dreg Z r) (mregs M1 (dreg Z r) + mregs M1 (dreg Z (mem_base m))) M1"
    and "table_addr = mregs M (dreg Z (mem_base m)) + word_of_int (mem_disp m)"
    and "ResolveTableEntry opts table_addr (unat (mregs M (dreg Z (mem_index m)))) = Some target"
  shows "ident (table (snd (Transfer Z j (snd (Transfer Z i s)))) (DWARFRegOf Z r)) = TJumpTarget table_addr (dreg Z (mem_index m)) \<and>
    mregs M2 (dreg Z r) = target - word_of_int (mem_disp m)"
proof
  show "ident (table (snd (Transfer Z j (snd (Transfer Z i s)))) (DWARFRegOf Z r)) = TJumpTarget table_addr (dreg Z (mem_index m))"
    unfolding assms(21) by (rule displaced_state [OF assms(1-17)])
  have addr: "scaled_addr Z M m = table_addr + mregs M (dreg Z (mem_index m)) * 4"
    using assms(8,21) by (simp add: scaled_addr_def mem_addr_def)
  have "IsFileBackedNonExecutable (opt_image opts) (scaled_addr Z M m) 4" "target = table_addr + table_word (opt_image opts) (scaled_addr Z M m)"
    using assms(22) by (auto simp: ResolveTableEntry_def Let_def table_word_def addr split: if_splits)
  then have "target = table_addr + load32s M (scaled_addr Z M m)"
    using assms(18) by (simp add: in_place_def load32s_def table_word_def)
  then show "mregs M2 (dreg Z r) = target - word_of_int (mem_disp m)" using assms(17,19-21) by (auto simp: algebra_simps)
qed

text \<open>The table of the switch above, read at displacement 4 from \<open>0x1ffc\<close>: the second entry is resolved to
  \<open>0x1008\<close>, the processor goes to \<open>0x1004\<close>.\<close>

definition displaced_mem :: ZydisDecodedOperandMem where
  "displaced_mem = \<lparr>mem_base = ZYDIS_REGISTER_RDX, mem_index = ZYDIS_REGISTER_RAX, mem_scale = 4, mem_disp = 4\<rparr>"

definition displaced_load :: Instruction where
  "displaced_load = decoded 0x1003 (sample_insn MOVSXD 2)
     [reg_operand ZYDIS_REGISTER_RAX True, \<lparr>op_value = TypeMemory displaced_mem, op_size = 32, op_writes = False\<rparr>]"

definition displaced_state0 :: AbsState where
  "displaced_state0 = SetTableReg 1 (TV_Const 0x1ffc) Entry"

abbreviation displaced_machine :: machine where
  "displaced_machine \<equiv> set_reg 1 0x1ffc switch_machine"

theorem displaced_table_missed_witness:
  "ident (table (snd (Transfer switch_zydis switch_add (snd (Transfer switch_zydis displaced_load displaced_state0)))) 0) = TJumpTarget 0x2000 0 \<and>
   ResolveTableEntry switch_options 0x2000 1 = Some 0x1008 \<and>
   load32s displaced_machine 0x2004 + 0x1ffc = 0x1004"
proof -
  let ?M1 = "set_reg 0 (load32s displaced_machine 0x2004) displaced_machine"
  have entry: "ResolveTableEntry switch_options 0x2000 1 = Some 0x1008" by code_simp
  have wf: "wf_state displaced_state0" by (simp add: displaced_state0_def wf_state_writes wf_state_Entry)
  have base: "ident (table displaced_state0 1) = TConst 0x1ffc" by code_simp
  have mem: "mem_base displaced_mem = ZYDIS_REGISTER_RDX" "mem_index displaced_mem = ZYDIS_REGISTER_RAX"
    "mem_scale displaced_mem = 4" "mem_disp displaced_mem = 4" by (simp_all add: displaced_mem_def)
  have addr: "scaled_addr switch_zydis displaced_machine displaced_mem = 0x2004"
    using switch_regs by (simp add: scaled_addr_def mem_addr_def mem switch_machine_def)
  have "map (\<lambda>k. switch_mem (0x2004 + of_nat k)) [0..<4] = BytesAt switch_image 0x2004 4" by code_simp
  then have place: "in_place switch_image displaced_machine 0x2004" by (simp add: in_place_def load_bytes_def switch_machine_def)
  have rax: "mregs displaced_machine 0 = 1" by (simp add: switch_machine_def)
  from displaced_table_missed [of displaced_state0 switch_zydis displaced_mem displaced_machine displaced_load ZYDIS_REGISTER_RAX switch_add
      switch_options ?M1 "set_reg 0 (mregs ?M1 0 + mregs ?M1 1) ?M1" "0x2000" "0x1008"] entry wf base switch_regs addr place rax
  show ?thesis
    by (simp add: mem displaced_load_def decoded_simps)
qed

end
