(* ===== verification/File_Run.thy ===== *)
theory File_Run
  imports File_Props Dispatch
begin

text \<open>
  The full run over the file of \<open>File_Sample\<close>: it opens, its one FDE is read, checked and BLESSED, the
  program exits with 0, and a processor runs through the function.
\<close>

subsection \<open>The table\<close>

definition tiny_cfi :: CFI where
  "tiny_cfi =
     \<lparr>fde_addr = 0x10ce, pc_begin = 0x10b8, pc_end = 0x10bb, return_reg = 16, signal_frame = False, lsda_addr = 0,
      has_exotic_regs = False,
      rows = [sample_row 0x10b8 8 RegRule0,
              sample_row 0x10b9 16 \<lparr>rule_kind = RAtCFAOffset, rule_reg = 0, rule_offset = - 16\<rparr>,
              sample_row 0x10ba 8 RegRule0]\<rparr>"

definition tiny_cie :: CIEInfo where
  "tiny_cie = \<lparr>cie_code_align = 1, cie_data_align = - 8, cie_return_reg = 16, cie_fde_ptr_enc = DW_EH_PE_absptr,
     cie_lsda_ptr_enc = DW_EH_PE_omitted, cie_aug_z = False, cie_insns = \<lparr>sl_data = 0x10c9, sl_size = 5\<rparr>\<rparr>"

abbreviation tiny_inputs :: EHReaderInputs where
  "tiny_inputs \<equiv> \<lparr>lookup_pc = 0, eh_frame_hdr = 0, eh_frame_start = 0x10bc, eh_frame_end = 0x10f3\<rparr>"

lemma tiny_words:
  "ReadU32 tiny_memory \<lparr>sl_data = 0x10ce, sl_size = 37\<rparr> = Inr (0x1d, \<lparr>sl_data = 0x10d2, sl_size = 33\<rparr>)"
  "ReadU32 tiny_memory \<lparr>sl_data = 0x10d2, sl_size = 29\<rparr> = Inr (0x16, \<lparr>sl_data = 0x10d6, sl_size = 25\<rparr>)"
  by code_simp+

lemma tiny_ParseCIE:
  "ParseCIE tiny_memory table_builder \<lparr>sl_data = 0x10bc, sl_size = 55\<rparr> (TableBuilder0 0x10ce 0) = Inr (True, tiny_cie, TableBuilder0 0x10ce 0)"
  by code_simp

lemma tiny_ParseFDEBody:
  "map_sum id result (ParseFDEBody tiny_memory table_builder tiny_inputs True tiny_cie
      \<lparr>sl_data = 0x10d6, sl_size = 25\<rparr> (TableBuilder0 0x10ce 0)) = Inr tiny_cfi"
  by code_simp

lemma tiny_ReadFDE: "ReadFDE tiny_memory 0x10ce 0x10bc 0x10f3 0 = Inr tiny_cfi"
proof -
  obtain v where v: "ParseFDEBody tiny_memory table_builder tiny_inputs True tiny_cie
      \<lparr>sl_data = 0x10d6, sl_size = 25\<rparr> (TableBuilder0 0x10ce 0) = Inr v" "result v = tiny_cfi"
    using tiny_ParseFDEBody
    by (cases "ParseFDEBody tiny_memory table_builder tiny_inputs True tiny_cie \<lparr>sl_data = 0x10d6, sl_size = 25\<rparr> (TableBuilder0 0x10ce 0)") auto
  have "DecodeFDEAt tiny_memory table_builder tiny_inputs 0x10ce (TableBuilder0 0x10ce 0) = Inr v"
    unfolding DecodeFDEAt_def ParseFDE_def MakeSlice_def using v(1)
    by (auto simp: tiny_words tiny_ParseCIE TruncateSlice_def)
  then show ?thesis using v(2) by (simp add: ReadFDE_def tiny_cfi_def)
qed

lemma tiny_Enumerate: "EnumerateFDEs tiny_memory 0x10bc 0x10f3 = ([0x10ce], None)"
  by code_simp

lemma tiny_fdes: "ReadAllFDEs tiny_image = ([\<lparr>raw_vaddr = 0x10ce, raw_cfi = Inr tiny_cfi\<rparr>], None)"
  by (simp add: ReadAllFDEs_def ToVaddr_def tiny_image_def tiny_Enumerate tiny_ReadFDE)

lemma tiny_structural: "RunStructuralChecks tiny_image [\<lparr>raw_vaddr = 0x10ce, raw_cfi = Inr tiny_cfi\<rparr>] = ([], [tiny_cfi])"
proof -
  have "screen_fde tiny_image \<lparr>raw_vaddr = 0x10ce, raw_cfi = Inr tiny_cfi\<rparr> = Inr tiny_cfi"
    by (simp add: screen_fde_Inr IsExecutable_def InPLT_def tiny_image_def tiny_cfi_def executable_def Contains_def tiny_segment_def)
  then show ?thesis by (simp add: RunStructuralChecks_def)
qed

subsection \<open>The check\<close>

abbreviation tiny_options :: "nat \<Rightarrow> FDECheckerOptions" where
  "tiny_options n \<equiv>
     \<lparr>opt_image = tiny_image, opt_disasm = sample_zydis, check_unmentioned_callee_saved = False,
      report_coverage_gaps = True, max_findings_per_fde = 8, max_iterations = Suc (Suc (Suc (Suc (Suc (Suc (Suc (Suc n))))))),
      all_cfis = [((0x10b8, 0x10bb), tiny_cfi)]\<rparr>"

abbreviation tiny_walk :: "nat \<Rightarrow> walk" where
  "tiny_walk n \<equiv> \<lparr>options = tiny_options n, cfi = tiny_cfi, at_function_entry = False, guessing_enabled = False\<rparr>"

abbreviation tiny_seed :: AbsState where
  "tiny_seed \<equiv> SeedFromRow (sample_row 0x10b8 8 RegRule0) (IsCanonicalEntry (sample_row 0x10b8 8 RegRule0))"

lemma tiny_full:
  "map_option (\<lambda>(res, tr). (verdict res, faithful_trace (tiny_walk n) tr (\<lambda>_. True) (\<lambda>_. False) tiny_seed)) (Run (tiny_walk n)) =
     Some (kBlessed, True)"
  by code_simp

lemma tiny_decoded: "DecodeAt (tiny_walk n) 0x10b8 = Some (sample_push\<lparr>address := 0x10b8\<rparr>)"
  by code_simp

lemma tiny_uncovered: "CheckUncoveredSymbols tiny_image rs = []"
  by (simp add: CheckUncoveredSymbols_def tiny_image_def)

subsection \<open>The run of the program\<close>

text \<open>The two calls of \<open>mmap\<close> that leave the address to the kernel succeed.\<close>

lemma in_pages_page:
  "in_pages start 243 a \<longleftrightarrow> a - start < 0x1000" "in_pages start 0x1000 a \<longleftrightarrow> a - start < 0x1000"
proof -
  have "RoundUp 243 kPageSize = 0x1000" "RoundUp 0x1000 kPageSize = 0x1000" by code_simp+
  then show "in_pages start 243 a \<longleftrightarrow> a - start < 0x1000" "in_pages start 0x1000 a \<longleftrightarrow> a - start < 0x1000"
    by (simp_all add: in_pages_def)
qed

lemma page_disjoint:
  "a - 0x20000 < (0x1000 :: u64) \<Longrightarrow> \<not> a < 0x1000" "a - 0x1000 < (0x1000 :: u64) \<Longrightarrow> \<not> a < 0x1000 \<and> \<not> a - 0x20000 < 0x1000"
  by (auto simp: word_less_nat_alt unat_sub_if_size word_size split: if_splits)

lemma tiny_mmap:
  "fs_mmap tiny_file_os (pr_mapped low_process) 243 = Inr 0x20000"
  "fs_mmap tiny_file_os (map_range 0x20000 243 (pr_mapped low_process)) 0x1000 = Inr 0x1000"
proof -
  have "\<forall>a. in_pages 0x20000 243 a \<longrightarrow> \<not> pr_mapped low_process a"
    using page_disjoint(1) by (simp add: low_process_def in_pages_page)
  then show "fs_mmap tiny_file_os (pr_mapped low_process) 243 = Inr 0x20000" by (simp add: tiny_file_os_def)
  have "\<forall>a. in_pages 0x1000 0x1000 a \<longrightarrow> \<not> map_range 0x20000 243 (pr_mapped low_process) a"
    using page_disjoint(2) by (simp add: map_range_def low_process_def in_pages_page)
  then show "fs_mmap tiny_file_os (map_range 0x20000 243 (pr_mapped low_process)) 0x1000 = Inr 0x1000" by (simp add: tiny_file_os_def)
qed

lemma tiny_opened: "\<exists>m p'. OpenFile tiny_file_os ''a.out'' low_process = (Inr (tiny_image, m), p')"
proof -
  have "map_segments (fs_mmap_fixed tiny_file_os) 0 [tiny_segment] = None"
    by (simp add: tiny_file_os_def tiny_segment_def kPageSize_def)
  then have "Open (reserve_of tiny_file_os (map_range 0x20000 243 (pr_mapped low_process))) (fs_mmap_fixed tiny_file_os) tiny_so = Inr tiny_image"
    by (simp add: Open_def tiny_plan reserve_of_def tiny_mmap(2) tiny_finish)
  then have load: "fst (load_image tiny_file_os tiny_so m (map_range 0x20000 243 (pr_mapped low_process))) = Inr tiny_image" for m
    by (simp add: load_image_Open)
  let ?load = "load_image tiny_file_os tiny_so \<lparr>m_image = 0, m_image_size = 0, m_file = 0x20000, m_file_size = 243\<rparr>
    (map_range 0x20000 243 (pr_mapped low_process))"
  obtain m space where "?load = (Inr tiny_image, m, space)" using load by (metis fst_conv surj_pair)
  moreover have "fs_stat tiny_file_os fd = Inr 243" "fs_open tiny_file_os ''a.out'' used = Inr 3" for fd used
    by (simp_all add: tiny_file_os_def)
  ultimately show ?thesis by (simp add: OpenFile_def open_fd_def file_of_tiny tiny_mmap(1))
qed

abbreviation full_flags :: DriverFlags where "full_flags \<equiv> small_flags\<lparr>flag_full := True\<rparr>"

lemma tiny_run_options: "make_options full_flags tiny_image sample_zydis [tiny_cfi] = tiny_options 199992"
proof -
  have "make_cfi_index [tiny_cfi] = [((0x10b8, 0x10bb), tiny_cfi)]" by (simp add: make_cfi_index_def tiny_cfi_def)
  then show ?thesis by (simp add: make_options_def small_flags_def)
qed

lemma tiny_starts: "function_starts tiny_image = []"
  by (simp add: function_starts_def tiny_image_def)

lemma tiny_DriverRun: "\<exists>results. DriverRun full_flags id sample_zydis tiny_image = Some (Inr (results, 0))"
proof -
  obtain r tr where "Run (tiny_walk 199992) = Some (r, tr)" "verdict r = kBlessed" using tiny_full [of 199992] by auto
  then have "check_one full_flags (tiny_options 199992) tiny_image tiny_cfi = Some r" "verdict r = kBlessed"
    by (simp_all add: check_one_def CheckWithGuessing_def Check_def tiny_starts small_flags_def)
  moreover from this have "exit_code (Summarize [r]) = 0" by (simp add: Summarize_counts verdicts_def exit_code_def kExitBlessed_def)
  moreover have "has_eh_frame tiny_image" by (simp add: has_eh_frame_def tiny_image_def)
  moreover have "selected full_flags id tiny_image tiny_cfi" by (simp add: selected_def small_flags_def)
  ultimately show ?thesis
    using tiny_fdes tiny_structural tiny_uncovered by (simp add: DriverRun_def Let_def tiny_run_options)
qed

subsection \<open>A run of the processor\<close>

lemma tiny_cpu_run: "cpu_run (tiny_walk n) tr (\<lambda>_. True) (\<lambda>_. False) sample_frame tiny_seed 0x10b9 sample_pushed None"
proof -
  let ?push = "sample_push\<lparr>address := 0x10b8\<rparr>"
  have "tiny_seed = sample_seed" by code_simp
  then have 0: "cpu_run (tiny_walk n) tr (\<lambda>_. True) (\<lambda>_. False) sample_frame tiny_seed 0x10b8 sample_machine None"
    using cpu_start [of sample_frame sample_machine tiny_seed "tiny_walk n" tr] sample_seed_sound by (simp add: tiny_cfi_def)
  have "mstep sample_zydis sample_frame ?push sample_machine sample_pushed"
    using mstep.push_reg [of ?push ZYDIS_REGISTER_RBP sample_zydis sample_machine sample_pushed sample_frame] sample_dreg
    by (simp add: sample_push_def sample_insn_def operand_def sample_rbp_def sample_machine_def aligned8_def)
  then have "cstep sample_zydis tiny_image sample_frame (known_state tr 0x10b8) ?push sample_machine sample_pushed"
    by (rule cstep.frame_step)
      (simp_all add: zero_extends_def all_operands_def sample_push_def sample_insn_def operand_def sample_rbp_def)
  then have "cpu_step (tiny_walk n) sample_frame (known_state tr 0x10b8) ?push sample_machine None sample_pushed None"
    by (simp add: cpu_step_def flags_step_def sample_push_def sample_insn_def)
  moreover have "cnext (tiny_walk n) (\<lambda>_. True) (\<lambda>_. False) 0x10b8 ?push sample_machine None (fetch_end 0x10b8 ?push)"
    by (rule cnext.fall_through) (simp_all add: sample_push_def sample_insn_def leaves_def stops_def)
  ultimately show ?thesis
    using cpu_next [OF 0 tiny_decoded] by (simp add: fetch_end_def sample_push_def in_fde_def tiny_cfi_def)
qed

end
