(* ===== verification/Abs_State_Test.thy ===== *)
theory Abs_State_Test
  imports Abs_State
begin

text \<open>
  \<^verbatim>\<open>abs-state-test.cc\<close> over the model: each \<open>TEST\<close> is a closed proposition of the same name, its
  statements in order (an assignment or a call that changes an object rebinds its name, an \<open>EXPECT\<close> or
  \<open>ASSERT\<close> is a conjunct), and each group is shown to hold by evaluation. The tests were written
  against the code, so they say that the model computes what the authors saw the code compute. The
  theory also holds the queries of \<open>TableVal\<close> that only tests and traces use.
\<close>

subsection \<open>Names the tests use\<close>

definition kDWARFRax :: nat where "kDWARFRax = 0"
definition kDWARFRdx :: nat where "kDWARFRdx = 1"
definition kDWARFRcx :: nat where "kDWARFRcx = 2"
definition kDWARFRsi :: nat where "kDWARFRsi = 4"

definition TV_is_none :: "TableVal \<Rightarrow> bool" where "TV_is_none t \<longleftrightarrow> ident t = TNone"
definition TV_is_conflict :: "TableVal \<Rightarrow> bool" where "TV_is_conflict t \<longleftrightarrow> ident t = TConflict"
definition TV_IsConst :: "TableVal \<Rightarrow> bool" where
  "TV_IsConst t \<longleftrightarrow> (case ident t of TConst _ \<Rightarrow> True | _ \<Rightarrow> False)"
definition TV_IsTableEntry :: "TableVal \<Rightarrow> bool" where
  "TV_IsTableEntry t \<longleftrightarrow> (case ident t of TTableEntry _ _ _ \<Rightarrow> True | _ \<Rightarrow> False)"
definition TV_IsJumpTarget :: "TableVal \<Rightarrow> bool" where
  "TV_IsJumpTarget t \<longleftrightarrow> (case ident t of TJumpTarget _ _ \<Rightarrow> True | _ \<Rightarrow> False)"

text \<open>The fields \<open>addr\<close>, \<open>index_reg\<close> and \<open>base_const\<close>, zero where a kind does not use them.\<close>

definition TV_TableAddr :: "TableVal \<Rightarrow> u64" where
  "TV_TableAddr t = (case ident t of TConst a \<Rightarrow> a | TTableEntry a _ _ \<Rightarrow> a | TJumpTarget a _ \<Rightarrow> a | _ \<Rightarrow> 0)"
definition TV_IndexReg :: "TableVal \<Rightarrow> nat" where
  "TV_IndexReg t = (case ident t of TTableEntry _ r _ \<Rightarrow> r | TJumpTarget _ r \<Rightarrow> r | _ \<Rightarrow> 0)"
definition TV_TableBaseConst :: "TableVal \<Rightarrow> u64" where
  "TV_TableBaseConst t = (case ident t of TTableEntry _ _ b \<Rightarrow> b | _ \<Rightarrow> 0)"

definition TableVal_str :: "TableVal \<Rightarrow> string" where
  "TableVal_str t = (case ident t of
       TNone \<Rightarrow> ''nothing table-related''
     | TConflict \<Rightarrow> ''conflicting table values''
     | TConst a \<Rightarrow> ''const 0x'' @ fmt_x a
     | TTableEntry a r _ \<Rightarrow> ''table['' @ DWARFRegName (int r) @ ''] entry (table@0x'' @ fmt_x a @ '')''
     | TJumpTarget a r \<Rightarrow> ''jump target table@0x'' @ fmt_x a @ ''['' @ DWARFRegName (int r) @ '']'')"

text \<open>A row as its constructor leaves it, and gmock's \<open>HasSubstr\<close>.\<close>

definition CFIRow0 :: CFIRow where
  "CFIRow0 = \<lparr>pc_start = 0, row_cfa = \<lparr>cfa_kind = CFAUndefined, cfa_reg = 0, cfa_offset = 0\<rparr>,
     row_regs = replicate kNumDWARFRegs \<lparr>rule_kind = RUnset, rule_reg = 0, rule_offset = 0\<rparr>\<rparr>"

fun has_substr :: "string \<Rightarrow> string \<Rightarrow> bool" where
  "has_substr t [] = (t = [])"
| "has_substr t (c # s) = (take (length t) (c # s) = t \<or> has_substr t s)"

subsection \<open>Values\<close>

definition TopIsTheDefaultAndIsNeitherBottomNorConcrete :: bool where
  "TopIsTheDefaultAndIsNeitherBottomNorConcrete \<longleftrightarrow>
     (let v = Top
      in is_top v \<and> is_unknown v \<and> \<not> is_bottom v \<and> \<not> IsCFARel v 0 \<and>
         \<not> IsOrigReg v 0 \<and> v = Top)"

definition BottomIsUnknownButDistinctFromTop :: bool where
  "BottomIsUnknownButDistinctFromTop \<longleftrightarrow>
     (let v = Bottom in is_bottom v \<and> is_unknown v \<and> \<not> is_top v \<and> v \<noteq> Top)"

definition CFARelAndOrigRegAreConcreteNotUnknown :: bool where
  "CFARelAndOrigRegAreConcreteNotUnknown \<longleftrightarrow>
     (let cfa = CFARel (- 16)
      in IsCFARel cfa (- 16) \<and> \<not> IsCFARel cfa (- 8) \<and> \<not> is_unknown cfa \<and>
         (let orig = OrigReg kDWARFRbx
          in IsOrigReg orig kDWARFRbx \<and> \<not> IsOrigReg orig kDWARFRax \<and> \<not> is_unknown orig))"

definition EqualityDistinguishesEveryKind :: bool where
  "EqualityDistinguishesEveryKind \<longleftrightarrow>
     (Top \<noteq> Bottom \<and> Top \<noteq> CFARel 0 \<and> Bottom \<noteq> CFARel 0 \<and>
      CFARel 8 \<noteq> CFARel (- 8) \<and> OrigReg kDWARFRax \<noteq> OrigReg kDWARFRbx \<and>
      CFARel 0 \<noteq> OrigReg kDWARFRax \<and> Bottom = Bottom)"

definition StringifyNamesTopAndBottomDistinctly :: bool where
  "StringifyNamesTopAndBottomDistinctly \<longleftrightarrow>
     (AbsVal_str Top = ''unknown'' \<and> AbsVal_str Bottom = ''conflict'' \<and> AbsVal_str (CFARel 8) = ''CFA+8'' \<and>
      AbsVal_str (CFARel (- 16)) = ''CFA-16'' \<and> AbsVal_str (OrigReg kDWARFRbx) = ''entry rbx'' \<and>
      AbsVal_str Other = ''an unrelated value'')"

lemma abs_state_values_tests:
  "TopIsTheDefaultAndIsNeitherBottomNorConcrete"
  "BottomIsUnknownButDistinctFromTop"
  "CFARelAndOrigRegAreConcreteNotUnknown"
  "EqualityDistinguishesEveryKind"
  "StringifyNamesTopAndBottomDistinctly"
  by code_simp+

subsection \<open>The entry state\<close>

definition EntryStateIsTheCanonicalCallFrame :: bool where
  "EntryStateIsTheCanonicalCallFrame \<longleftrightarrow>
     (let s = Entry
      in IsCFARel (reg s (int kDWARFRsp)) (- 8) \<and> IsOrigReg (reg s (int kDWARFRbx)) kDWARFRbx \<and>
         IsOrigReg (Slot s (- 8)) kDWARFRip \<and> is_unknown (Slot s (- 16)))"

definition EntryStateGivesEveryOtherGprItsOwnOriginalValue :: bool where
  "EntryStateGivesEveryOtherGprItsOwnOriginalValue \<longleftrightarrow>
     (let s = Entry in list_all (\<lambda>r. r = kDWARFRsp \<or> IsOrigReg (reg s (int r)) r) [0..<kNumGPRs])"

lemma abs_state_entry_tests:
  "EntryStateIsTheCanonicalCallFrame"
  "EntryStateGivesEveryOtherGprItsOwnOriginalValue"
  by code_simp+

subsection \<open>Slots\<close>

definition SlotDefaultsToTopWhenNeverSet :: bool where
  "SlotDefaultsToTopWhenNeverSet \<longleftrightarrow>
     (let s = AbsState0 in is_top (Slot s (- 8)))"

definition SetSlotStoresAConcreteValueAndReadsItBack :: bool where
  "SetSlotStoresAConcreteValueAndReadsItBack \<longleftrightarrow>
     (let s = AbsState0; s = SetSlot (- 16) (OrigReg kDWARFRbx) s in IsOrigReg (Slot s (- 16)) kDWARFRbx)"

definition SetSlotWithTopErasesRatherThanStoring :: bool where
  "SetSlotWithTopErasesRatherThanStoring \<longleftrightarrow>
     (let s = AbsState0; s = SetSlot (- 16) (OrigReg kDWARFRbx) s; s = SetSlot (- 16) Top s
      in is_top (Slot s (- 16)) \<and> length (filter (\<lambda>kv. fst kv = - 16) (slots s)) = 0)"

definition SetSlotWithBottomIsStoredExplicitly :: bool where
  "SetSlotWithBottomIsStoredExplicitly \<longleftrightarrow>
     (let s = AbsState0; s = SetSlot (- 16) Bottom s
      in is_bottom (Slot s (- 16)) \<and> length (filter (\<lambda>kv. fst kv = - 16) (slots s)) = 1)"

lemma abs_state_slot_tests:
  "SlotDefaultsToTopWhenNeverSet"
  "SetSlotStoresAConcreteValueAndReadsItBack"
  "SetSlotWithTopErasesRatherThanStoring"
  "SetSlotWithBottomIsStoredExplicitly"
  by code_simp+

subsection \<open>Clobbering\<close>

definition ClobberRegDropsToTop :: bool where
  "ClobberRegDropsToTop \<longleftrightarrow>
     (let s = Entry; s = ClobberReg kDWARFRax s in is_top (reg s (int kDWARFRax)))"

lemma abs_state_clobber_tests:
  "ClobberRegDropsToTop"
  by code_simp+

subsection \<open>Dropping slots\<close>

definition DroppingDeadSlotsSparesTheRedZone :: bool where
  "DroppingDeadSlotsSparesTheRedZone \<longleftrightarrow>
     (let s = Entry; s = SetSlot (- 16) (OrigReg kDWARFRbx) s; s = SetSlot (- 400) (OrigReg kDWARFRbp) s;
          s = DropDeadSlots (- 8) s
      in IsOrigReg (Slot s (- 16)) kDWARFRbx \<and> is_top (Slot s (- 400)))"

definition DropSlotsBelowIsExactForCalls :: bool where
  "DropSlotsBelowIsExactForCalls \<longleftrightarrow>
     (let s = Entry; s = SetSlot (- 16) (OrigReg kDWARFRbx) s; s = DropSlotsBelow (- 8) s in is_top (Slot s (- 16)))"

definition DropSlotsBelowKeepsTheBoundarySlot :: bool where
  "DropSlotsBelowKeepsTheBoundarySlot \<longleftrightarrow>
     (let s = AbsState0; s = SetSlot (- 8) (OrigReg kDWARFRbx) s; s = SetSlot (- 16) (OrigReg kDWARFRbp) s;
          s = DropSlotsBelow (- 8) s
      in IsOrigReg (Slot s (- 8)) kDWARFRbx \<and> is_top (Slot s (- 16)))"

definition DropDeadSlotsKeepsTheRedZoneBoundarySlot :: bool where
  "DropDeadSlotsKeepsTheRedZoneBoundarySlot \<longleftrightarrow>
     (let s = AbsState0; s = SetSlot (- 8 - kRedZoneBytes) (OrigReg kDWARFRbx) s;
          s = SetSlot (- 9 - kRedZoneBytes) (OrigReg kDWARFRbp) s; s = DropDeadSlots (- 8) s
      in IsOrigReg (Slot s (- 8 - kRedZoneBytes)) kDWARFRbx \<and> is_top (Slot s (- 9 - kRedZoneBytes)))"

definition SetRegRspAutomaticallyDropsDeadSlots :: bool where
  "SetRegRspAutomaticallyDropsDeadSlots \<longleftrightarrow>
     (let s = Entry; s = SetSlot (- 16) (OrigReg kDWARFRbx) s; s = SetSlot (- 400) (OrigReg kDWARFRbp) s;
          s = SetReg1 kDWARFRsp (CFARel (- 8)) s
      in IsOrigReg (Slot s (- 16)) kDWARFRbx \<and> is_top (Slot s (- 400)))"

lemma abs_state_drop_tests:
  "DroppingDeadSlotsSparesTheRedZone"
  "DropSlotsBelowIsExactForCalls"
  "DropSlotsBelowKeepsTheBoundarySlot"
  "DropDeadSlotsKeepsTheRedZoneBoundarySlot"
  "SetRegRspAutomaticallyDropsDeadSlots"
  by code_simp+

subsection \<open>Joining registers\<close>

definition JoinKeepsAgreementAndDropsDisagreement :: bool where
  "JoinKeepsAgreementAndDropsDisagreement \<longleftrightarrow>
     (let a = Entry; b = Entry; b = SetReg1 kDWARFRbx (CFARel (- 32)) b; conflicts = []; (changed, a, found) = Join b a;
          conflicts = conflicts @ found
      in changed \<and> is_bottom (reg a (int kDWARFRbx)) \<and> IsCFARel (reg a (int kDWARFRsp)) (- 8) \<and>
         length conflicts = 1 \<and> jc_reg (conflicts ! 0) = int kDWARFRbx)"

definition JoinReportsRatherThanSilentlyWidening :: bool where
  "JoinReportsRatherThanSilentlyWidening \<longleftrightarrow>
     (let a = Entry; b = Entry; a = SetReg1 kDWARFRsp (CFARel (- 16)) a; b = SetReg1 kDWARFRsp (CFARel (- 24)) b;
          conflicts = []; (_, a, found) = Join b a; conflicts = conflicts @ found
      in length conflicts = 1 \<and> jc_reg (conflicts ! 0) = int kDWARFRsp \<and>
         has_substr ''CFA-16'' (Describe (conflicts ! 0)) \<and> has_substr ''CFA-24'' (Describe (conflicts ! 0)))"

definition JoinIsIdempotentOnceWidened :: bool where
  "JoinIsIdempotentOnceWidened \<longleftrightarrow>
     (let a = Entry; b = Entry; b = SetReg1 kDWARFRbx (CFARel (- 32)) b; conflicts = []; (changed, a, found) = Join b a;
          conflicts = conflicts @ found
      in changed \<and>
         (let (changed, a, found) = Join b a; conflicts = conflicts @ found
          in \<not> changed))"

definition JoinTopIsTheIdentityElementForRegisters :: bool where
  "JoinTopIsTheIdentityElementForRegisters \<longleftrightarrow>
     (let a = AbsState0; b = AbsState0; b = SetReg1 kDWARFRax (CFARel 8) b; conflicts = []; (changed, a, found) = Join b a;
          conflicts = conflicts @ found
      in changed \<and> IsCFARel (reg a (int kDWARFRax)) 8 \<and> conflicts = [])"

definition JoinLeavesAConcreteRegisterAloneWhenIncomingIsTop :: bool where
  "JoinLeavesAConcreteRegisterAloneWhenIncomingIsTop \<longleftrightarrow>
     (let a = AbsState0; a = SetReg1 kDWARFRax (CFARel 8) a; b = AbsState0; conflicts = []; (changed, a, found) = Join b a;
          conflicts = conflicts @ found
      in \<not> changed \<and> IsCFARel (reg a (int kDWARFRax)) 8 \<and> conflicts = [])"

definition JoinBottomRegisterAbsorbsAnIncomingTop :: bool where
  "JoinBottomRegisterAbsorbsAnIncomingTop \<longleftrightarrow>
     (let a = AbsState0; a = SetReg1 kDWARFRax Bottom a; b = AbsState0; conflicts = []; (changed, a, found) = Join b a;
          conflicts = conflicts @ found
      in \<not> changed \<and> is_bottom (reg a (int kDWARFRax)) \<and> conflicts = [])"

definition JoinBottomRegisterAbsorbsAnIncomingConcreteValue :: bool where
  "JoinBottomRegisterAbsorbsAnIncomingConcreteValue \<longleftrightarrow>
     (let a = AbsState0; a = SetReg1 kDWARFRax Bottom a; b = AbsState0; b = SetReg1 kDWARFRax (CFARel 8) b; conflicts = [];
          (changed, a, found) = Join b a; conflicts = conflicts @ found
      in \<not> changed \<and> is_bottom (reg a (int kDWARFRax)) \<and> conflicts = [])"

definition JoinPropagatesAnIncomingBottomRegisterWithoutReReporting :: bool where
  "JoinPropagatesAnIncomingBottomRegisterWithoutReReporting \<longleftrightarrow>
     (let a = AbsState0; a = SetReg1 kDWARFRax (CFARel 8) a; b = AbsState0; b = SetReg1 kDWARFRax Bottom b; conflicts = [];
          (changed, a, found) = Join b a; conflicts = conflicts @ found
      in changed \<and> is_bottom (reg a (int kDWARFRax)) \<and> conflicts = [])"

definition JoinDoesNotReReportAFreshDisagreementAfterGoingBottom :: bool where
  "JoinDoesNotReReportAFreshDisagreementAfterGoingBottom \<longleftrightarrow>
     (let a = AbsState0; a = SetReg1 kDWARFRax (CFARel 8) a; b = AbsState0; b = SetReg1 kDWARFRax (CFARel 16) b;
          conflicts = []; (changed, a, found) = Join b a; conflicts = conflicts @ found
      in changed \<and> length conflicts = 1 \<and> is_bottom (reg a (int kDWARFRax)) \<and>
         (let c = AbsState0; c = SetReg1 kDWARFRax (CFARel 24) c; (changed, a, found) = Join c a;
              conflicts = conflicts @ found
          in \<not> changed \<and> is_bottom (reg a (int kDWARFRax)) \<and> length conflicts = 1))"

lemma abs_state_join_register_tests:
  "JoinKeepsAgreementAndDropsDisagreement"
  "JoinReportsRatherThanSilentlyWidening"
  "JoinIsIdempotentOnceWidened"
  "JoinTopIsTheIdentityElementForRegisters"
  "JoinLeavesAConcreteRegisterAloneWhenIncomingIsTop"
  "JoinBottomRegisterAbsorbsAnIncomingTop"
  "JoinBottomRegisterAbsorbsAnIncomingConcreteValue"
  "JoinPropagatesAnIncomingBottomRegisterWithoutReReporting"
  "JoinDoesNotReReportAFreshDisagreementAfterGoingBottom"
  by code_simp+

subsection \<open>Joining slots\<close>

definition JoinSlotsAgreeAndSurvive :: bool where
  "JoinSlotsAgreeAndSurvive \<longleftrightarrow>
     (let a = AbsState0; b = AbsState0; a = SetSlot (- 16) (OrigReg kDWARFRbx) a; b = SetSlot (- 16) (OrigReg kDWARFRbx) b;
          conflicts = []; (changed, a, found) = Join b a; conflicts = conflicts @ found
      in \<not> changed \<and> IsOrigReg (Slot a (- 16)) kDWARFRbx \<and> conflicts = [])"

definition JoinKeepsASlotOnlyStateNames :: bool where
  "JoinKeepsASlotOnlyStateNames \<longleftrightarrow>
     (let a = AbsState0; b = AbsState0; a = SetSlot (- 24) (OrigReg kDWARFRbp) a; conflicts = [];
          (changed, a, found) = Join b a; conflicts = conflicts @ found
      in \<not> changed \<and> IsOrigReg (Slot a (- 24)) kDWARFRbp)"

definition JoinImportsASlotOnlyIncomingNames :: bool where
  "JoinImportsASlotOnlyIncomingNames \<longleftrightarrow>
     (let a = AbsState0; b = AbsState0; b = SetSlot (- 24) (OrigReg kDWARFRbp) b; conflicts = [];
          (changed, a, found) = Join b a; conflicts = conflicts @ found
      in changed \<and> IsOrigReg (Slot a (- 24)) kDWARFRbp)"

definition JoinSlotsDisagreeAndDropToBottom :: bool where
  "JoinSlotsDisagreeAndDropToBottom \<longleftrightarrow>
     (let a = AbsState0; b = AbsState0; a = SetSlot (- 16) (OrigReg kDWARFRbx) a; b = SetSlot (- 16) (OrigReg kDWARFRbp) b;
          conflicts = []; (changed, a, found) = Join b a; conflicts = conflicts @ found
      in changed \<and> is_bottom (Slot a (- 16)) \<and> length conflicts = 1 \<and>
         jc_reg (conflicts ! 0) = kSlotConflict \<and> jc_offset (conflicts ! 0) = (- 16) \<and>
         has_substr ''stack slot'' (Describe (conflicts ! 0)) \<and> has_substr ''CFA-16'' (Describe (conflicts ! 0)))"

definition JoinBottomSlotAbsorbsAnIncomingConcreteValue :: bool where
  "JoinBottomSlotAbsorbsAnIncomingConcreteValue \<longleftrightarrow>
     (let a = AbsState0; a = SetSlot (- 16) Bottom a; b = AbsState0; b = SetSlot (- 16) (OrigReg kDWARFRbx) b;
          conflicts = []; (changed, a, found) = Join b a; conflicts = conflicts @ found
      in \<not> changed \<and> is_bottom (Slot a (- 16)) \<and> conflicts = [])"

definition JoinBottomSlotSurvivesEvenWhenIncomingLacksIt :: bool where
  "JoinBottomSlotSurvivesEvenWhenIncomingLacksIt \<longleftrightarrow>
     (let a = AbsState0; a = SetSlot (- 16) Bottom a; b = AbsState0; conflicts = []; (changed, a, found) = Join b a;
          conflicts = conflicts @ found
      in \<not> changed \<and> is_bottom (Slot a (- 16)))"

definition JoinPropagatesAnIncomingBottomSlotWithoutReReporting :: bool where
  "JoinPropagatesAnIncomingBottomSlotWithoutReReporting \<longleftrightarrow>
     (let a = AbsState0; a = SetSlot (- 16) (OrigReg kDWARFRbx) a; b = AbsState0; b = SetSlot (- 16) Bottom b;
          conflicts = []; (changed, a, found) = Join b a; conflicts = conflicts @ found
      in changed \<and> is_bottom (Slot a (- 16)) \<and> conflicts = [])"

definition JoinImportsABottomSlotOnlyIncomingNames :: bool where
  "JoinImportsABottomSlotOnlyIncomingNames \<longleftrightarrow>
     (let a = AbsState0; b = AbsState0; b = SetSlot (- 16) Bottom b; conflicts = []; (changed, a, found) = Join b a;
          conflicts = conflicts @ found
      in changed \<and> is_bottom (Slot a (- 16)) \<and> conflicts = [])"

lemma abs_state_join_slot_tests:
  "JoinSlotsAgreeAndSurvive"
  "JoinKeepsASlotOnlyStateNames"
  "JoinImportsASlotOnlyIncomingNames"
  "JoinSlotsDisagreeAndDropToBottom"
  "JoinBottomSlotAbsorbsAnIncomingConcreteValue"
  "JoinBottomSlotSurvivesEvenWhenIncomingLacksIt"
  "JoinPropagatesAnIncomingBottomSlotWithoutReReporting"
  "JoinImportsABottomSlotOnlyIncomingNames"
  by code_simp+

subsection \<open>The order of joins\<close>

definition JoinOrderDoesNotMatterForRegisters :: bool where
  "JoinOrderDoesNotMatterForRegisters \<longleftrightarrow>
     (let a = AbsState0; a = SetReg1 kDWARFRax (CFARel 8) a; a = SetReg1 kDWARFRbx Bottom a;
          a = SetReg1 kDWARFRcx (OrigReg kDWARFRcx) a; a = SetReg1 kDWARFRdx (CFARel (- 16)) a; b = AbsState0;
          b = SetReg1 kDWARFRbx (CFARel 0) b; b = SetReg1 kDWARFRcx (OrigReg kDWARFRcx) b;
          b = SetReg1 kDWARFRdx (CFARel (- 24)) b; b = SetReg1 kDWARFRsi (CFARel 32) b; merged_a_into_b = b;
          conflicts_a_into_b = []; (_, merged_a_into_b, found) = Join a merged_a_into_b;
          conflicts_a_into_b = conflicts_a_into_b @ found; merged_b_into_a = a; conflicts_b_into_a = [];
          (_, merged_b_into_a, found) = Join b merged_b_into_a; conflicts_b_into_a = conflicts_b_into_a @ found
      in merged_a_into_b = merged_b_into_a \<and> length conflicts_a_into_b = length conflicts_b_into_a)"

definition JoinOrderDoesNotMatterForSlots :: bool where
  "JoinOrderDoesNotMatterForSlots \<longleftrightarrow>
     (let a = AbsState0; a = SetSlot (- 8) (OrigReg kDWARFRbx) a; a = SetSlot (- 16) Bottom a;
          a = SetSlot (- 24) (OrigReg kDWARFRbp) a; a = SetSlot (- 32) (CFARel (- 40)) a; b = AbsState0;
          b = SetSlot (- 16) (OrigReg kDWARFRbx) b; b = SetSlot (- 24) (OrigReg kDWARFRbp) b;
          b = SetSlot (- 32) (CFARel (- 48)) b; b = SetSlot (- 40) (OrigReg 12) b; merged_a_into_b = b;
          conflicts_a_into_b = []; (_, merged_a_into_b, found) = Join a merged_a_into_b;
          conflicts_a_into_b = conflicts_a_into_b @ found; merged_b_into_a = a; conflicts_b_into_a = [];
          (_, merged_b_into_a, found) = Join b merged_b_into_a; conflicts_b_into_a = conflicts_b_into_a @ found
      in merged_a_into_b = merged_b_into_a \<and> length conflicts_a_into_b = length conflicts_b_into_a)"

lemma abs_state_join_order_tests:
  "JoinOrderDoesNotMatterForRegisters"
  "JoinOrderDoesNotMatterForSlots"
  by code_simp+

subsection \<open>Seeding\<close>

definition SeedFromRowReproducesEntryForACanonicalRow :: bool where
  "SeedFromRowReproducesEntryForACanonicalRow \<longleftrightarrow>
     (let row = CFIRow0;
          row = row\<lparr>row_cfa := \<lparr>cfa_kind = CFARegOffset, cfa_reg = kDWARFRsp, cfa_offset = 8\<rparr>\<rparr>;
          row = row\<lparr>row_regs := (row_regs row)[kDWARFRip := \<lparr>rule_kind = RAtCFAOffset, rule_reg = 0, rule_offset = - 8\<rparr>]\<rparr>
      in SeedFromRow row True = Entry)"

definition SeedFromRowHandlesAFragmentStartingMidFrame :: bool where
  "SeedFromRowHandlesAFragmentStartingMidFrame \<longleftrightarrow>
     (let row = CFIRow0;
          row = row\<lparr>row_cfa := \<lparr>cfa_kind = CFARegOffset, cfa_reg = kDWARFRsp, cfa_offset = 32\<rparr>\<rparr>;
          row = row\<lparr>row_regs := (row_regs row)[kDWARFRip := \<lparr>rule_kind = RAtCFAOffset, rule_reg = 0, rule_offset = - 8\<rparr>]\<rparr>;
          row = row\<lparr>row_regs := (row_regs row)[kDWARFRbx := \<lparr>rule_kind = RAtCFAOffset, rule_reg = 0, rule_offset = - 24\<rparr>]\<rparr>;
          s = SeedFromRow row False
      in IsCFARel (reg s (int kDWARFRsp)) (- 32) \<and> IsOrigReg (Slot s (- 24)) kDWARFRbx \<and>
         IsOrigReg (Slot s (- 8)) kDWARFRip \<and> is_top (reg s (int kDWARFRax)))"

definition SeedFromRowAtEntryTrustsUnmentionedRegistersAsOriginal :: bool where
  "SeedFromRowAtEntryTrustsUnmentionedRegistersAsOriginal \<longleftrightarrow>
     (let row = CFIRow0;
          row = row\<lparr>row_cfa := \<lparr>cfa_kind = CFARegOffset, cfa_reg = kDWARFRsp, cfa_offset = 8\<rparr>\<rparr>;
          row = row\<lparr>row_regs := (row_regs row)[kDWARFRip := \<lparr>rule_kind = RAtCFAOffset, rule_reg = 0, rule_offset = - 8\<rparr>]\<rparr>;
          s = SeedFromRow row True
      in IsOrigReg (reg s (int kDWARFRax)) kDWARFRax \<and> IsOrigReg (reg s (int kDWARFRbx)) kDWARFRbx)"

definition SeedFromRowAwayFromEntryTrustsAnExplicitSameValueRule :: bool where
  "SeedFromRowAwayFromEntryTrustsAnExplicitSameValueRule \<longleftrightarrow>
     (let row = CFIRow0;
          row = row\<lparr>row_cfa := \<lparr>cfa_kind = CFARegOffset, cfa_reg = kDWARFRsp, cfa_offset = 32\<rparr>\<rparr>;
          row = row\<lparr>row_regs := (row_regs row)[kDWARFRbx := \<lparr>rule_kind = RSameValue, rule_reg = 0, rule_offset = 0\<rparr>]\<rparr>;
          s = SeedFromRow row False
      in IsOrigReg (reg s (int kDWARFRbx)) kDWARFRbx \<and> is_top (reg s (int kDWARFRax)))"

definition SeedFromRowHandlesAValOffsetRule :: bool where
  "SeedFromRowHandlesAValOffsetRule \<longleftrightarrow>
     (let row = CFIRow0;
          row = row\<lparr>row_cfa := \<lparr>cfa_kind = CFARegOffset, cfa_reg = kDWARFRsp, cfa_offset = 16\<rparr>\<rparr>;
          row = row\<lparr>row_regs := (row_regs row)[kDWARFRax := \<lparr>rule_kind = RValOffset, rule_reg = 0, rule_offset = - 16\<rparr>]\<rparr>;
          s = SeedFromRow row False
      in IsCFARel (reg s (int kDWARFRax)) (- 16))"

definition SeedFromRowHandlesAnInRegisterRule :: bool where
  "SeedFromRowHandlesAnInRegisterRule \<longleftrightarrow>
     (let row = CFIRow0;
          row = row\<lparr>row_cfa := \<lparr>cfa_kind = CFARegOffset, cfa_reg = kDWARFRsp, cfa_offset = 16\<rparr>\<rparr>;
          row = row\<lparr>row_regs := (row_regs row)[kDWARFRbp := \<lparr>rule_kind = RInRegister, rule_reg = kDWARFRax, rule_offset = 0\<rparr>]\<rparr>;
          s = SeedFromRow row False
      in IsOrigReg (reg s (int kDWARFRax)) kDWARFRbp)"

definition UndefinedAndExpressionRulesAreTop :: "bool \<Rightarrow> bool" where
  "UndefinedAndExpressionRulesAreTop at_entry \<longleftrightarrow>
     (let row = CFIRow0;
          row = row\<lparr>row_cfa := \<lparr>cfa_kind = CFARegOffset, cfa_reg = kDWARFRsp, cfa_offset = 16\<rparr>\<rparr>;
          row = row\<lparr>row_regs := (row_regs row)[kDWARFRax := \<lparr>rule_kind = RUndefined, rule_reg = 0, rule_offset = 0\<rparr>]\<rparr>;
          row = row\<lparr>row_regs := (row_regs row)[kDWARFRbx := \<lparr>rule_kind = RExpression, rule_reg = 0, rule_offset = 0\<rparr>]\<rparr>;
          row = row\<lparr>row_regs := (row_regs row)[kDWARFRcx := \<lparr>rule_kind = RValExpression, rule_reg = 0, rule_offset = 0\<rparr>]\<rparr>;
          s = SeedFromRow row at_entry
      in is_top (reg s (int kDWARFRax)) \<and> is_top (reg s (int kDWARFRbx)) \<and> is_top (reg s (int kDWARFRcx)))"

definition SeedFromRowTreatsUndefinedAndExpressionRulesAsTopRegardlessOfEntry :: bool where
  "SeedFromRowTreatsUndefinedAndExpressionRulesAsTopRegardlessOfEntry \<longleftrightarrow>
     UndefinedAndExpressionRulesAreTop True \<and> UndefinedAndExpressionRulesAreTop False"

definition SeedFromRowLetsTheCFARuleOverrideAnUnmentionedRegister :: bool where
  "SeedFromRowLetsTheCFARuleOverrideAnUnmentionedRegister \<longleftrightarrow>
     (let row = CFIRow0;
          row = row\<lparr>row_cfa := \<lparr>cfa_kind = CFARegOffset, cfa_reg = kDWARFRbp, cfa_offset = 16\<rparr>\<rparr>;
          s = SeedFromRow row False
      in IsCFARel (reg s (int kDWARFRbp)) (- 16))"

definition SeedFromRowLeavesRspTopWhenTheCFAIsNotRspBased :: bool where
  "SeedFromRowLeavesRspTopWhenTheCFAIsNotRspBased \<longleftrightarrow>
     (let row = CFIRow0;
          row = row\<lparr>row_cfa := \<lparr>cfa_kind = CFARegOffset, cfa_reg = kDWARFRbp, cfa_offset = 16\<rparr>\<rparr>;
          s = SeedFromRow row False
      in is_top (reg s (int kDWARFRsp)))"

lemma abs_state_seed_tests:
  "SeedFromRowReproducesEntryForACanonicalRow"
  "SeedFromRowHandlesAFragmentStartingMidFrame"
  "SeedFromRowAtEntryTrustsUnmentionedRegistersAsOriginal"
  "SeedFromRowAwayFromEntryTrustsAnExplicitSameValueRule"
  "SeedFromRowHandlesAValOffsetRule"
  "SeedFromRowHandlesAnInRegisterRule"
  "SeedFromRowTreatsUndefinedAndExpressionRulesAsTopRegardlessOfEntry"
  "SeedFromRowLetsTheCFARuleOverrideAnUnmentionedRegister"
  "SeedFromRowLeavesRspTopWhenTheCFAIsNotRspBased"
  by code_simp+

subsection \<open>The table lattice\<close>

definition JoinOfDifferingTableValuesGivesUpWithoutAConflict :: bool where
  "JoinOfDifferingTableValuesGivesUpWithoutAConflict \<longleftrightarrow>
     (let a = AbsState0; a = SetTableReg kDWARFRax (TV_Const 0x1000) a; b = AbsState0;
          b = SetTableReg kDWARFRax (TV_Const 0x2000) b; conflicts = []; (changed, a, found) = Join b a;
          conflicts = conflicts @ found
      in changed \<and> reg a (int kDWARFRax) = Other \<and> TV_is_conflict (table a (int kDWARFRax)) \<and>
         conflicts = [])"

definition JoinOfATableEntryAndAJumpTargetAlsoGivesUpWithoutAConflict :: bool where
  "JoinOfATableEntryAndAJumpTargetAlsoGivesUpWithoutAConflict \<longleftrightarrow>
     (let a = AbsState0; a = SetTableReg kDWARFRax (TV_TableEntry 0x1000 kDWARFRcx 0x1000 kBoundTop) a; b = AbsState0;
          b = SetTableReg kDWARFRax (TV_JumpTarget 0x2000 kDWARFRcx kBoundTop) b; conflicts = [];
          (changed, a, found) = Join b a; conflicts = conflicts @ found
      in changed \<and> TV_is_conflict (table a (int kDWARFRax)) \<and> conflicts = [])"

definition ATableValueSurvivesAPathThatKnowsNothingAboutIt :: bool where
  "ATableValueSurvivesAPathThatKnowsNothingAboutIt \<longleftrightarrow>
     (let a = AbsState0; a = SetTableReg kDWARFRax (TV_JumpTarget 0x1000 kDWARFRcx 9) a; b = AbsState0;
          b = SetReg1 kDWARFRax Other b; conflicts = []; (_, a, found) = Join b a; conflicts = conflicts @ found
      in TV_IsJumpTarget (table a (int kDWARFRax)) \<and> table_bound (table a (int kDWARFRax)) = kBoundTop \<and>
         conflicts = [])"

definition ATableValueGivenUpOnIsNotResurrectedByAThirdPredecessor :: bool where
  "ATableValueGivenUpOnIsNotResurrectedByAThirdPredecessor \<longleftrightarrow>
     (let a = AbsState0; a = SetTableReg kDWARFRax (TV_Const 0x1000) a; b = AbsState0;
          b = SetTableReg kDWARFRax (TV_Const 0x2000) b; conflicts = []; (changed, a, found) = Join b a;
          conflicts = conflicts @ found
      in changed \<and> TV_is_conflict (table a (int kDWARFRax)) \<and>
         (let c = AbsState0; c = SetTableReg kDWARFRax (TV_Const 0x3000) c; (changed, a, found) = Join c a;
              conflicts = conflicts @ found
          in \<not> changed \<and> TV_is_conflict (table a (int kDWARFRax)) \<and> conflicts = []))"

definition JoinOfATableValueAndAnUnrelatedConcreteValueStillConflicts :: bool where
  "JoinOfATableValueAndAnUnrelatedConcreteValueStillConflicts \<longleftrightarrow>
     (let a = AbsState0; a = SetTableReg kDWARFRax (TV_Const 0x1000) a; b = AbsState0;
          b = SetReg1 kDWARFRax (CFARel (- 8)) b; conflicts = []; (changed, a, found) = Join b a;
          conflicts = conflicts @ found
      in changed \<and> is_bottom (reg a (int kDWARFRax)) \<and> length conflicts = 1 \<and>
         jc_reg (conflicts ! 0) = int kDWARFRax)"

definition JoinOfTwoJumpTargetsWithTheSameIdentityMergesJustTheBound :: bool where
  "JoinOfTwoJumpTargetsWithTheSameIdentityMergesJustTheBound \<longleftrightarrow>
     (let a = AbsState0; a = SetTableReg kDWARFRax (TV_JumpTarget 0x1000 kDWARFRcx 9) a; b = AbsState0;
          b = SetTableReg kDWARFRax (TV_JumpTarget 0x1000 kDWARFRcx kBoundTop) b; conflicts = [];
          (changed, a, found) = Join b a; conflicts = conflicts @ found
      in changed \<and> TV_IsJumpTarget (table a (int kDWARFRax)) \<and>
         TV_TableAddr (table a (int kDWARFRax)) = 0x1000 \<and> \<not> HasTableBound (table a (int kDWARFRax)) \<and>
         conflicts = [])"

definition ATableHalfChangeAloneStillReportsTheJoinAsChanged :: bool where
  "ATableHalfChangeAloneStillReportsTheJoinAsChanged \<longleftrightarrow>
     (let a = AbsState0; a = ApplyGuardBound (int kDWARFRax) 4 a; b = AbsState0; conflicts = [];
          (changed, a, found) = Join b a; conflicts = conflicts @ found
      in changed \<and> value_bound (table a (int kDWARFRax)) = kBoundTop)"

definition WritingARegisterClearsItsTableHalf :: bool where
  "WritingARegisterClearsItsTableHalf \<longleftrightarrow>
     (let a = AbsState0; a = SetTableReg kDWARFRax (TV_Const 0x1000) a; a = ApplyGuardBound (int kDWARFRax) 4 a;
          a = SetReg1 kDWARFRax (CFARel (- 8)) a
      in ident (table a (int kDWARFRax)) = TNone \<and> value_bound (table a (int kDWARFRax)) = kBoundTop)"

definition CopyRegCarriesBothHalves :: bool where
  "CopyRegCarriesBothHalves \<longleftrightarrow>
     (let a = AbsState0; a = SetTableReg kDWARFRax (TV_Const 0x1000) a; a = ApplyGuardBound (int kDWARFRax) 4 a;
          a = CopyReg kDWARFRcx kDWARFRax a
      in reg a (int kDWARFRcx) = Other \<and> TV_IsConst (table a (int kDWARFRcx)) \<and>
         table_bound (table a (int kDWARFRcx)) = 4)"

lemma abs_state_join_table_tests:
  "JoinOfDifferingTableValuesGivesUpWithoutAConflict"
  "JoinOfATableEntryAndAJumpTargetAlsoGivesUpWithoutAConflict"
  "ATableValueSurvivesAPathThatKnowsNothingAboutIt"
  "ATableValueGivenUpOnIsNotResurrectedByAThirdPredecessor"
  "JoinOfATableValueAndAnUnrelatedConcreteValueStillConflicts"
  "JoinOfTwoJumpTargetsWithTheSameIdentityMergesJustTheBound"
  "ATableHalfChangeAloneStillReportsTheJoinAsChanged"
  "WritingARegisterClearsItsTableHalf"
  "CopyRegCarriesBothHalves"
  by code_simp+

subsection \<open>Bounds\<close>

definition JoinKeepsABoundBothSidesAgreeOn :: bool where
  "JoinKeepsABoundBothSidesAgreeOn \<longleftrightarrow>
     (let a = AbsState0; a = ApplyGuardBound (int kDWARFRax) 4 a; b = AbsState0; b = ApplyGuardBound (int kDWARFRax) 4 b;
          conflicts = []; (changed, a, found) = Join b a; conflicts = conflicts @ found
      in \<not> changed \<and> table_bound (table a (int kDWARFRax)) = 4 \<and>
         value_bound (table a (int kDWARFRax)) = 4)"

definition JoinTakesTheWeakerOfTwoDisagreeingBoundsWithoutReportingAConflict :: bool where
  "JoinTakesTheWeakerOfTwoDisagreeingBoundsWithoutReportingAConflict \<longleftrightarrow>
     (let a = AbsState0; a = ApplyGuardBound (int kDWARFRax) 4 a; b = AbsState0; b = ApplyGuardBound (int kDWARFRax) 7 b;
          conflicts = []; (changed, a, found) = Join b a; conflicts = conflicts @ found
      in changed \<and> table_bound (table a (int kDWARFRax)) = 7 \<and> conflicts = [])"

definition JoinDropsABoundOnlyOneSideRecorded :: bool where
  "JoinDropsABoundOnlyOneSideRecorded \<longleftrightarrow>
     (let a = AbsState0; a = ApplyGuardBound (int kDWARFRax) 4 a; b = AbsState0; conflicts = [];
          (changed, a, found) = Join b a; conflicts = conflicts @ found
      in changed \<and> \<not> HasTableBound (table a (int kDWARFRax)) \<and>
         value_bound (table a (int kDWARFRax)) = kBoundTop)"

definition JoinReportsNoChangeWhenTwoBoundedTopsAlreadyAgreeOnTop :: bool where
  "JoinReportsNoChangeWhenTwoBoundedTopsAlreadyAgreeOnTop \<longleftrightarrow>
     (let a = AbsState0; b = AbsState0; b = ApplyValueBound (int kDWARFRax) 4 b; conflicts = [];
          (changed, a, found) = Join b a; conflicts = conflicts @ found
      in \<not> changed \<and> value_bound (table a (int kDWARFRax)) = kBoundTop)"

definition TwoDifferentSpilledTableValuesDoNotConflictInASlot :: bool where
  "TwoDifferentSpilledTableValuesDoNotConflictInASlot \<longleftrightarrow>
     (let a = AbsState0; a = SetTableReg kDWARFRax (TV_Const 0x1000) a; a = SetSlot (- 24) (reg a (int kDWARFRax)) a;
          a = ClobberReg kDWARFRax a; b = AbsState0; b = SetTableReg kDWARFRax (TV_Const 0x2000) b;
          b = SetSlot (- 24) (reg b (int kDWARFRax)) b; b = ClobberReg kDWARFRax b; conflicts = [];
          (changed, a, found) = Join b a; conflicts = conflicts @ found
      in \<not> changed \<and> Slot a (- 24) = Other \<and> conflicts = [])"

definition ClobberRegClearsAPreviouslySetBound :: bool where
  "ClobberRegClearsAPreviouslySetBound \<longleftrightarrow>
     (let a = AbsState0; a = ApplyGuardBound (int kDWARFRax) 4 a; a = ClobberReg kDWARFRax a
      in \<not> HasTableBound (table a (int kDWARFRax)) \<and> value_bound (table a (int kDWARFRax)) = kBoundTop)"

definition WritingTheComparedRegisterInvalidatesLastCmp :: bool where
  "WritingTheComparedRegisterInvalidatesLastCmp \<longleftrightarrow>
     (let a = AbsState0;
          a = a\<lparr>last_cmp := Some \<lparr>fg_reg = kDWARFRax, width_bits = 32, imm = 5, proven_bound = kBoundTop\<rparr>\<rparr>;
          a = SetReg1 kDWARFRax (CFARel (- 8)) a
      in last_cmp a = None \<and>
         (let b = AbsState0;
              b = b\<lparr>last_cmp := Some \<lparr>fg_reg = kDWARFRax, width_bits = 32, imm = 5, proven_bound = kBoundTop\<rparr>\<rparr>;
              b = ClobberReg kDWARFRax b
          in last_cmp b = None))"

definition WritingAnUnrelatedRegisterLeavesLastCmpAlone :: bool where
  "WritingAnUnrelatedRegisterLeavesLastCmpAlone \<longleftrightarrow>
     (let a = AbsState0;
          a = a\<lparr>last_cmp := Some \<lparr>fg_reg = kDWARFRax, width_bits = 32, imm = 5, proven_bound = kBoundTop\<rparr>\<rparr>;
          a = SetReg1 kDWARFRcx (CFARel (- 8)) a
      in last_cmp a \<noteq> None \<and> imm (the (last_cmp a)) = 5)"

definition ApplyingABoundDoesNotInvalidateLastCmp :: bool where
  "ApplyingABoundDoesNotInvalidateLastCmp \<longleftrightarrow>
     (let a = AbsState0;
          a = a\<lparr>last_cmp := Some \<lparr>fg_reg = kDWARFRax, width_bits = 32, imm = 5, proven_bound = kBoundTop\<rparr>\<rparr>;
          a = ApplyGuardBound (int kDWARFRax) 5 a
      in last_cmp a \<noteq> None)"

lemma abs_state_join_bound_tests:
  "JoinKeepsABoundBothSidesAgreeOn"
  "JoinTakesTheWeakerOfTwoDisagreeingBoundsWithoutReportingAConflict"
  "JoinDropsABoundOnlyOneSideRecorded"
  "JoinReportsNoChangeWhenTwoBoundedTopsAlreadyAgreeOnTop"
  "TwoDifferentSpilledTableValuesDoNotConflictInASlot"
  "ClobberRegClearsAPreviouslySetBound"
  "WritingTheComparedRegisterInvalidatesLastCmp"
  "WritingAnUnrelatedRegisterLeavesLastCmpAlone"
  "ApplyingABoundDoesNotInvalidateLastCmp"
  by code_simp+

subsection \<open>The comparison\<close>

definition JoinKeepsLastCmpOnlyWhenBothSidesAgree :: bool where
  "JoinKeepsLastCmpOnlyWhenBothSidesAgree \<longleftrightarrow>
     (let a = AbsState0;
          a = a\<lparr>last_cmp := Some \<lparr>fg_reg = kDWARFRax, width_bits = 32, imm = 9, proven_bound = kBoundTop\<rparr>\<rparr>;
          b = AbsState0;
          b = b\<lparr>last_cmp := Some \<lparr>fg_reg = kDWARFRax, width_bits = 32, imm = 9, proven_bound = kBoundTop\<rparr>\<rparr>;
          conflicts = []; (changed, a, found) = Join b a; conflicts = conflicts @ found
      in \<not> changed \<and> last_cmp a \<noteq> None \<and> width_bits (the (last_cmp a)) = 32 \<and>
         imm (the (last_cmp a)) = 9)"

definition JoinDropsADisagreeingLastCmp :: bool where
  "JoinDropsADisagreeingLastCmp \<longleftrightarrow>
     (let a = AbsState0;
          a = a\<lparr>last_cmp := Some \<lparr>fg_reg = kDWARFRax, width_bits = 32, imm = 9, proven_bound = kBoundTop\<rparr>\<rparr>;
          b = AbsState0; conflicts = []; (changed, a, found) = Join b a; conflicts = conflicts @ found
      in changed \<and> last_cmp a = None)"

definition JoinNeverResurrectsAnAlreadyClearedLastCmp :: bool where
  "JoinNeverResurrectsAnAlreadyClearedLastCmp \<longleftrightarrow>
     (let a = AbsState0;
          a = a\<lparr>last_cmp := Some \<lparr>fg_reg = kDWARFRax, width_bits = 32, imm = 9, proven_bound = kBoundTop\<rparr>\<rparr>;
          b = AbsState0; conflicts = []; (changed, a, found) = Join b a; conflicts = conflicts @ found
      in changed \<and> last_cmp a = None \<and>
         (let c = AbsState0;
              c = c\<lparr>last_cmp := Some \<lparr>fg_reg = kDWARFRax, width_bits = 32, imm = 9, proven_bound = kBoundTop\<rparr>\<rparr>;
              (changed, a, found) = Join c a; conflicts = conflicts @ found
          in \<not> changed \<and> last_cmp a = None))"

definition SeedFromRowRefusesToGuessWhenTheCFAIsAnExpression :: bool where
  "SeedFromRowRefusesToGuessWhenTheCFAIsAnExpression \<longleftrightarrow>
     (let row = CFIRow0;
          row = row\<lparr>row_cfa := \<lparr>cfa_kind = CFAExpression, cfa_reg = 0, cfa_offset = 0\<rparr>\<rparr>
      in is_top (reg (SeedFromRow row True) (int kDWARFRsp)))"

lemma abs_state_join_cmp_tests:
  "JoinKeepsLastCmpOnlyWhenBothSidesAgree"
  "JoinDropsADisagreeingLastCmp"
  "JoinNeverResurrectsAnAlreadyClearedLastCmp"
  "SeedFromRowRefusesToGuessWhenTheCFAIsAnExpression"
  by code_simp+

end
