(* ===== verification/Insn_Semantics_Test.thy ===== *)
theory Insn_Semantics_Test
  imports Insn_Semantics Abs_State_Test
begin

text \<open>
  \<^verbatim>\<open>insn-semantics-test.cc\<close> over the model, in the form of \<open>Abs_State_Test\<close>: each \<open>TEST_F\<close> is a
  proposition about the decoder it is given. The decoder is the library's, so the tests are evaluated
  with an instance of it, \<open>test_zydis\<close>: a table that gives for each encoding the tests use the operands
  the x86 manual assigns to it, those Zydis reports as hidden included where \<open>Transfer\<close> reads them.
\<close>

subsection \<open>The fixture\<close>

definition kBase :: u64 where "kBase = 0x1000"

text \<open>\<open>Run\<close>: whether the encoding was decoded, to its full length, then the outcome and the state.\<close>

definition test_Run :: "zydis \<Rightarrow> u8 list \<Rightarrow> AbsState \<Rightarrow> bool \<times> TransferOutcome \<times> AbsState" where
  "test_Run Z bytes s =
     (case Decode Z bytes kBase of
        None \<Rightarrow> (False, TransferOutcome0, s)
      | Some i \<Rightarrow> (insn_size i = length bytes, Transfer Z i s))"

definition test_RunEdge :: "zydis \<Rightarrow> u8 list \<Rightarrow> BranchEdge \<Rightarrow> AbsState \<Rightarrow> bool \<times> AbsState" where
  "test_RunEdge Z bytes edge s =
     (case Decode Z bytes kBase of
        None \<Rightarrow> (False, s)
      | Some i \<Rightarrow> (True, TransferEdge i edge (snd (Transfer Z i s))))"

definition kDWARFRdi :: nat where "kDWARFRdi = 5"

definition TV_ConstValue :: "TableVal \<Rightarrow> u64" where
  "TV_ConstValue t = (case ident t of TConst a \<Rightarrow> a | _ \<Rightarrow> 0)"

subsection \<open>A decoder for the encodings of the tests\<close>

text \<open>Narrower registers carry the number of their parent: 100 and up for 32 bits, 200 for 16, 300 for the
  low 8; 400 and 401 stand for \<open>xmm0\<close> and \<open>ymm0\<close>, 500 for the flags.\<close>

definition sub_reg :: "int \<Rightarrow> nat \<Rightarrow> ZydisRegister" where
  "sub_reg c r = ZYDIS_REGISTER_OTHER (100 * c + int r)"

definition test_enclosing :: "ZydisRegister \<Rightarrow> ZydisRegister" where
  "test_enclosing r =
     (case r of
        ZYDIS_REGISTER_OTHER n \<Rightarrow> if 100 \<le> n \<and> n < 400 then kDwarfGprs ! nat (n mod 100) else r
      | _ \<Rightarrow> r)"

definition test_width :: "ZydisRegister \<Rightarrow> nat" where
  "test_width r =
     (case r of
        ZYDIS_REGISTER_OTHER n \<Rightarrow> if n < 200 then 32 else if n < 300 then 16 else if n < 400 then 8 else if n = 400 then 128 else 256
      | _ \<Rightarrow> 64)"

definition test_reg :: "ZydisRegister \<Rightarrow> bool \<Rightarrow> ZydisDecodedOperand" where
  "test_reg r wr = \<lparr>op_value = TypeRegister r, op_size = test_width r, op_writes = wr\<rparr>"

definition test_mem :: "ZydisRegister \<Rightarrow> int \<Rightarrow> nat \<Rightarrow> bool \<Rightarrow> ZydisDecodedOperand" where
  "test_mem b d sz wr =
     \<lparr>op_value = TypeMemory \<lparr>mem_base = b, mem_index = ZYDIS_REGISTER_NONE, mem_scale = 0, mem_disp = d\<rparr>,
      op_size = sz, op_writes = wr\<rparr>"

definition test_sib :: "ZydisRegister \<Rightarrow> ZydisRegister \<Rightarrow> nat \<Rightarrow> nat \<Rightarrow> ZydisDecodedOperand" where
  "test_sib b x scale sz =
     \<lparr>op_value = TypeMemory \<lparr>mem_base = b, mem_index = x, mem_scale = scale, mem_disp = 0\<rparr>, op_size = sz, op_writes = False\<rparr>"

definition test_imm :: "u64 \<Rightarrow> nat \<Rightarrow> ZydisDecodedOperand" where
  "test_imm v sz = \<lparr>op_value = TypeImmediate v, op_size = sz, op_writes = False\<rparr>"

definition test_rflags :: ZydisDecodedOperand where
  "test_rflags = \<lparr>op_value = TypeRegister (ZYDIS_REGISTER_OTHER 500), op_size = 64, op_writes = True\<rparr>"

text \<open>An instruction: mnemonic, category, length, operand width, visible and hidden operands. It writes the
  flags exactly when they are among its hidden operands.\<close>

definition test_insn ::
  "ZydisMnemonic \<Rightarrow> ZydisInstructionCategory \<Rightarrow> nat \<Rightarrow> nat \<Rightarrow> ZydisDecodedOperand list \<Rightarrow> ZydisDecodedOperand list \<Rightarrow>
   ZydisDecodedInstruction \<times> ZydisDecodedOperand list" where
  "test_insn m c len w vis hid =
     (\<lparr>mnemonic = m, insn_length = len, operand_count = length vis + length hid, operand_count_visible = length vis,
       category = c, operand_width = w, has_segment = False,
       cpu_flags = Some \<lparr>fl_modified = (if hid = [] then 0 else 0x8d5), fl_set_0 = 0, fl_set_1 = 0, fl_undefined = 0\<rparr>\<rparr>,
      vis @ hid)"

definition test_decode :: "u8 list \<Rightarrow> (ZydisDecodedInstruction \<times> ZydisDecodedOperand list) option" where
  "test_decode bytes =
     (if bytes = [0x53] then Some (test_insn PUSH CATEGORY_OTHER 1 64 [test_reg ZYDIS_REGISTER_RBX False] [])
      else if bytes = [0x5b] then Some (test_insn POP CATEGORY_OTHER 1 64 [test_reg ZYDIS_REGISTER_RBX True] [])
      else if bytes = [0x55] then Some (test_insn PUSH CATEGORY_OTHER 1 64 [test_reg ZYDIS_REGISTER_RBP False] [])
      else if bytes = [0xc9] then Some (test_insn LEAVE CATEGORY_OTHER 1 64 [] [])
      else if bytes = [0xc3] then Some (test_insn RET CATEGORY_OTHER 1 64 [] [])
      else if bytes = [0x48, 0x83, 0xec, 0x18] then Some (test_insn SUB CATEGORY_OTHER 4 64 [test_reg ZYDIS_REGISTER_RSP True, test_imm 0x18 8] [test_rflags])
      else if bytes = [0x48, 0x83, 0xec, 0x20] then Some (test_insn SUB CATEGORY_OTHER 4 64 [test_reg ZYDIS_REGISTER_RSP True, test_imm 0x20 8] [test_rflags])
      else if bytes = [0x48, 0x83, 0xec, 0x08] then Some (test_insn SUB CATEGORY_OTHER 4 64 [test_reg ZYDIS_REGISTER_RSP True, test_imm 8 8] [test_rflags])
      else if bytes = [0x48, 0x83, 0xec, 0x80] then Some (test_insn SUB CATEGORY_OTHER 4 64 [test_reg ZYDIS_REGISTER_RSP True, test_imm 0xffffffffffffff80 8] [test_rflags])
      else if bytes = [0x48, 0x83, 0xc4, 0x18] then Some (test_insn ADD CATEGORY_OTHER 4 64 [test_reg ZYDIS_REGISTER_RSP True, test_imm 0x18 8] [test_rflags])
      else if bytes = [0x48, 0x83, 0xe4, 0xf0] then Some (test_insn (MNEMONIC_OTHER 0x21) CATEGORY_OTHER 4 64 [test_reg ZYDIS_REGISTER_RSP True, test_imm 0xfffffffffffffff0 8] [test_rflags])
      else if bytes = [0x48, 0x83, 0xf8, 0x09] then Some (test_insn CMP CATEGORY_OTHER 4 64 [test_reg ZYDIS_REGISTER_RAX False, test_imm 9 8] [test_rflags])
      else if bytes = [0x83, 0xf8, 0x09] then Some (test_insn CMP CATEGORY_OTHER 3 32 [test_reg (sub_reg 1 0) False, test_imm 9 8] [test_rflags])
      else if bytes = [0x83, 0xf8, 0x00] then Some (test_insn CMP CATEGORY_OTHER 3 32 [test_reg (sub_reg 1 0) False, test_imm 0 8] [test_rflags])
      else if bytes = [0x83, 0xc0, 0x01] then Some (test_insn ADD CATEGORY_OTHER 3 32 [test_reg (sub_reg 1 0) True, test_imm 1 8] [test_rflags])
      else if bytes = [0x83, 0xc1, 0x01] then Some (test_insn ADD CATEGORY_OTHER 3 32 [test_reg (sub_reg 1 2) True, test_imm 1 8] [test_rflags])
      else if bytes = [0x01, 0xc8] then Some (test_insn ADD CATEGORY_OTHER 2 32 [test_reg (sub_reg 1 0) True, test_reg (sub_reg 1 2) False] [test_rflags])
      else if bytes = [0x48, 0x01, 0xc8] then Some (test_insn ADD CATEGORY_OTHER 3 64 [test_reg ZYDIS_REGISTER_RAX True, test_reg ZYDIS_REGISTER_RCX False] [test_rflags])
      else if bytes = [0x48, 0x01, 0xca] then Some (test_insn ADD CATEGORY_OTHER 3 64 [test_reg ZYDIS_REGISTER_RDX True, test_reg ZYDIS_REGISTER_RCX False] [test_rflags])
      else if bytes = [0x48, 0x01, 0xda] then Some (test_insn ADD CATEGORY_OTHER 3 64 [test_reg ZYDIS_REGISTER_RDX True, test_reg ZYDIS_REGISTER_RBX False] [test_rflags])
      else if bytes = [0x31, 0xdb] then Some (test_insn (MNEMONIC_OTHER 0x31) CATEGORY_OTHER 2 32 [test_reg (sub_reg 1 3) True, test_reg (sub_reg 1 3) False] [test_rflags])
      else if bytes = [0x48, 0x0f, 0xaf, 0xd8] then Some (test_insn (MNEMONIC_OTHER 0xaf) CATEGORY_OTHER 4 64 [test_reg ZYDIS_REGISTER_RBX True, test_reg ZYDIS_REGISTER_RAX False] [test_rflags])
      else if bytes = [0x48, 0x89, 0xe5] then Some (test_insn MOV CATEGORY_OTHER 3 64 [test_reg ZYDIS_REGISTER_RBP True, test_reg ZYDIS_REGISTER_RSP False] [])
      else if bytes = [0x48, 0x89, 0xe3] then Some (test_insn MOV CATEGORY_OTHER 3 64 [test_reg ZYDIS_REGISTER_RBX True, test_reg ZYDIS_REGISTER_RSP False] [])
      else if bytes = [0x48, 0x89, 0x5c, 0x24, 0x08] then Some (test_insn MOV CATEGORY_OTHER 5 64 [test_mem ZYDIS_REGISTER_RSP 8 64 True, test_reg ZYDIS_REGISTER_RBX False] [])
      else if bytes = [0x48, 0x8b, 0x5c, 0x24, 0x08] then Some (test_insn MOV CATEGORY_OTHER 5 64 [test_reg ZYDIS_REGISTER_RBX True, test_mem ZYDIS_REGISTER_RSP 8 64 False] [])
      else if bytes = [0x48, 0x89, 0x07] then Some (test_insn MOV CATEGORY_OTHER 3 64 [test_mem ZYDIS_REGISTER_RDI 0 64 True, test_reg ZYDIS_REGISTER_RAX False] [])
      else if bytes = [0x48, 0x8b, 0x03] then Some (test_insn MOV CATEGORY_OTHER 3 64 [test_reg ZYDIS_REGISTER_RAX True, test_mem ZYDIS_REGISTER_RBX 0 64 False] [])
      else if bytes = [0x89, 0x45, 0xf8] then Some (test_insn MOV CATEGORY_OTHER 3 32 [test_mem ZYDIS_REGISTER_RBP (- 8) 32 True, test_reg (sub_reg 1 0) False] [])
      else if bytes = [0x89, 0xc1] then Some (test_insn MOV CATEGORY_OTHER 2 32 [test_reg (sub_reg 1 2) True, test_reg (sub_reg 1 0) False] [])
      else if bytes = [0x89, 0xf0] then Some (test_insn MOV CATEGORY_OTHER 2 32 [test_reg (sub_reg 1 0) True, test_reg (sub_reg 1 4) False] [])
      else if bytes = [0x40, 0x88, 0xf0] then Some (test_insn MOV CATEGORY_OTHER 3 8 [test_reg (sub_reg 3 0) True, test_reg (sub_reg 3 4) False] [])
      else if bytes = [0x48, 0xc7, 0xc3, 0x00, 0x10, 0x00, 0x00] then Some (test_insn MOV CATEGORY_OTHER 7 64 [test_reg ZYDIS_REGISTER_RBX True, test_imm 0x1000 32] [])
      else if bytes = [0x0f, 0x29, 0x45, 0xf0] then Some (test_insn (MNEMONIC_OTHER 0x29) CATEGORY_OTHER 4 32 [test_mem ZYDIS_REGISTER_RBP (- 16) 128 True, test_reg (ZYDIS_REGISTER_OTHER 400) False] [])
      else if bytes = [0xc5, 0xfd, 0x11, 0x45, 0xd8] then Some (test_insn (MNEMONIC_OTHER 0x11) CATEGORY_OTHER 5 32 [test_mem ZYDIS_REGISTER_RBP (- 40) 256 True, test_reg (ZYDIS_REGISTER_OTHER 401) False] [])
      else if bytes = [0x4c, 0x8d, 0x54, 0x24, 0x08] then Some (test_insn LEA CATEGORY_OTHER 5 64 [test_reg ZYDIS_REGISTER_R10 True, test_mem ZYDIS_REGISTER_RSP 8 64 False] [])
      else if bytes = [0x48, 0x8d, 0x64, 0x24, 0x20] then Some (test_insn LEA CATEGORY_OTHER 5 64 [test_reg ZYDIS_REGISTER_RSP True, test_mem ZYDIS_REGISTER_RSP 32 64 False] [])
      else if bytes = [0x48, 0x8d, 0x0d, 0x10, 0x00, 0x00, 0x00] then Some (test_insn LEA CATEGORY_OTHER 7 64 [test_reg ZYDIS_REGISTER_RCX True, test_mem ZYDIS_REGISTER_RIP 16 64 False] [])
      else if bytes = [0x48, 0x63, 0x14, 0x81] then Some (test_insn MOVSXD CATEGORY_OTHER 4 64 [test_reg ZYDIS_REGISTER_RDX True, test_sib ZYDIS_REGISTER_RCX ZYDIS_REGISTER_RAX 4 32] [])
      else if bytes = [0x48, 0x63, 0xc8] then Some (test_insn MOVSXD CATEGORY_OTHER 3 64 [test_reg ZYDIS_REGISTER_RCX True, test_reg (sub_reg 1 0) False] [])
      else if bytes = [0x0f, 0xb6, 0xc0] then Some (test_insn MOVZX CATEGORY_OTHER 3 32 [test_reg (sub_reg 1 0) True, test_reg (sub_reg 3 0) False] [])
      else if bytes = [0x0f, 0xb6, 0xc8] then Some (test_insn MOVZX CATEGORY_OTHER 3 32 [test_reg (sub_reg 1 2) True, test_reg (sub_reg 3 0) False] [])
      else if bytes = [0x66, 0x0f, 0xb6, 0xc8] then Some (test_insn MOVZX CATEGORY_OTHER 4 16 [test_reg (sub_reg 2 2) True, test_reg (sub_reg 3 0) False] [])
      else if bytes = [0x0f, 0xb6, 0x07] then Some (test_insn MOVZX CATEGORY_OTHER 3 32 [test_reg (sub_reg 1 0) True, test_mem ZYDIS_REGISTER_RDI 0 8 False] [])
      else if bytes = [0x0f, 0xbe, 0x07] then Some (test_insn MOVSX CATEGORY_OTHER 3 32 [test_reg (sub_reg 1 0) True, test_mem ZYDIS_REGISTER_RDI 0 8 False] [])
      else if bytes = [0x0f, 0xbe, 0xc8] then Some (test_insn MOVSX CATEGORY_OTHER 3 32 [test_reg (sub_reg 1 2) True, test_reg (sub_reg 3 0) False] [])
      else if bytes = [0xe8, 0x00, 0x00, 0x00, 0x00] then Some (test_insn CALL CATEGORY_OTHER 5 64 [test_imm 0 32] [])
      else if bytes = [0x0f, 0x05] then Some (test_insn SYSCALL CATEGORY_OTHER 2 64 [] [])
      else if bytes = [0xcd, 0x80] then Some (test_insn INTn CATEGORY_OTHER 2 64 [test_imm 0x80 8] [])
      else if bytes = [0xeb, 0x05] then Some (test_insn JMP CATEGORY_UNCOND_BR 2 64 [test_imm 5 8] [])
      else if bytes = [0xff, 0xe0] then Some (test_insn JMP CATEGORY_UNCOND_BR 2 64 [test_reg ZYDIS_REGISTER_RAX False] [])
      else if bytes = [0xff, 0xe2] then Some (test_insn JMP CATEGORY_UNCOND_BR 2 64 [test_reg ZYDIS_REGISTER_RDX False] [])
      else if bytes = [0x74, 0x05] then Some (test_insn (MNEMONIC_OTHER 0x74) CATEGORY_COND_BR 2 64 [test_imm 5 8] [])
      else if bytes = [0x7e, 0x10] then Some (test_insn (MNEMONIC_OTHER 0x7e) CATEGORY_COND_BR 2 64 [test_imm 0x10 8] [])
      else if bytes = [0x77, 0x10] then Some (test_insn JNBE CATEGORY_COND_BR 2 64 [test_imm 0x10 8] [])
      else if bytes = [0x73, 0x10] then Some (test_insn JNB CATEGORY_COND_BR 2 64 [test_imm 0x10 8] [])
      else if bytes = [0x76, 0x10] then Some (test_insn JBE CATEGORY_COND_BR 2 64 [test_imm 0x10 8] [])
      else if bytes = [0x72, 0x10] then Some (test_insn JB CATEGORY_COND_BR 2 64 [test_imm 0x10 8] [])
      else None)"

definition test_zydis :: zydis where
  "test_zydis =
     \<lparr>zy_reg_valid = (\<lambda>r. True), zy_GetLargestEnclosing = test_enclosing, zy_GetWidth = test_width,
      zy_CalcAbsoluteAddress = (\<lambda>i op a. case op_value op of
          TypeImmediate v \<Rightarrow> Some (a + of_nat (insn_length i) + v)
        | TypeMemory m \<Rightarrow> if mem_base m = ZYDIS_REGISTER_RIP then Some (a + of_nat (insn_length i) + word_of_int (mem_disp m)) else None
        | _ \<Rightarrow> None),
      zy_DecodeFull = test_decode, zy_Format = (\<lambda>i ops a. None)\<rparr>"

subsection \<open>Frames and control flow\<close>

definition PushMovesTheStackPointerAndRecordsWhatWentThere :: "zydis \<Rightarrow> bool" where
  "PushMovesTheStackPointerAndRecordsWhatWentThere Z \<longleftrightarrow>
     (let s = Entry; (ok1, _, s) = test_Run Z [0x53] s
      in ok1 \<and> IsCFARel (reg s (int kDWARFRsp)) (- 16) \<and> IsOrigReg (Slot s (- 16)) kDWARFRbx)"

definition PopRestoresTheRegisterItPushed :: "zydis \<Rightarrow> bool" where
  "PopRestoresTheRegisterItPushed Z \<longleftrightarrow>
     (let s = Entry; (ok1, _, s) = test_Run Z [0x53] s; s = ClobberReg kDWARFRbx s; (ok2, _, s) = test_Run Z [0x5b] s
      in ok1 \<and> ok2 \<and> IsCFARel (reg s (int kDWARFRsp)) (- 8) \<and>
         IsOrigReg (reg s (int kDWARFRbx)) kDWARFRbx)"

definition SubAndAddOnRspTrackTheFrame :: "zydis \<Rightarrow> bool" where
  "SubAndAddOnRspTrackTheFrame Z \<longleftrightarrow>
     (let s = Entry; (ok1, _, s) = test_Run Z [0x48, 0x83, 0xec, 0x18] s
      in ok1 \<and> IsCFARel (reg s (int kDWARFRsp)) (- 32) \<and>
         (let (ok2, _, s) = test_Run Z [0x48, 0x83, 0xc4, 0x18] s
          in ok2 \<and> IsCFARel (reg s (int kDWARFRsp)) (- 8)))"

definition FramePointerSetupAndTeardown :: "zydis \<Rightarrow> bool" where
  "FramePointerSetupAndTeardown Z \<longleftrightarrow>
     (let s = Entry; (ok1, _, s) = test_Run Z [0x55] s; (ok2, _, s) = test_Run Z [0x48, 0x89, 0xe5] s
      in ok1 \<and> ok2 \<and> IsCFARel (reg s (int kDWARFRbp)) (- 16) \<and>
         (let (ok3, _, s) = test_Run Z [0x48, 0x83, 0xec, 0x20] s; (ok4, _, s) = test_Run Z [0xc9] s
          in ok3 \<and> ok4 \<and> IsCFARel (reg s (int kDWARFRsp)) (- 8) \<and>
             IsOrigReg (reg s (int kDWARFRbp)) kDWARFRbp))"

definition MovSpillAndReloadThroughRsp :: "zydis \<Rightarrow> bool" where
  "MovSpillAndReloadThroughRsp Z \<longleftrightarrow>
     (let s = Entry; (ok1, _, s) = test_Run Z [0x48, 0x83, 0xec, 0x18] s;
          (ok2, _, s) = test_Run Z [0x48, 0x89, 0x5c, 0x24, 0x08] s
      in ok1 \<and> ok2 \<and> IsOrigReg (Slot s (- 24)) kDWARFRbx \<and>
         (let s = ClobberReg kDWARFRbx s; (ok3, _, s) = test_Run Z [0x48, 0x8b, 0x5c, 0x24, 0x08] s
          in ok3 \<and> IsOrigReg (reg s (int kDWARFRbx)) kDWARFRbx))"

definition WideVectorStoreClobbersMultipleSlots :: "zydis \<Rightarrow> bool" where
  "WideVectorStoreClobbersMultipleSlots Z \<longleftrightarrow>
     (let s = Entry; (ok1, _, s) = test_Run Z [0x55] s; (ok2, _, s) = test_Run Z [0x48, 0x89, 0xe5] s;
          s = SetSlot (- 24) (OrigReg kDWARFRbx) s; s = SetSlot (- 32) (OrigReg 12) s;
          s = SetSlot (- 40) (OrigReg 13) s; s = SetSlot (- 48) (OrigReg 14) s; s = SetSlot (- 56) (OrigReg 15) s;
          (ok3, _, s) = test_Run Z [0x0f, 0x29, 0x45, 0xf0] s
      in ok1 \<and> ok2 \<and> ok3 \<and> is_top (Slot s (- 24)) \<and> is_top (Slot s (- 32)) \<and>
         IsOrigReg (Slot s (- 40)) 13 \<and> IsOrigReg (Slot s (- 48)) 14 \<and> IsOrigReg (Slot s (- 56)) 15 \<and>
         (let s = SetSlot (- 32) (OrigReg 12) s; (ok4, _, s) = test_Run Z [0xc5, 0xfd, 0x11, 0x45, 0xd8] s
          in ok4 \<and> is_top (Slot s (- 32)) \<and> is_top (Slot s (- 40)) \<and> is_top (Slot s (- 48)) \<and>
             is_top (Slot s (- 56))))"

definition NarrowStoreClobbersEnclosingSlot :: "zydis \<Rightarrow> bool" where
  "NarrowStoreClobbersEnclosingSlot Z \<longleftrightarrow>
     (let s = Entry; (ok1, _, s) = test_Run Z [0x55] s; (ok2, _, s) = test_Run Z [0x48, 0x89, 0xe5] s;
          s = SetSlot (- 24) (OrigReg kDWARFRbx) s; (ok3, _, s) = test_Run Z [0x89, 0x45, 0xf8] s
      in ok1 \<and> ok2 \<and> ok3 \<and> is_top (Slot s (- 24)))"

definition LeaComputesAStackAddress :: "zydis \<Rightarrow> bool" where
  "LeaComputesAStackAddress Z \<longleftrightarrow>
     (let s = Entry; (ok1, _, s) = test_Run Z [0x4c, 0x8d, 0x54, 0x24, 0x08] s in ok1 \<and> IsCFARel (reg s 10) 0)"

definition WritingASubRegisterUntracksTheWholeRegister :: "zydis \<Rightarrow> bool" where
  "WritingASubRegisterUntracksTheWholeRegister Z \<longleftrightarrow>
     (let s = Entry; (ok1, _, s) = test_Run Z [0x48, 0x89, 0xe3] s
      in ok1 \<and> IsCFARel (reg s (int kDWARFRbx)) (- 8) \<and>
         (let (ok2, _, s) = test_Run Z [0x31, 0xdb] s
          in ok2 \<and> is_unknown (reg s (int kDWARFRbx))))"

definition StackRealignmentUntracksRspWithoutGuessing :: "zydis \<Rightarrow> bool" where
  "StackRealignmentUntracksRspWithoutGuessing Z \<longleftrightarrow>
     (let s = Entry; (ok1, _, s) = test_Run Z [0x55] s; (ok2, _, s) = test_Run Z [0x48, 0x89, 0xe5] s;
          (ok3, _, s) = test_Run Z [0x48, 0x83, 0xe4, 0xf0] s
      in ok1 \<and> ok2 \<and> ok3 \<and> is_unknown (reg s (int kDWARFRsp)) \<and>
         IsCFARel (reg s (int kDWARFRbp)) (- 16))"

definition CallClobbersCallerSavedRegistersAndTheStackBelowRsp :: "zydis \<Rightarrow> bool" where
  "CallClobbersCallerSavedRegistersAndTheStackBelowRsp Z \<longleftrightarrow>
     (let s = Entry; (ok1, _, s) = test_Run Z [0x48, 0x83, 0xec, 0x08] s; s = SetSlot (- 24) (OrigReg kDWARFRbx) s;
          (ok2, out, s) = test_Run Z [0xe8, 0x00, 0x00, 0x00, 0x00] s
      in ok1 \<and> ok2 \<and> is_call out \<and> falls_through out \<and>
         IsCFARel (reg s (int kDWARFRsp)) (- 16) \<and> is_unknown (reg s (int kDWARFRax)) \<and>
         IsOrigReg (reg s (int kDWARFRbx)) kDWARFRbx \<and> is_unknown (Slot s (- 24)))"

definition ClassifiesControlFlow :: "zydis \<Rightarrow> bool" where
  "ClassifiesControlFlow Z \<longleftrightarrow>
     (let s = Entry; (ok1, out, s) = test_Run Z [0xc3] s
      in ok1 \<and> is_return out \<and> \<not> falls_through out \<and>
         (let (ok2, out, s) = test_Run Z [0xeb, 0x05] s
          in ok2 \<and> \<not> falls_through out \<and> has_direct_target out \<and>
             direct_target out = kBase + 7 \<and>
             (let (ok3, out, s) = test_Run Z [0x74, 0x05] s
              in ok3 \<and> falls_through out \<and> has_direct_target out \<and> direct_target out = kBase + 7 \<and>
                 (let (ok4, out, s) = test_Run Z [0xff, 0xe0] s
                  in ok4 \<and> indirect_branch out \<and> \<not> has_direct_target out))))"

definition UnmodelledInstructionsLoseTrackRatherThanLie :: "zydis \<Rightarrow> bool" where
  "UnmodelledInstructionsLoseTrackRatherThanLie Z \<longleftrightarrow>
     (let s = Entry; (ok1, _, s) = test_Run Z [0x48, 0x89, 0xe3] s
      in ok1 \<and> IsCFARel (reg s (int kDWARFRbx)) (- 8) \<and>
         (let (ok2, _, s) = test_Run Z [0x48, 0x0f, 0xaf, 0xd8] s
          in ok2 \<and> is_unknown (reg s (int kDWARFRbx)) \<and> IsCFARel (reg s (int kDWARFRsp)) (- 8)))"

lemma test_sub_8: "test_Run test_zydis [0x48, 0x83, 0xec, 0x08] Entry = (True, TransferOutcome0, SetReg1 7 (CFARel (- 16)) Entry)"
  by code_simp

lemma insn_semantics_call_test: "CallClobbersCallerSavedRegistersAndTheStackBelowRsp test_zydis"
  unfolding CallClobbersCallerSavedRegistersAndTheStackBelowRsp_def Let_def test_sub_8 prod.case by code_simp

lemma insn_semantics_frame_tests:
  "PushMovesTheStackPointerAndRecordsWhatWentThere test_zydis"
  "PopRestoresTheRegisterItPushed test_zydis"
  "SubAndAddOnRspTrackTheFrame test_zydis"
  "FramePointerSetupAndTeardown test_zydis"
  "MovSpillAndReloadThroughRsp test_zydis"
  "WideVectorStoreClobbersMultipleSlots test_zydis"
  "NarrowStoreClobbersEnclosingSlot test_zydis"
  "LeaComputesAStackAddress test_zydis"
  "WritingASubRegisterUntracksTheWholeRegister test_zydis"
  "StackRealignmentUntracksRspWithoutGuessing test_zydis"
  "ClassifiesControlFlow test_zydis"
  "UnmodelledInstructionsLoseTrackRatherThanLie test_zydis"
  by code_simp+

subsection \<open>Switch tables\<close>

definition RipRelativeLeaProducesAConstant :: "zydis \<Rightarrow> bool" where
  "RipRelativeLeaProducesAConstant Z \<longleftrightarrow>
     (let s = Entry; (ok1, _, s) = test_Run Z [0x48, 0x8d, 0x0d, 0x10, 0x00, 0x00, 0x00] s
      in ok1 \<and> TV_IsConst (table s (int kDWARFRcx)) \<and>
         TV_ConstValue (table s (int kDWARFRcx)) = kBase + 7 + 0x10)"

definition MovslqWithScale4FromAConstantBaseProducesATableEntry :: "zydis \<Rightarrow> bool" where
  "MovslqWithScale4FromAConstantBaseProducesATableEntry Z \<longleftrightarrow>
     (let s = Entry; (ok1, _, s) = test_Run Z [0x48, 0x8d, 0x0d, 0x10, 0x00, 0x00, 0x00] s;
          table_at = TV_ConstValue (table s (int kDWARFRcx)); (ok2, _, s) = test_Run Z [0x48, 0x63, 0x14, 0x81] s
      in ok1 \<and> ok2 \<and> TV_IsTableEntry (table s (int kDWARFRdx)) \<and>
         TV_TableAddr (table s (int kDWARFRdx)) = table_at \<and>
         TV_IndexReg (table s (int kDWARFRdx)) = kDWARFRax \<and>
         TV_TableBaseConst (table s (int kDWARFRdx)) = table_at)"

definition AddResolvesATableEntryToAJumpTargetRegardlessOfOperandOrder :: "zydis \<Rightarrow> bool" where
  "AddResolvesATableEntryToAJumpTargetRegardlessOfOperandOrder Z \<longleftrightarrow>
     (let s = Entry; (ok1, _, s) = test_Run Z [0x48, 0x8d, 0x0d, 0x10, 0x00, 0x00, 0x00] s;
          table_at = TV_ConstValue (table s (int kDWARFRcx)); (ok2, _, s) = test_Run Z [0x48, 0x63, 0x14, 0x81] s;
          (ok3, _, s) = test_Run Z [0x48, 0x01, 0xca] s
      in ok1 \<and> ok2 \<and> ok3 \<and> TV_IsJumpTarget (table s (int kDWARFRdx)) \<and>
         TV_TableAddr (table s (int kDWARFRdx)) = table_at \<and> TV_IndexReg (table s (int kDWARFRdx)) = kDWARFRax)"

definition AddDoesNotResolveWhenTheConstantDoesNotMatchTheTablesBase :: "zydis \<Rightarrow> bool" where
  "AddDoesNotResolveWhenTheConstantDoesNotMatchTheTablesBase Z \<longleftrightarrow>
     (let s = Entry; (ok1, _, s) = test_Run Z [0x48, 0x8d, 0x0d, 0x10, 0x00, 0x00, 0x00] s;
          (ok2, _, s) = test_Run Z [0x48, 0x63, 0x14, 0x81] s;
          (ok3, _, s) = test_Run Z [0x48, 0xc7, 0xc3, 0x00, 0x10, 0x00, 0x00] s;
          (ok4, _, s) = test_Run Z [0x48, 0x01, 0xda] s
      in ok1 \<and> ok2 \<and> ok3 \<and> ok4 \<and> \<not> TV_IsJumpTarget (table s (int kDWARFRdx)))"

definition IndirectJumpThroughAJumpTargetResolvesOnlyWithAKnownBound :: "zydis \<Rightarrow> bool" where
  "IndirectJumpThroughAJumpTargetResolvesOnlyWithAKnownBound Z \<longleftrightarrow>
     (let s = Entry; (ok1, _, s) = test_Run Z [0x48, 0x8d, 0x0d, 0x10, 0x00, 0x00, 0x00] s;
          (ok2, _, s) = test_Run Z [0x48, 0x63, 0x14, 0x81] s; (ok3, _, s) = test_Run Z [0x48, 0x01, 0xca] s;
          (ok4, out, s) = test_Run Z [0xff, 0xe2] s
      in ok1 \<and> ok2 \<and> ok3 \<and> ok4 \<and> \<not> has_jump_table out \<and> indirect_branch out)"

definition IndirectJumpResolvesOnceTheIndexRegisterHasAKnownBound :: "zydis \<Rightarrow> bool" where
  "IndirectJumpResolvesOnceTheIndexRegisterHasAKnownBound Z \<longleftrightarrow>
     (let s = Entry; (ok1, _, s) = test_Run Z [0x48, 0x8d, 0x0d, 0x10, 0x00, 0x00, 0x00] s;
          table_at = TV_ConstValue (table s (int kDWARFRcx)); s = ApplyGuardBound (int kDWARFRax) 4 s;
          (ok2, _, s) = test_Run Z [0x48, 0x63, 0x14, 0x81] s; (ok3, _, s) = test_Run Z [0x48, 0x01, 0xca] s;
          (ok4, out, s) = test_Run Z [0xff, 0xe2] s
      in ok1 \<and> ok2 \<and> ok3 \<and> ok4 \<and> has_jump_table out \<and> jump_table_addr out = table_at \<and>
         jump_table_entries out = 5)"

definition IndirectJumpDoesNotResolveFromAWidthFactAlone :: "zydis \<Rightarrow> bool" where
  "IndirectJumpDoesNotResolveFromAWidthFactAlone Z \<longleftrightarrow>
     (let s = Entry; (ok1, _, s) = test_Run Z [0x48, 0x8d, 0x0d, 0x10, 0x00, 0x00, 0x00] s;
          (ok2, _, s) = test_Run Z [0x0f, 0xb6, 0xc0] s
      in ok1 \<and> ok2 \<and> value_bound (table s (int kDWARFRax)) = 255 \<and>
         \<not> HasTableBound (table s (int kDWARFRax)) \<and>
         (let (ok3, _, s) = test_Run Z [0x48, 0x63, 0x14, 0x81] s; (ok4, _, s) = test_Run Z [0x48, 0x01, 0xca] s;
              (ok5, out, s) = test_Run Z [0xff, 0xe2] s
          in ok3 \<and> ok4 \<and> ok5 \<and> \<not> has_jump_table out \<and> has_unbounded_jump_target out))"

definition IndirectJumpDoesNotResolveFromABoundSetAfterTheTableLoad :: "zydis \<Rightarrow> bool" where
  "IndirectJumpDoesNotResolveFromABoundSetAfterTheTableLoad Z \<longleftrightarrow>
     (let s = Entry; (ok1, _, s) = test_Run Z [0x48, 0x8d, 0x0d, 0x10, 0x00, 0x00, 0x00] s;
          (ok2, _, s) = test_Run Z [0x48, 0x63, 0x14, 0x81] s; (ok3, _, s) = test_Run Z [0x48, 0x01, 0xca] s;
          s = ApplyGuardBound (int kDWARFRax) 4 s; (ok4, out, s) = test_Run Z [0xff, 0xe2] s
      in ok1 \<and> ok2 \<and> ok3 \<and> ok4 \<and> \<not> has_jump_table out)"

definition CmpWithANonNegativeImmediateSetsLastCmp :: "zydis \<Rightarrow> bool" where
  "CmpWithANonNegativeImmediateSetsLastCmp Z \<longleftrightarrow>
     (let s = Entry; (ok1, _, s) = test_Run Z [0x83, 0xf8, 0x09] s
      in ok1 \<and> last_cmp s \<noteq> None \<and> fg_reg (the (last_cmp s)) = kDWARFRax \<and>
         width_bits (the (last_cmp s)) = 32 \<and> imm (the (last_cmp s)) = 9)"

definition CmpOnItsOwnEstablishesNoBound :: "zydis \<Rightarrow> bool" where
  "CmpOnItsOwnEstablishesNoBound Z \<longleftrightarrow>
     (let s = Entry; (ok1, _, s) = test_Run Z [0x83, 0xf8, 0x09] s
      in ok1 \<and> value_bound (table s (int kDWARFRax)) = kBoundTop \<and>
         \<not> HasTableBound (table s (int kDWARFRax)))"

definition LastCmpIsClearedByALaterFlagsWritingInstruction :: "zydis \<Rightarrow> bool" where
  "LastCmpIsClearedByALaterFlagsWritingInstruction Z \<longleftrightarrow>
     (let s = Entry; (ok1, _, s) = test_Run Z [0x83, 0xf8, 0x09] s
      in ok1 \<and> last_cmp s \<noteq> None \<and>
         (let (ok2, _, s) = test_Run Z [0x83, 0xc0, 0x01] s
          in ok2 \<and> last_cmp s = None))"

definition LastCmpIsClearedByAWriteToTheComparedRegister :: "zydis \<Rightarrow> bool" where
  "LastCmpIsClearedByAWriteToTheComparedRegister Z \<longleftrightarrow>
     (let s = Entry; (ok1, _, s) = test_Run Z [0x83, 0xf8, 0x09] s
      in ok1 \<and> last_cmp s \<noteq> None \<and>
         (let (ok2, _, s) = test_Run Z [0x48, 0x8b, 0x03] s
          in ok2 \<and> last_cmp s = None))"

definition LastCmpSurvivesAnInstructionThatDoesNotTouchFlagsOrTheReg :: "zydis \<Rightarrow> bool" where
  "LastCmpSurvivesAnInstructionThatDoesNotTouchFlagsOrTheReg Z \<longleftrightarrow>
     (let s = Entry; (ok1, _, s) = test_Run Z [0x83, 0xf8, 0x09] s
      in ok1 \<and> last_cmp s \<noteq> None \<and>
         (let (ok2, _, s) = test_Run Z [0x89, 0xc1] s
          in ok2 \<and> last_cmp s \<noteq> None \<and> imm (the (last_cmp s)) = 9))"

lemma insn_semantics_switch_tests:
  "RipRelativeLeaProducesAConstant test_zydis"
  "MovslqWithScale4FromAConstantBaseProducesATableEntry test_zydis"
  "AddResolvesATableEntryToAJumpTargetRegardlessOfOperandOrder test_zydis"
  "AddDoesNotResolveWhenTheConstantDoesNotMatchTheTablesBase test_zydis"
  "IndirectJumpThroughAJumpTargetResolvesOnlyWithAKnownBound test_zydis"
  "IndirectJumpResolvesOnceTheIndexRegisterHasAKnownBound test_zydis"
  "IndirectJumpDoesNotResolveFromAWidthFactAlone test_zydis"
  "IndirectJumpDoesNotResolveFromABoundSetAfterTheTableLoad test_zydis"
  "CmpWithANonNegativeImmediateSetsLastCmp test_zydis"
  "CmpOnItsOwnEstablishesNoBound test_zydis"
  "LastCmpIsClearedByALaterFlagsWritingInstruction test_zydis"
  "LastCmpIsClearedByAWriteToTheComparedRegister test_zydis"
  "LastCmpSurvivesAnInstructionThatDoesNotTouchFlagsOrTheReg test_zydis"
  by code_simp+

subsection \<open>Width facts\<close>

definition AnyWriteToA32BitRegisterProvesTheFullRegisterIsZeroExtended :: "zydis \<Rightarrow> bool" where
  "AnyWriteToA32BitRegisterProvesTheFullRegisterIsZeroExtended Z \<longleftrightarrow>
     (let s = Entry; (ok1, _, s) = test_Run Z [0x01, 0xc8] s
      in ok1 \<and> value_bound (table s (int kDWARFRax)) = 0xffffffff \<and>
         \<not> HasTableBound (table s (int kDWARFRax)))"

definition AWriteToA64BitRegisterProvesNoWidthFact :: "zydis \<Rightarrow> bool" where
  "AWriteToA64BitRegisterProvesNoWidthFact Z \<longleftrightarrow>
     (let s = Entry; (ok1, _, s) = test_Run Z [0x48, 0x01, 0xc8] s
      in ok1 \<and> value_bound (table s (int kDWARFRax)) = kBoundTop)"

definition AWriteToAnEightBitRegisterProvesNothingAboutTheParent :: "zydis \<Rightarrow> bool" where
  "AWriteToAnEightBitRegisterProvesNothingAboutTheParent Z \<longleftrightarrow>
     (let s = Entry; s = ApplyGuardBound (int kDWARFRsi) 9 s; (ok1, _, s) = test_Run Z [0x40, 0x88, 0xf0] s
      in ok1 \<and> value_bound (table s (int kDWARFRax)) = kBoundTop \<and>
         \<not> HasTableBound (table s (int kDWARFRax)))"

definition MovzxIntoASixteenBitRegisterProvesNothingAboutTheParent :: "zydis \<Rightarrow> bool" where
  "MovzxIntoASixteenBitRegisterProvesNothingAboutTheParent Z \<longleftrightarrow>
     (let s = Entry; s = ApplyGuardBound (int kDWARFRax) 9 s; (ok1, _, s) = test_Run Z [0x66, 0x0f, 0xb6, 0xc8] s
      in ok1 \<and> value_bound (table s (int kDWARFRcx)) = kBoundTop)"

definition MovzxFromMemoryProvesTheLoadWidth :: "zydis \<Rightarrow> bool" where
  "MovzxFromMemoryProvesTheLoadWidth Z \<longleftrightarrow>
     (let s = Entry; (ok1, _, s) = test_Run Z [0x0f, 0xb6, 0x07] s
      in ok1 \<and> value_bound (table s (int kDWARFRax)) = 255)"

definition MovsxFromMemoryProvesOnlyTheDestinationWidth :: "zydis \<Rightarrow> bool" where
  "MovsxFromMemoryProvesOnlyTheDestinationWidth Z \<longleftrightarrow>
     (let s = Entry; (ok1, _, s) = test_Run Z [0x0f, 0xbe, 0x07] s
      in ok1 \<and> value_bound (table s (int kDWARFRax)) = 0xffffffff)"

lemma insn_semantics_width_tests:
  "AnyWriteToA32BitRegisterProvesTheFullRegisterIsZeroExtended test_zydis"
  "AWriteToA64BitRegisterProvesNoWidthFact test_zydis"
  "AWriteToAnEightBitRegisterProvesNothingAboutTheParent test_zydis"
  "MovzxIntoASixteenBitRegisterProvesNothingAboutTheParent test_zydis"
  "MovzxFromMemoryProvesTheLoadWidth test_zydis"
  "MovsxFromMemoryProvesOnlyTheDestinationWidth test_zydis"
  by code_simp+

subsection \<open>Guard branches\<close>

definition JaProvesOnTheFallThroughEdge :: "zydis \<Rightarrow> bool" where
  "JaProvesOnTheFallThroughEdge Z \<longleftrightarrow>
     (let s = Entry; (ok1, _, s) = test_Run Z [0x83, 0xf8, 0x09] s; (ok2, s) = test_RunEdge Z [0x77, 0x10] kFallThrough s
      in ok1 \<and> ok2 \<and> last_cmp s \<noteq> None \<and> proven_bound (the (last_cmp s)) = 9)"

definition JaProvesNothingOnTheTakenEdge :: "zydis \<Rightarrow> bool" where
  "JaProvesNothingOnTheTakenEdge Z \<longleftrightarrow>
     (let s = Entry; (ok1, _, s) = test_Run Z [0x83, 0xf8, 0x09] s; (ok2, s) = test_RunEdge Z [0x77, 0x10] kTaken s
      in ok1 \<and> ok2 \<and> last_cmp s \<noteq> None \<and> \<not> proven (the (last_cmp s)) \<and>
         value_bound (table s (int kDWARFRax)) = kBoundTop)"

definition JaeProvesTheStrictBoundOnTheFallThroughEdge :: "zydis \<Rightarrow> bool" where
  "JaeProvesTheStrictBoundOnTheFallThroughEdge Z \<longleftrightarrow>
     (let s = Entry; (ok1, _, s) = test_Run Z [0x83, 0xf8, 0x09] s; (ok2, s) = test_RunEdge Z [0x73, 0x10] kFallThrough s
      in ok1 \<and> ok2 \<and> last_cmp s \<noteq> None \<and> proven_bound (the (last_cmp s)) = 8)"

definition JbeProvesOnTheTakenEdge :: "zydis \<Rightarrow> bool" where
  "JbeProvesOnTheTakenEdge Z \<longleftrightarrow>
     (let s = Entry; (ok1, _, s) = test_Run Z [0x83, 0xf8, 0x09] s; (ok2, s) = test_RunEdge Z [0x76, 0x10] kTaken s
      in ok1 \<and> ok2 \<and> last_cmp s \<noteq> None \<and> proven_bound (the (last_cmp s)) = 9)"

definition JbeProvesNothingOnTheFallThroughEdge :: "zydis \<Rightarrow> bool" where
  "JbeProvesNothingOnTheFallThroughEdge Z \<longleftrightarrow>
     (let s = Entry; (ok1, _, s) = test_Run Z [0x83, 0xf8, 0x09] s; (ok2, s) = test_RunEdge Z [0x76, 0x10] kFallThrough s
      in ok1 \<and> ok2 \<and> last_cmp s \<noteq> None \<and> \<not> proven (the (last_cmp s)))"

definition JbProvesTheStrictBoundOnTheTakenEdge :: "zydis \<Rightarrow> bool" where
  "JbProvesTheStrictBoundOnTheTakenEdge Z \<longleftrightarrow>
     (let s = Entry; (ok1, _, s) = test_Run Z [0x83, 0xf8, 0x09] s; (ok2, s) = test_RunEdge Z [0x72, 0x10] kTaken s
      in ok1 \<and> ok2 \<and> last_cmp s \<noteq> None \<and> proven_bound (the (last_cmp s)) = 8)"

definition JbAgainstZeroProvesNothing :: "zydis \<Rightarrow> bool" where
  "JbAgainstZeroProvesNothing Z \<longleftrightarrow>
     (let s = Entry; (ok1, _, s) = test_Run Z [0x83, 0xf8, 0x00] s; (ok2, s) = test_RunEdge Z [0x72, 0x10] kTaken s
      in ok1 \<and> ok2 \<and> last_cmp s \<noteq> None \<and> \<not> proven (the (last_cmp s)))"

definition ASignedBranchIsNotAGuard :: "zydis \<Rightarrow> bool" where
  "ASignedBranchIsNotAGuard Z \<longleftrightarrow>
     (let s = Entry; (ok1, _, s) = test_Run Z [0x83, 0xf8, 0x09] s; (ok2, s) = test_RunEdge Z [0x7e, 0x10] kFallThrough s
      in ok1 \<and> ok2 \<and> last_cmp s \<noteq> None \<and> \<not> proven (the (last_cmp s)))"

definition AGuardOnAFullWidthCompareIsPromotedImmediately :: "zydis \<Rightarrow> bool" where
  "AGuardOnAFullWidthCompareIsPromotedImmediately Z \<longleftrightarrow>
     (let s = Entry; (ok1, _, s) = test_Run Z [0x48, 0x83, 0xf8, 0x09] s;
          (ok2, s) = test_RunEdge Z [0x77, 0x10] kFallThrough s
      in ok1 \<and> ok2 \<and> value_bound (table s (int kDWARFRax)) = 9 \<and>
         table_bound (table s (int kDWARFRax)) = 9)"

definition AGuardOnASubRegisterIsNotPromotedButIsCarried :: "zydis \<Rightarrow> bool" where
  "AGuardOnASubRegisterIsNotPromotedButIsCarried Z \<longleftrightarrow>
     (let s = Entry; (ok1, _, s) = test_Run Z [0x83, 0xf8, 0x09] s; (ok2, s) = test_RunEdge Z [0x77, 0x10] kFallThrough s
      in ok1 \<and> ok2 \<and> value_bound (table s (int kDWARFRax)) = kBoundTop \<and>
         last_cmp s \<noteq> None \<and> proven_bound (the (last_cmp s)) = 9 \<and>
         width_bits (the (last_cmp s)) = 32)"

definition AnAlreadyProvenGuardIsNotReappliedByALaterBranch :: "zydis \<Rightarrow> bool" where
  "AnAlreadyProvenGuardIsNotReappliedByALaterBranch Z \<longleftrightarrow>
     (let s = Entry; (ok1, _, s) = test_Run Z [0x83, 0xf8, 0x09] s; (ok2, s) = test_RunEdge Z [0x73, 0x10] kFallThrough s
      in ok1 \<and> ok2 \<and> proven_bound (the (last_cmp s)) = 8 \<and>
         (let (ok3, s) = test_RunEdge Z [0x73, 0x10] kFallThrough s
          in ok3 \<and> proven_bound (the (last_cmp s)) = 8))"

lemma insn_semantics_edge_tests:
  "JaProvesOnTheFallThroughEdge test_zydis"
  "JaProvesNothingOnTheTakenEdge test_zydis"
  "JaeProvesTheStrictBoundOnTheFallThroughEdge test_zydis"
  "JbeProvesOnTheTakenEdge test_zydis"
  "JbeProvesNothingOnTheFallThroughEdge test_zydis"
  "JbProvesTheStrictBoundOnTheTakenEdge test_zydis"
  "JbAgainstZeroProvesNothing test_zydis"
  "ASignedBranchIsNotAGuard test_zydis"
  "AGuardOnAFullWidthCompareIsPromotedImmediately test_zydis"
  "AGuardOnASubRegisterIsNotPromotedButIsCarried test_zydis"
  "AnAlreadyProvenGuardIsNotReappliedByALaterBranch test_zydis"
  by code_simp+

subsection \<open>Proven guards\<close>

definition AProvenGuardIsCashedInByAWiden :: "zydis \<Rightarrow> bool" where
  "AProvenGuardIsCashedInByAWiden Z \<longleftrightarrow>
     (let s = Entry;
          s = s\<lparr>last_cmp := Some \<lparr>fg_reg = kDWARFRax, width_bits = 8, imm = 9, proven_bound = 9\<rparr>\<rparr>;
          (ok1, _, s) = test_Run Z [0x0f, 0xb6, 0xc8] s
      in ok1 \<and> value_bound (table s (int kDWARFRcx)) = 9 \<and> table_bound (table s (int kDWARFRcx)) = 9)"

definition AProvenGuardIsCashedInWhenSourceAndDestinationAreTheSameRegister :: "zydis \<Rightarrow> bool" where
  "AProvenGuardIsCashedInWhenSourceAndDestinationAreTheSameRegister Z \<longleftrightarrow>
     (let s = Entry;
          s = s\<lparr>last_cmp := Some \<lparr>fg_reg = kDWARFRax, width_bits = 8, imm = 9, proven_bound = 9\<rparr>\<rparr>;
          (ok1, _, s) = test_Run Z [0x0f, 0xb6, 0xc0] s
      in ok1 \<and> table_bound (table s (int kDWARFRax)) = 9 \<and> last_cmp s = None)"

definition AnUnprovenGuardIsNotCashedIn :: "zydis \<Rightarrow> bool" where
  "AnUnprovenGuardIsNotCashedIn Z \<longleftrightarrow>
     (let s = Entry;
          s = s\<lparr>last_cmp := Some \<lparr>fg_reg = kDWARFRax, width_bits = 8, imm = 9, proven_bound = kBoundTop\<rparr>\<rparr>;
          (ok1, _, s) = test_Run Z [0x0f, 0xb6, 0xc8] s
      in ok1 \<and> \<not> HasTableBound (table s (int kDWARFRcx)) \<and> value_bound (table s (int kDWARFRcx)) = 255)"

definition AProvenGuardIsNotCashedInByAWiderRead :: "zydis \<Rightarrow> bool" where
  "AProvenGuardIsNotCashedInByAWiderRead Z \<longleftrightarrow>
     (let s = Entry;
          s = s\<lparr>last_cmp := Some \<lparr>fg_reg = kDWARFRax, width_bits = 8, imm = 9, proven_bound = 9\<rparr>\<rparr>;
          (ok1, _, s) = test_Run Z [0x48, 0x63, 0xc8] s
      in ok1 \<and> \<not> HasTableBound (table s (int kDWARFRcx)))"

definition AProvenGuardSurvivesAFlagsWritingInstruction :: "zydis \<Rightarrow> bool" where
  "AProvenGuardSurvivesAFlagsWritingInstruction Z \<longleftrightarrow>
     (let s = Entry;
          s = s\<lparr>last_cmp := Some \<lparr>fg_reg = kDWARFRax, width_bits = 8, imm = 9, proven_bound = 9\<rparr>\<rparr>;
          (ok1, _, s) = test_Run Z [0x83, 0xc1, 0x01] s
      in ok1 \<and> last_cmp s \<noteq> None \<and> proven (the (last_cmp s)))"

definition AProvenGuardDoesNotSurviveAWriteToItsOwnRegister :: "zydis \<Rightarrow> bool" where
  "AProvenGuardDoesNotSurviveAWriteToItsOwnRegister Z \<longleftrightarrow>
     (let s = Entry;
          s = s\<lparr>last_cmp := Some \<lparr>fg_reg = kDWARFRax, width_bits = 8, imm = 9, proven_bound = 9\<rparr>\<rparr>;
          (ok1, _, s) = test_Run Z [0x48, 0x8b, 0x03] s
      in ok1 \<and> last_cmp s = None)"

lemma insn_semantics_guard_tests:
  "AProvenGuardIsCashedInByAWiden test_zydis"
  "AProvenGuardIsCashedInWhenSourceAndDestinationAreTheSameRegister test_zydis"
  "AnUnprovenGuardIsNotCashedIn test_zydis"
  "AProvenGuardIsNotCashedInByAWiderRead test_zydis"
  "AProvenGuardSurvivesAFlagsWritingInstruction test_zydis"
  "AProvenGuardDoesNotSurviveAWriteToItsOwnRegister test_zydis"
  by code_simp+

subsection \<open>Bounds across widens and the rest\<close>

definition MovzxCarriesTheSourcesBoundsAcrossATruncatingWiden :: "zydis \<Rightarrow> bool" where
  "MovzxCarriesTheSourcesBoundsAcrossATruncatingWiden Z \<longleftrightarrow>
     (let s = Entry; s = ApplyGuardBound (int kDWARFRax) 9 s; (ok1, _, s) = test_Run Z [0x0f, 0xb6, 0xc8] s
      in ok1 \<and> is_top (reg s (int kDWARFRcx)) \<and> value_bound (table s (int kDWARFRcx)) = 9 \<and>
         table_bound (table s (int kDWARFRcx)) = 9 \<and> value_bound (table s (int kDWARFRax)) = 9)"

definition NarrowMovCarriesBoundsWhenTheDestinationIs32Bit :: "zydis \<Rightarrow> bool" where
  "NarrowMovCarriesBoundsWhenTheDestinationIs32Bit Z \<longleftrightarrow>
     (let s = Entry; s = ApplyGuardBound (int kDWARFRsi) 9 s; (ok1, _, s) = test_Run Z [0x89, 0xf0] s
      in ok1 \<and> value_bound (table s (int kDWARFRax)) = 9 \<and> table_bound (table s (int kDWARFRax)) = 9)"

definition MovsxCarriesBoundsWhenTheSignBitIsProvenClear :: "zydis \<Rightarrow> bool" where
  "MovsxCarriesBoundsWhenTheSignBitIsProvenClear Z \<longleftrightarrow>
     (let s = Entry; s = ApplyGuardBound (int kDWARFRax) 9 s; (ok1, _, s) = test_Run Z [0x0f, 0xbe, 0xc8] s
      in ok1 \<and> value_bound (table s (int kDWARFRcx)) = 9 \<and> table_bound (table s (int kDWARFRcx)) = 9)"

definition MovsxRejectsBoundsWhenTheSignBitCanBeOne :: "zydis \<Rightarrow> bool" where
  "MovsxRejectsBoundsWhenTheSignBitCanBeOne Z \<longleftrightarrow>
     (let s = Entry; s = ApplyGuardBound (int kDWARFRax) 200 s; (ok1, _, s) = test_Run Z [0x0f, 0xbe, 0xc8] s
      in ok1 \<and> \<not> HasTableBound (table s (int kDWARFRcx)) \<and>
         value_bound (table s (int kDWARFRcx)) = 0xffffffff)"

definition MovsxdCarriesBoundsFrom32BitRegWhenNonNegative :: "zydis \<Rightarrow> bool" where
  "MovsxdCarriesBoundsFrom32BitRegWhenNonNegative Z \<longleftrightarrow>
     (let s = Entry; s = ApplyGuardBound (int kDWARFRax) 9 s; (ok1, _, s) = test_Run Z [0x48, 0x63, 0xc8] s
      in ok1 \<and> value_bound (table s (int kDWARFRcx)) = 9 \<and> table_bound (table s (int kDWARFRcx)) = 9)"

definition MovsxdRejectsBoundsWhenTheSignBitCanBeOne :: "zydis \<Rightarrow> bool" where
  "MovsxdRejectsBoundsWhenTheSignBitCanBeOne Z \<longleftrightarrow>
     (let s = Entry; s = ApplyValueBound (int kDWARFRax) 0xffffffff s; (ok1, _, s) = test_Run Z [0x48, 0x63, 0xc8] s
      in ok1 \<and> value_bound (table s (int kDWARFRcx)) = kBoundTop)"

definition LeaOnRspDropsDeadSlotsWhenMovingUp :: "zydis \<Rightarrow> bool" where
  "LeaOnRspDropsDeadSlotsWhenMovingUp Z \<longleftrightarrow>
     (let s = Entry; (ok1, _, s) = test_Run Z [0x48, 0x83, 0xec, 0x80] s; s = SetSlot (- 300) (OrigReg kDWARFRbx) s
      in ok1 \<and> IsOrigReg (Slot s (- 300)) kDWARFRbx \<and>
         (let (ok2, _, s) = test_Run Z [0x48, 0x8d, 0x64, 0x24, 0x20] s
          in ok2 \<and> is_top (Slot s (- 300))))"

definition StoresThroughAnUntrackedPointerDoNotWipeTheFrame :: "zydis \<Rightarrow> bool" where
  "StoresThroughAnUntrackedPointerDoNotWipeTheFrame Z \<longleftrightarrow>
     (let s = Entry; (ok1, _, s) = test_Run Z [0x53] s
      in ok1 \<and> IsOrigReg (Slot s (- 16)) kDWARFRbx \<and>
         (let (ok2, _, s) = test_Run Z [0x48, 0x89, 0x07] s
          in ok2 \<and> IsOrigReg (Slot s (- 16)) kDWARFRbx))"

definition SyscallClobbersCallerSavedRegistersAndRedZone :: "zydis \<Rightarrow> bool" where
  "SyscallClobbersCallerSavedRegistersAndRedZone Z \<longleftrightarrow>
     (let s = Entry; s = SetSlot (- 16) (OrigReg kDWARFRbx) s; s = SetTableReg kDWARFRax (TV_Const 1) s;
          s = SetTableReg kDWARFRbx (TV_Const 2) s; s = SetReg1 kDWARFRbp (CFARel (- 8)) s;
          (ok1, out, s) = test_Run Z [0x0f, 0x05] s
      in ok1 \<and> \<not> is_call out \<and> falls_through out \<and> IsCFARel (reg s (int kDWARFRsp)) (- 8) \<and>
         IsCFARel (reg s (int kDWARFRbp)) (- 8) \<and> TV_IsConst (table s (int kDWARFRbx)) \<and>
         TV_ConstValue (table s (int kDWARFRbx)) = 2 \<and> is_top (reg s (int kDWARFRax)) \<and>
         ident (table s (int kDWARFRax)) = TNone \<and> is_top (reg s (int kDWARFRcx)) \<and>
         is_top (reg s (int kDWARFRdi)) \<and> is_top (Slot s (- 16)))"

definition Int80ClobbersCallerSavedRegistersAndRedZone :: "zydis \<Rightarrow> bool" where
  "Int80ClobbersCallerSavedRegistersAndRedZone Z \<longleftrightarrow>
     (let s = Entry; s = SetSlot (- 16) (OrigReg kDWARFRbx) s; s = SetTableReg kDWARFRax (TV_Const 1) s;
          s = SetTableReg kDWARFRbx (TV_Const 2) s; (ok1, out, s) = test_Run Z [0xcd, 0x80] s
      in ok1 \<and> \<not> is_call out \<and> falls_through out \<and> IsCFARel (reg s (int kDWARFRsp)) (- 8) \<and>
         TV_IsConst (table s (int kDWARFRbx)) \<and> is_top (reg s (int kDWARFRax)) \<and> is_top (Slot s (- 16)))"

lemma insn_semantics_widen_tests:
  "MovzxCarriesTheSourcesBoundsAcrossATruncatingWiden test_zydis"
  "NarrowMovCarriesBoundsWhenTheDestinationIs32Bit test_zydis"
  "MovsxCarriesBoundsWhenTheSignBitIsProvenClear test_zydis"
  "MovsxRejectsBoundsWhenTheSignBitCanBeOne test_zydis"
  "MovsxdCarriesBoundsFrom32BitRegWhenNonNegative test_zydis"
  "MovsxdRejectsBoundsWhenTheSignBitCanBeOne test_zydis"
  "LeaOnRspDropsDeadSlotsWhenMovingUp test_zydis"
  "StoresThroughAnUntrackedPointerDoNotWipeTheFrame test_zydis"
  "SyscallClobbersCallerSavedRegistersAndRedZone test_zydis"
  "Int80ClobbersCallerSavedRegistersAndRedZone test_zydis"
  by code_simp+

end
