(* ===== verification/Fixture_Test.thy ===== *)
theory Fixture_Test
  imports Image_File Elf_Props Light_Props
begin

text \<open>
  The tests of \<^verbatim>\<open>cfi-table-test.cc\<close>, \<^verbatim>\<open>elf-image-test.cc\<close> and \<^verbatim>\<open>light-checker-test.cc\<close> that do not
  depend on what is in the fixture library. Those about formatting are closed propositions; those
  about the image or a result of the fixture are predicates, shown here for every image, table and
  result the code can produce, which is more than a test can say.
\<close>

subsection \<open>Formatting\<close>

definition CFIRuleTest_StringifyFormatsRulesCorrectly :: bool where
  "CFIRuleTest_StringifyFormatsRulesCorrectly \<longleftrightarrow>
     (let undefined_rule = \<lparr>cfa_kind = CFAUndefined, cfa_reg = 0, cfa_offset = 0\<rparr>;
          reg_offset = \<lparr>cfa_kind = CFARegOffset, cfa_reg = kDWARFRsp, cfa_offset = 8\<rparr>;
          expr = \<lparr>cfa_kind = CFAExpression, cfa_reg = 0, cfa_offset = 0\<rparr>
      in CFARule_str undefined_rule = ''<no CFA rule>'' \<and> CFARule_str reg_offset = ''rsp+8'' \<and>
         CFARule_str expr = ''<DWARF expression>'')"

definition RegRuleTest_StringifyFormatsRulesCorrectly :: bool where
  "RegRuleTest_StringifyFormatsRulesCorrectly \<longleftrightarrow>
     (let rule = (\<lambda>kind r off. \<lparr>rule_kind = kind, rule_reg = r, rule_offset = off\<rparr>)
      in RegRule_str (rule RUnset 0 0) = ''<no rule>'' \<and> RegRule_str (rule RUndefined 0 0) = ''undefined'' \<and>
         RegRule_str (rule RSameValue 0 0) = ''same_value'' \<and> RegRule_str (rule RAtCFAOffset 0 (- 8)) = ''[CFA-8]'' \<and>
         RegRule_str (rule RValOffset 0 16) = ''CFA+16'' \<and> RegRule_str (rule RInRegister kDWARFRbp 0) = ''in rbp'' \<and>
         RegRule_str (rule RExpression 0 0) = ''<DWARF expression>'' \<and>
         RegRule_str (rule RValExpression 0 0) = ''<DWARF val expression>'')"

definition DWARFRegNameTest_BASIC :: bool where
  "DWARFRegNameTest_BASIC \<longleftrightarrow> DWARFRegName 7 = ''rsp'' \<and> DWARFRegName (- 1) = ''r{-1}''"

lemma cfi_table_format_tests:
  "CFIRuleTest_StringifyFormatsRulesCorrectly"
  "RegRuleTest_StringifyFormatsRulesCorrectly"
  "DWARFRegNameTest_BASIC"
  by code_simp+

subsection \<open>Rows\<close>

definition RowLookupIsBoundedByTheFDERange :: "CFI \<Rightarrow> bool" where
  "RowLookupIsBoundedByTheFDERange c \<longleftrightarrow>
     RowAt c (pc_begin c) \<noteq> None \<and> RowAt c (pc_end c - 1) \<noteq> None \<and> RowAt c (pc_end c) = None \<and> RowAt c (pc_begin c - 1) = None"

text \<open>Every table that starts with a row at the start of a non-empty range passes.\<close>

lemma row_lookup_bounded:
  assumes "pc_begin c < pc_end c" "rows c = r # rs" "pc_start r = pc_begin c"
  shows "RowLookupIsBoundedByTheFDERange c"
proof -
  have "pc_begin c \<le> pc_end c - 1" "pc_end c - 1 < pc_end c"
    using assms(1) by (auto simp: word_less_nat_alt word_le_nat_alt unat_sub_if_size)
  moreover have "pc_begin c - 1 < pc_begin c \<or> pc_end c \<le> pc_begin c - 1"
  proof (cases "pc_begin c = 0")
    case False
    then have "0 < unat (pc_begin c)" by (simp add: unat_gt_0)
    then show ?thesis by (simp add: word_less_nat_alt word_le_nat_alt unat_sub_if_size)
  qed simp
  moreover have "last_le pc_start pc (rows c) \<noteq> None" if "pc_begin c \<le> pc" for pc
    using that assms(2,3) by (simp add: last_le_Cons not_less split: option.split)
  ultimately show ?thesis
    using assms(1,2) by (auto simp: RowLookupIsBoundedByTheFDERange_def RowAt_def)
qed

subsection \<open>The image\<close>

definition BiasRoundTrips :: "ELFImage \<Rightarrow> bool" where
  "BiasRoundTrips img \<longleftrightarrow> (let vaddr = img_eh_frame_start img in ToVaddr img (ToImage img vaddr) = vaddr)"

definition PreservesVaddrDistancesAcrossSections :: "ELFImage \<Rightarrow> bool" where
  "PreservesVaddrDistancesAcrossSections img \<longleftrightarrow>
     (let code = fs_vaddr (hd (func_symbols img)); eh_frame = img_eh_frame_start img;
          vaddr_delta = eh_frame - code; image_delta = ToImage img eh_frame - ToImage img code
      in vaddr_delta = image_delta)"

definition FunctionSymbolsSortedByAddress :: "ELFImage \<Rightarrow> bool" where
  "FunctionSymbolsSortedByAddress img \<longleftrightarrow> sorted (map fs_vaddr (func_symbols img))"

lemma bias_tests: "BiasRoundTrips img" "PreservesVaddrDistancesAcrossSections img"
  by (simp_all add: BiasRoundTrips_def PreservesVaddrDistancesAcrossSections_def ToVaddr_def ToImage_def Let_def)

lemma eh_frame_fallback_symbols [simp]: "func_symbols (eh_frame_fallback img) = func_symbols img"
  by (simp add: eh_frame_fallback_def Let_def split: option.split)

lemma read_sections_symbols: "func_symbols img = [] \<Longrightarrow> sorted (map fs_vaddr (func_symbols (read_sections file img)))"
  by (simp add: read_sections_def Let_def)

lemma symbols_sorted:
  assumes "Open reserve map_ok file = Inr img"
  shows "FunctionSymbolsSortedByAddress img"
  using assms
  by (auto simp: Open_def finish_image_def FunctionSymbolsSortedByAddress_def Let_def read_sections_symbols
      bindR_eq_Inr split: option.splits)

text \<open>\<open>RejectsThingsThatAreNotX8664ELF\<close>: a path that cannot be opened, and a file without the magic number.\<close>

definition RejectsUnopenable :: "file_os \<Rightarrow> string \<Rightarrow> process \<Rightarrow> bool" where
  "RejectsUnopenable K path p \<longleftrightarrow> (case OpenFile K path p of (Inl _, _) \<Rightarrow> True | (Inr _, _) \<Rightarrow> False)"

lemma rejects_missing: "fs_open K path (open_fds (pr_fds p)) = Inl e \<Longrightarrow> RejectsUnopenable K path p"
  by (simp add: RejectsUnopenable_def OpenFile_def)

lemma rejects_text:
  assumes "take 4 file \<noteq> [0x7f, 0x45, 0x4c, 0x46]"
  shows "\<exists>e. Open reserve map_ok file = Inl e"
proof -
  have "map (fbyte file) [0..<4] = take 4 file" if "64 \<le> length file"
    using that by (intro nth_equalityI) (auto simp: fbyte_def)
  with assms have "check_ehdr file \<noteq> None" by (auto simp: check_ehdr_def)
  then show ?thesis by (auto simp: Open_def plan_image_def)
qed

subsection \<open>The light checker\<close>

definition NeverPopulatesGuessingFields :: "FDEResult \<Rightarrow> bool" where
  "NeverPopulatesGuessingFields res \<longleftrightarrow>
     guessable_jump_pc res = None \<and> guessed_jump_tables res = [] \<and> verdict res \<noteq> kReviewLight"

lemma light_never_guesses:
  assumes "LightCheck opts c at_entry = Some res"
  shows "NeverPopulatesGuessingFields res"
  using assms
  by (auto simp: LightCheck_def NeverPopulatesGuessingFields_def result0_def light_verdict_def Let_def split: if_splits)

end
