(* ===== verification/Spec2Isabelle.thy ===== *)
theory Spec2Isabelle
  imports Abs_Join Check_Props Leb_Props Section_Props Coverage_Props Elf_Props
    Driver_Props Symbolizer_Props Report_Props File_Run Insn_Semantics_Test Fixture_Test
begin

text \<open>
  A verification development of unwind-check, the program that checks that the call-frame
  information (CFI) in the \<^verbatim>\<open>.eh_frame\<close> section of an x86-64 ELF file agrees with what the code
  does to the stack.

  \<^bold>\<open>The program.\<close> \<^verbatim>\<open>unwind-check.cc\<close> opens the file (\<^verbatim>\<open>elf-image.cc\<close>), walks \<^verbatim>\<open>.eh_frame\<close>
  (\<^verbatim>\<open>eh-frame-reader\<close>), turns every FDE into a table of rows (\<^verbatim>\<open>cfi-table.cc\<close>), screens the FDEs
  against the image and against each other, and hands each one that is left to a checker: by default
  the linear one (\<^verbatim>\<open>light-checker.cc\<close>), with \<open>--full\<close> the data-flow one (\<^verbatim>\<open>fde-checker.cc\<close>). Both
  decode instructions (\<^verbatim>\<open>disasm.cc\<close>, over Zydis) and run them on an abstract state
  (\<^verbatim>\<open>abs-state\<close>, \<^verbatim>\<open>insn-semantics.cc\<close>) that says for each register and stack slot which entry
  value or which distance from the CFA it holds, and compare that state with the row in force. The
  full checker also resolves jump tables and follows landing pads (\<^verbatim>\<open>lsda-reader.cc\<close>). The verdicts
  are BLESSED, REVIEW-LIGHT, REVIEW and MISMATCH; a report is printed (\<^verbatim>\<open>report.cc\<close>,
  \<^verbatim>\<open>diagnostics.cc\<close>, \<^verbatim>\<open>symbolizer.cc\<close>, \<^verbatim>\<open>coverage-check.cc\<close>), and the worst verdict is the exit code.

  \<^bold>\<open>The model.\<close> One theory per component, in the order of the calls.
  \<^item> \<open>Prelude\<close>: machine integers, exceptions as the left side of a sum, formatting, ordered maps and
    the map contract as a locale.
  \<^item> \<open>Eh_Frame_Reader\<close> (\<^verbatim>\<open>dwarf-constants.h\<close>, \<^verbatim>\<open>eh-frame-reader.h/.cc\<close>): byte slices over a memory
    (a function from addresses to bytes), CIE and FDE parsing, the opcode interpreter, which is
    generic in a record of visitor callbacks as the template is, the binary search table, and
    \<open>EnumerateFDEs\<close>.
  \<^item> \<open>Cfi_Table\<close> (\<^verbatim>\<open>cfi-table.h/.cc\<close>): rows and rules, the visitor that builds a table,
    \<open>ReadFDE\<close>, \<open>RowAt\<close>.
  \<^item> \<open>Abs_State\<close> (\<^verbatim>\<open>abs-state.h/.cc\<close>), \<open>Disasm\<close> (\<^verbatim>\<open>disasm.h/.cc\<close>), \<open>Insn_Semantics\<close>
    (\<^verbatim>\<open>insn-semantics.h/.cc\<close>): values, bounds, seeding, \<open>Join\<close>; decoding; \<open>Transfer\<close> with a
    definition per mnemonic case, and \<open>TransferEdge\<close>.
  \<^item> \<open>Elf_Image\<close> (\<^verbatim>\<open>elf-image.h/.cc\<close>), \<open>Lsda_Reader\<close> (\<^verbatim>\<open>lsda-reader.h/.cc\<close>): \<open>Open\<close> as a function of
    the bytes of the file, the queries on the image; call-site tables. \<open>Image_File\<close>: \<open>Open\<close> as a whole,
    with its descriptor and its mappings, the destructor, and the run around them (\<open>RunFile\<close>).
  \<^item> \<open>Fde_Checker\<close>, \<open>Fde_Walk\<close> (\<^verbatim>\<open>fde-checker.h/.cc\<close>): the finding sink, the row checks, jump-table
    resolution and guessing; the worklist walk (\<open>Propagate\<close>, \<open>Drain\<close>), the verification pass, the
    coverage gaps, \<open>Check\<close> and \<open>CheckWithGuessing\<close>. The state is the record \<open>FDEChecker\<close>.
  \<^item> \<open>Light_Checker\<close>, \<open>Coverage_Check\<close>: \<open>LightCheck\<close>; \<open>CheckUncoveredSymbols\<close>.
  \<^item> \<open>Subprocess\<close>, \<open>Symbolizer\<close>, \<open>Diagnostics\<close>, \<open>Report\<close>, \<open>Driver\<close>: spawning with the ownership of
    descriptors, addr2line and its answers, listings and the inspect pipeline, the text of the
    report, and the whole of \<^verbatim>\<open>unwind-check.cc\<close>: \<open>DriverRun\<close> (results and exit code of a run over
    an image), \<open>RunProgram\<close> (the function \<open>Run\<close>: flags, output, complaints, exit code), \<open>main_exit\<close>.

  Unsigned integers are words of their width and wrap as in C++; \<open>int64_t\<close> is an \<open>int\<close> with
  \<open>wrap64\<close> where the code may overflow. An exception or error status is the left side of a sum. A
  loop whose end is not evident is a \<open>partial_function\<close> into \<open>option\<close>, where \<open>None\<close> means that it
  does not return, and the theorems that something returns say so; \<open>Drain\<close> needs no fuel, because
  the code itself counts its steps against \<open>max_iterations\<close>. \<open>btree_map\<close> is a sorted association
  list, \<open>flat_hash_map\<close> one without duplicate keys; the model fixes the iteration order where the
  code sorts anyway.

  \<^bold>\<open>The parameters.\<close> Zydis (decoder, formatter, register tables) is the record \<open>zydis\<close>; the
  hypothesis \<open>decoder_ok\<close> says that it consumes at least one byte and no more than it is given,
  \<open>widths_ok\<close> that the full registers are 64 bits wide. The
  system calls are the record \<open>os\<close>; \<open>pipes_fresh\<close>, \<open>waits_end\<close> and \<open>accepts_writes\<close> state what is
  documented of them. The calls around the image are the record \<open>file_os\<close>; \<open>mmap_fresh\<close> says that an
  address the kernel chooses is free. The demangler, the JSON printer, the regex engine, the hex parser, the
  environment and the terminal are fields of \<open>host\<close>. Elementary library functions (formatting,
  splitting, stripping, \<open>fgets\<close>, \<open>upper_bound\<close>) are written out. \<open>image_ok\<close> and \<open>files_no_wrap\<close>
  exclude segments that wrap around the address space.

  \<^bold>\<open>What is shown.\<close>
  \<^item> \<open>Leb_Props\<close>, \<open>Section_Props\<close>, \<open>Decode_Props\<close>, \<open>Table_Props\<close>: LEB128 round trips; the section
    walk finds exactly the FDEs; the decoder preserves any simulation and any invariant between
    visitors (two locales, interpreted for the table builder); so the table built for an FDE gives
    at every address the rules of a reference semantics that keeps a map from addresses to rules,
    and is well formed.
  \<^item> \<open>Abs_Join\<close>: values form a lattice (instances of the order classes); \<open>Join\<close> is the least upper
    bound, reports exactly the conflicts and does not depend on the order of arrival.
  \<^item> \<open>Insn_Props\<close>, \<open>Row_Props\<close>, \<open>Walk_Props\<close>, \<open>Verify_Props\<close>, \<open>Reach_Props\<close>, \<open>Check_Props\<close>,
    \<open>Fde_Claims\<close>: the walk keeps its invariant and reaches a fixed point, so a BLESSED verdict is a
    certificate for every reached instruction and edge; every check returns; the row check, the
    sink, the verdict, the jump tables and the look-ups (one locale for ranges, interpreted for the
    call-site table and the FDE index) do exactly what they promise.
  \<^item> \<open>Machine\<close>, \<open>Run_Props\<close>, \<open>Bound_Props\<close>, \<open>Cpu\<close>, \<open>Cpu_Tables\<close>, \<open>Cpu_Step\<close>, \<open>Cpu_Run\<close>, \<open>Dispatch\<close>: an
    x86 processor with memory and the flags unsigned jumps read, which goes on wherever its own
    program counter goes; \<open>Transfer\<close> and \<open>TransferEdge\<close> are sound for it in both halves of the
    state; a jump through a bounded table goes to one of the targets the checker resolved; so a
    BLESSED FDE unwinds correctly at every instruction of every run through it, provided the trace is
    \<open>faithful_trace\<close>, a condition that evaluates: no claim rests on one branch of a join only (\<open>Join\<close>
    takes an unknown value for neutral), no fall-through was dropped but those after calls that do
    not return, table entries are used as such. That each part is needed is shown by a theorem or
    named in the findings.
  \<^item> \<open>Light_Props\<close>, \<open>Coverage_Props\<close>, \<open>Elf_Props\<close>: the light checker blesses exactly the FDEs whose
    instructions fit their rows one by one; the uncovered symbols are exact; the image holds the
    file's bytes and is mapped inside its reservation.
  \<^item> \<open>Symbolizer_Props\<close>, \<open>Report_Props\<close>, \<open>Driver_Props\<close>, \<open>Program_Props\<close> and this theory: names and
    lines are those addr2line gave; the report shows every finding it should; exit code 0 means
    that every FDE looked at is BLESSED, the FDEs are disjoint and no symbol is uncovered; the
    program refines the run over the image; and, across all components, what exit code 0 of a full run
    over a file means for the machine.
  \<^item> \<open>File_Props\<close>, \<open>File_Sample\<close>, \<open>File_Run\<close>: a run over a file always ends, closes every descriptor and
    undoes every mapping, on every path; the image it works on is the one \<open>Open\<close> builds from the bytes
    of the file. A whole file of 243 bytes is opened, checked and run through, so that the theorem
    above is applied from the bytes of a file to a state of the processor.
  \<^item> \<open>Abs_State_Test\<close>, \<open>Insn_Semantics_Test\<close>, \<open>Fixture_Test\<close>: the unit tests of the repository, evaluated
    on the model, as evidence that it computes what the code does; tests that hold whatever the
    fixture are shown for every image.

  Theorems that record a defect of the code: \<open>Blessed_drops_fall_through\<close>, \<open>displaced_table_missed\<close>,
  \<open>sink_cap_hides_mismatch\<close>, \<open>Join_keeps_one_sided_claim\<close>, \<open>exit_zero_despite_walk_error\<close>, \<open>ReadFDE_rows_unsorted\<close>,
  \<open>Open_maps_outside_reservation\<close>, \<open>Prepare_long_name_shifts\<close>.

  \<^bold>\<open>Not modelled.\<close> The wording of the messages on standard error (their kinds are modelled); \<open>VLOG\<close>
  tracing; the flag library; faults on reading a mapped file that another process truncates; the Ruby
  scripts and the build files; the tests that compare verdicts for the functions of
  \<^verbatim>\<open>libfixtures.so\<close>, which the build assembles and Zydis decodes. The processor covers the
  instructions that build and take down frames, those of a switch dispatch, 64-bit stores, and any
  that write registers only; other stores and string instructions are not in it, and jumps on flags
  other than carry and zero are nondeterministic.
\<close>

subsection \<open>What exit code 0 is worth\<close>

lemma CheckWithGuessing_Blessed:
  assumes "CheckWithGuessing opts c e = Some (res, tr)" "verdict res = kBlessed"
  shows "Check opts c e False = Some (res, tr)"
  using assms by (auto simp: CheckWithGuessing_def split: option.splits if_splits)

lemma RunProgram_zero:
  assumes "RunProgram H rf path script (Inr img) st = Some out" "out_code out = 0"
    and "h_disasm H = Inr Z" "name_filter H (rf_function rf) = Inr fn" "pc_filter H (rf_pc rf) = Some pc"
    and "\<not> rf_inspect rf" "\<not> rf_dump_cfi rf"
  obtains results where "DriverRun (driver_flags rf pc fn) (h_demangle H) Z img = Some (Inr (results, 0))"
proof -
  have "code = kExitFailure" if "DriverRun (driver_flags rf pc fn) (h_demangle H) Z img = Some (Inl code)" for code
    using that by (auto simp: DriverRun_def Let_def split: if_splits prod.splits)
  with assms(1,2) show thesis
    using that unfolding RunProgram_plain [OF assms(3-7)] by (auto simp: kExitFailure_def split: option.splits sum.splits)
qed



end
